(* ===== verification/Prelude.thy ===== *)
theory Prelude
  imports Main
begin

text \<open>
  Shared vocabulary of the development: Go's fixed-width integers with their wrap-around,
  Go's truncating division, the error values that the packages return, and the two SQL
  primitives (update the rows that satisfy a predicate, count them) on which the model of
  the metadata store rests, each with the generic lemmas the component theories use.
\<close>

named_theorems go_arith \<open>facts on Go integer arithmetic inside its range\<close>
named_theorems sql_simps \<open>facts on updated and selected rows\<close>

section \<open>Fixed-width integers\<close>

definition int64_ok :: "int \<Rightarrow> bool" where
  "int64_ok x \<longleftrightarrow> - (2 ^ 63) \<le> x \<and> x < 2 ^ 63"

definition wrap64 :: "int \<Rightarrow> int" where
  "wrap64 x = (x + 2 ^ 63) mod 2 ^ 64 - 2 ^ 63"

definition wrap32 :: "int \<Rightarrow> int" where
  "wrap32 x = (x + 2 ^ 31) mod 2 ^ 32 - 2 ^ 31"

lemma wrap64_id [go_arith]: "int64_ok x \<Longrightarrow> wrap64 x = x"
  by (simp add: int64_ok_def wrap64_def)

lemma wrap64_ok [simp]: "int64_ok (wrap64 x)"
proof -
  have "(x + 2 ^ 63) mod 2 ^ 64 < 2 ^ 64" and "0 \<le> (x + 2 ^ 63) mod 2 ^ 64"
    by simp_all
  then show ?thesis by (simp add: int64_ok_def wrap64_def)
qed

lemma wrap32_id [go_arith]: "- (2 ^ 31) \<le> x \<Longrightarrow> x < 2 ^ 31 \<Longrightarrow> wrap32 x = x"
  by (simp add: wrap32_def)

lemma wrap32_range: "- (2 ^ 31) \<le> wrap32 x \<and> wrap32 x < 2 ^ 31"
proof -
  have "(x + 2 ^ 31) mod 2 ^ 32 < 2 ^ 32" and "0 \<le> (x + 2 ^ 31) mod 2 ^ 32"
    by simp_all
  then show ?thesis by (simp add: wrap32_def)
qed

text \<open>Go's \<open>/\<close> and \<open>%\<close> on signed integers truncate towards zero.\<close>

definition go_quot :: "int \<Rightarrow> int \<Rightarrow> int" where
  "go_quot a b = sgn a * sgn b * (\<bar>a\<bar> div \<bar>b\<bar>)"

definition go_rem :: "int \<Rightarrow> int \<Rightarrow> int" where
  "go_rem a b = a - b * go_quot a b"

lemma go_quot_nonneg [go_arith]: "0 \<le> a \<Longrightarrow> 0 < b \<Longrightarrow> go_quot a b = a div b"
  by (cases "a = 0") (simp_all add: go_quot_def)

lemma go_rem_nonneg [go_arith]: "0 \<le> a \<Longrightarrow> 0 < b \<Longrightarrow> go_rem a b = a mod b"
  by (simp add: go_rem_def go_quot_nonneg minus_mult_div_eq_mod)

lemma go_quot_mult [go_arith]: "0 < b \<Longrightarrow> go_quot (k * b) b = k"
  by (cases "k = 0") (simp_all add: go_quot_def abs_mult sgn_mult mult.commute [of _ "\<bar>k\<bar>"] abs_mult_sgn
      mult_sgn_abs)

text \<open>The idiom \<open>(n - w + 1) / w\<close> of the numeric axis is the floor of \<open>n / w\<close> for negative \<open>n\<close>.\<close>

lemma go_quot_floor [go_arith]:
  assumes "n < 0" and "0 < w"
  shows "go_quot (n - w + 1) w = n div w"
proof -
  let ?m = "- (n - w + 1)"
  have m: "0 \<le> ?m" using assms by simp
  have "go_quot (n - w + 1) w = - (?m div w)"
    using assms m by (cases "?m = 0") (auto simp: go_quot_def sgn_if)
  also have "- (?m div w) = n div w"
  proof -
    define q where "q = n div w"
    define r where "r = n mod w"
    have n: "n = q * w + r" by (simp add: q_def r_def)
    have r: "0 \<le> r" "r < w" using assms by (simp_all add: r_def)
    have m_eq: "?m = (w - 1 - r) + (- q) * w" using n by (simp add: algebra_simps)
    have "?m div w = (w - 1 - r) div w + - q"
      unfolding m_eq using assms by (subst div_mult_self1) simp_all
    then have "?m div w = - q + (w - 1 - r) div w" by simp
    also have "(w - 1 - r) div w = 0" using r by (simp add: div_pos_pos_trivial)
    finally show ?thesis by (simp add: q_def)
  qed
  finally show ?thesis .
qed

section \<open>Errors and results\<close>

text \<open>
  The sentinel errors of \<^verbatim>\<open>internal/store\<close>, the messages built with \<open>fmt.Errorf\<close> (their
  text, without the quoted argument), the errors that PostgreSQL or the driver report, and a
  run-time panic (an integer division by zero).
\<close>

datatype goerr =
    ErrAlreadyBootstrapped
  | ErrNotBootstrapped
  | ErrConflict
  | ErrNotFound
  | ErrMsg string
  | ErrDB
  | ErrPanic

type_synonym 'a res = "goerr + 'a"

definition is_ok :: "'a res \<Rightarrow> bool" where
  "is_ok r \<longleftrightarrow> (case r of Inl _ \<Rightarrow> False | Inr _ \<Rightarrow> True)"

lemma is_ok_simps [simp]: "is_ok (Inr x)" "\<not> is_ok (Inl e)"
  by (simp_all add: is_ok_def)

lemma is_okE: "is_ok r \<Longrightarrow> (\<And>x. r = Inr x \<Longrightarrow> P) \<Longrightarrow> P"
  by (cases r) auto

section \<open>Rows of a table\<close>

definition sql_update :: "('r \<Rightarrow> bool) \<Rightarrow> ('r \<Rightarrow> 'r) \<Rightarrow> 'r list \<Rightarrow> 'r list" where
  "sql_update P f rows = map (\<lambda>r. if P r then f r else r) rows"

definition sql_count :: "('r \<Rightarrow> bool) \<Rightarrow> 'r list \<Rightarrow> nat" where
  "sql_count P rows = length (filter P rows)"

lemma sql_update_simps [simp, sql_simps]:
  "sql_update P f [] = []"
  "sql_update P f (r # rs) = (if P r then f r else r) # sql_update P f rs"
  by (simp_all add: sql_update_def)

lemma length_sql_update [simp, sql_simps]: "length (sql_update P f rows) = length rows"
  by (simp add: sql_update_def)

lemma set_sql_update [sql_simps]:
  "set (sql_update P f rows) = (\<lambda>r. if P r then f r else r) ` set rows"
  by (simp add: sql_update_def)

lemma map_sql_update [sql_simps]:
  "(\<And>r. P r \<Longrightarrow> k (f r) = k r) \<Longrightarrow> map k (sql_update P f rows) = map k rows"
  by (simp add: sql_update_def)

lemma sql_count_0 [sql_simps]: "sql_count P rows = 0 \<longleftrightarrow> (\<forall>r \<in> set rows. \<not> P r)"
  by (simp add: sql_count_def filter_empty_conv)

lemma sql_update_none [sql_simps]: "sql_count P rows = 0 \<Longrightarrow> sql_update P f rows = rows"
  by (induction rows) (auto simp: sql_count_def split: if_splits)

text \<open>\<open>key_unique k rows\<close>: a unique column (a primary key or a unique index).\<close>

definition key_unique :: "('r \<Rightarrow> 'k) \<Rightarrow> 'r list \<Rightarrow> bool" where
  "key_unique k rows \<longleftrightarrow> distinct (map k rows)"

lemma key_unique_eq:
  "key_unique k rows \<Longrightarrow> r \<in> set rows \<Longrightarrow> r' \<in> set rows \<Longrightarrow> k r = k r' \<Longrightarrow> r = r'"
  by (auto simp: key_unique_def distinct_map inj_on_def)

lemma key_unique_update [sql_simps]:
  "(\<And>r. P r \<Longrightarrow> k (f r) = k r) \<Longrightarrow> key_unique k (sql_update P f rows) = key_unique k rows"
  by (simp add: key_unique_def map_sql_update)

text \<open>A partial unique index: at most one row with each key among the rows that satisfy \<open>P\<close>.\<close>

definition at_most_one :: "('r \<Rightarrow> bool) \<Rightarrow> 'r list \<Rightarrow> bool" where
  "at_most_one P rows \<longleftrightarrow> sql_count P rows \<le> 1"

lemma at_most_one_eq:
  assumes "at_most_one P rows" and "r \<in> set rows" and "r' \<in> set rows" and "P r" and "P r'"
  shows "r = r'"
proof -
  have r: "r \<in> set (filter P rows)" and r': "r' \<in> set (filter P rows)"
    using assms by simp_all
  have "length (filter P rows) \<le> Suc 0" using assms(1) by (simp add: at_most_one_def sql_count_def)
  then show ?thesis using r r' by (cases "filter P rows") auto
qed

end
