(* ===== verification/GoStrings.thy ===== *)
theory GoStrings
  imports Prelude
begin

text \<open>
  The parts of Go's \<open>strconv\<close>, \<open>fmt\<close> and \<open>strings\<close> that the program uses to build and
  to read bucket identifiers: decimal formatting with and without zero padding,
  \<open>ParseInt\<close> and \<open>Atoi\<close> with the values they return next to an error, \<open>Split\<close> on one
  character and the ASCII part of \<open>ToLower\<close>. The interface \<open>codec\<close> states what a printed
  value owes its reader; it is interpreted here for decimal integers and by the
  components for their own identifiers.
\<close>

section \<open>Codecs\<close>

locale codec =
  fixes enc :: "'a \<Rightarrow> string"
    and dec :: "string \<Rightarrow> 'a option"
    and valid :: "'a \<Rightarrow> bool"
  assumes dec_enc: "valid x \<Longrightarrow> dec (enc x) = Some x"
begin

lemma enc_inj: "valid x \<Longrightarrow> valid y \<Longrightarrow> enc x = enc y \<Longrightarrow> x = y"
  by (metis dec_enc option.inject)

lemma enc_eq_iff: "valid x \<Longrightarrow> valid y \<Longrightarrow> enc x = enc y \<longleftrightarrow> x = y"
  using enc_inj by blast

lemma inj_on_enc: "inj_on enc {x. valid x}"
  by (auto simp: inj_on_def intro: enc_inj)

end

section \<open>Digits\<close>

definition char_code :: "char \<Rightarrow> int" where
  "char_code c = of_char c"

definition digit_char :: "int \<Rightarrow> char" where
  "digit_char d = char_of (48 + d)"

definition is_digit :: "char \<Rightarrow> bool" where
  "is_digit c \<longleftrightarrow> 48 \<le> char_code c \<and> char_code c \<le> 57"

definition digit_val :: "char \<Rightarrow> int" where
  "digit_val c = char_code c - 48"

lemma char_code_eq_iff: "char_code c = char_code c' \<longleftrightarrow> c = c'"
  by (simp add: char_code_def)

text \<open>Evaluation reads the code of a character off its bits.\<close>

lemma char_code_Char [code]:
  "char_code (Char b0 b1 b2 b3 b4 b5 b6 b7) =
     (if b0 then 1 else 0) + ((if b1 then 2 else 0) + ((if b2 then 4 else 0) + ((if b3 then 8 else 0) +
     ((if b4 then 16 else 0) + ((if b5 then 32 else 0) + ((if b6 then 64 else 0) + (if b7 then 128 else 0)))))))"
  by (simp add: char_code_def of_char_def)

lemma char_code_digit_char: "0 \<le> d \<Longrightarrow> d < 10 \<Longrightarrow> char_code (digit_char d) = 48 + d"
  by (simp add: char_code_def digit_char_def)

lemma is_digit_digit_char [simp]: "0 \<le> d \<Longrightarrow> d < 10 \<Longrightarrow> is_digit (digit_char d)"
  by (simp add: is_digit_def char_code_digit_char)

lemma digit_val_digit_char [simp]: "0 \<le> d \<Longrightarrow> d < 10 \<Longrightarrow> digit_val (digit_char d) = d"
  by (simp add: digit_val_def char_code_digit_char)

lemma digit_val_bounds: "is_digit c \<Longrightarrow> 0 \<le> digit_val c \<and> digit_val c < 10"
  by (auto simp: is_digit_def digit_val_def)

lemma not_digit_minus [simp]: "\<not> is_digit CHR ''-''" "\<not> is_digit CHR ''+''" "\<not> is_digit CHR ''T''"
    "\<not> is_digit CHR '':''" "\<not> is_digit CHR ''.''" "\<not> is_digit CHR '',''" "\<not> is_digit CHR ''Z''"
  by (simp_all add: is_digit_def char_code_def)

text \<open>The decimal digits of a non-negative integer.\<close>

function int_digits :: "int \<Rightarrow> string" where
  "int_digits n = (if n < 10 then [digit_char n] else int_digits (n div 10) @ [digit_char (n mod 10)])"
  by pat_completeness auto
termination
  by (relation "measure nat") auto

declare int_digits.simps [simp del]

lemma int_digits_small: "n < 10 \<Longrightarrow> int_digits n = [digit_char n]"
  by (subst int_digits.simps) simp

lemma int_digits_large:
  "10 \<le> n \<Longrightarrow> int_digits n = int_digits (n div 10) @ [digit_char (n mod 10)]"
  by (subst int_digits.simps) simp

lemma int_digits_all_digits: "0 \<le> n \<Longrightarrow> c \<in> set (int_digits n) \<Longrightarrow> is_digit c"
proof (induction n rule: int_digits.induct)
  case (1 n)
  then show ?case
    by (cases "n < 10") (auto simp: int_digits_small int_digits_large not_less)
qed

lemma int_digits_ne [simp]: "int_digits n \<noteq> []"
  by (subst int_digits.simps) simp

lemma minus_notin_int_digits [simp]: "0 \<le> n \<Longrightarrow> CHR ''-'' \<notin> set (int_digits n)"
  using int_digits_all_digits by (metis not_digit_minus(1))

lemma div_10_less_iff: "n div 10 < P \<longleftrightarrow> n < 10 * P" for n P :: int
  by auto

lemma length_int_digits: "0 \<le> n \<Longrightarrow> 0 < k \<Longrightarrow> length (int_digits n) \<le> k \<longleftrightarrow> n < 10 ^ k"
proof (induction n arbitrary: k rule: int_digits.induct)
  case (1 n)
  show ?case
  proof (cases "n < 10")
    case True
    have "(10::int) ^ 1 \<le> 10 ^ k" using 1(3) by (intro power_increasing) simp_all
    with True show ?thesis using 1(3) by (simp add: int_digits_small Suc_le_eq)
  next
    case False
    then have n: "10 \<le> n" by simp
    obtain j where k: "k = Suc j" using 1(3) by (cases k) auto
    show ?thesis
    proof (cases "j = 0")
      case True
      then show ?thesis using n k by (simp add: int_digits_large)
    next
      case j: False
      have "length (int_digits n) \<le> k \<longleftrightarrow> length (int_digits (n div 10)) \<le> j"
        using n k by (simp add: int_digits_large)
      also have "\<dots> \<longleftrightarrow> n div 10 < 10 ^ j" using 1(1) [OF False] j n by simp
      also have "\<dots> \<longleftrightarrow> n < 10 * 10 ^ j" by (rule div_10_less_iff)
      also have "\<dots> \<longleftrightarrow> n < 10 ^ k" using k by simp
      finally show ?thesis .
    qed
  qed
qed

fun digits_int :: "int \<Rightarrow> string \<Rightarrow> int option" where
  "digits_int acc [] = Some acc"
| "digits_int acc (c # cs) = (if is_digit c then digits_int (10 * acc + digit_val c) cs else None)"

lemma digits_int_append:
  "digits_int acc (xs @ ys) = (case digits_int acc xs of None \<Rightarrow> None | Some a \<Rightarrow> digits_int a ys)"
  by (induction acc xs rule: digits_int.induct) auto

lemma digits_int_digits [simp]: "0 \<le> n \<Longrightarrow> digits_int 0 (int_digits n) = Some n"
proof (induction n rule: int_digits.induct)
  case (1 n)
  then show ?case
    by (cases "n < 10") (auto simp: int_digits_small int_digits_large digits_int_append)
qed

lemma digits_int_zeros [simp]: "digits_int 0 (replicate k CHR ''0'' @ s) = digits_int 0 s"
  by (induction k) (simp_all add: is_digit_def digit_val_def char_code_def)

lemma digits_int_nonneg: "0 \<le> acc \<Longrightarrow> digits_int acc s = Some n \<Longrightarrow> 0 \<le> n"
  by (induction acc s rule: digits_int.induct) (auto split: if_splits dest: digit_val_bounds)

section \<open>Formatting\<close>

definition FormatInt :: "int \<Rightarrow> string" where
  "FormatInt n = (if n < 0 then CHR ''-'' # int_digits (- n) else int_digits n)"

definition pad0 :: "nat \<Rightarrow> string \<Rightarrow> string" where
  "pad0 w s = replicate (w - length s) CHR ''0'' @ s"

text \<open>\<open>fmt.Sprintf("%0*d", w, n)\<close>: the sign counts towards the width.\<close>

definition Sprintf_0d :: "nat \<Rightarrow> int \<Rightarrow> string" where
  "Sprintf_0d w n = (if n < 0 then CHR ''-'' # pad0 (w - 1) (int_digits (- n))
     else pad0 w (int_digits n))"

text \<open>\<open>appendInt\<close> of package \<open>time\<close>: the sign does not count.\<close>

definition appendInt :: "nat \<Rightarrow> int \<Rightarrow> string" where
  "appendInt w n = (if n < 0 then CHR ''-'' # pad0 w (int_digits (- n))
     else pad0 w (int_digits n))"

lemma pad0_all_digits: "(\<forall>c \<in> set s. is_digit c) \<Longrightarrow> c \<in> set (pad0 w s) \<Longrightarrow> is_digit c"
  by (auto simp: pad0_def is_digit_def char_code_def)

lemma length_pad0: "length s \<le> w \<Longrightarrow> length (pad0 w s) = w"
  by (simp add: pad0_def)

lemma digits_int_pad0 [simp]: "0 \<le> n \<Longrightarrow> digits_int 0 (pad0 w (int_digits n)) = Some n"
  by (simp add: pad0_def)

lemma pad0_ne [simp]: "s \<noteq> [] \<Longrightarrow> pad0 w s \<noteq> []"
  by (simp add: pad0_def)

lemma minus_notin_pad0 [simp]: "0 \<le> n \<Longrightarrow> CHR ''-'' \<notin> set (pad0 w (int_digits n))"
  by (auto simp: pad0_def)

section \<open>Parsing\<close>

text \<open>
  \<open>strconv.ParseInt(s, 10, 64)\<close>: the value and whether the error is nil. A syntax error
  returns 0, a range error the nearest bound.
\<close>

definition parse_sign :: "string \<Rightarrow> bool \<times> string" where
  "parse_sign s = (case s of [] \<Rightarrow> (False, [])
     | c # cs \<Rightarrow> if c = CHR ''+'' then (False, cs) else if c = CHR ''-'' then (True, cs) else (False, s))"

definition ParseInt :: "string \<Rightarrow> int \<times> bool" where
  "ParseInt s = (case parse_sign s of (neg, ds) \<Rightarrow>
     if ds = [] then (0, False)
     else case digits_int 0 ds of
       None \<Rightarrow> (0, False)
     | Some un \<Rightarrow>
         if \<not> neg \<and> 2 ^ 63 \<le> un then (2 ^ 63 - 1, False)
         else if neg \<and> 2 ^ 63 < un then (- (2 ^ 63), False)
         else (if neg then - un else un, True))"

text \<open>On a 64-bit platform \<open>strconv.Atoi\<close> is \<open>ParseInt\<close> with base 10.\<close>

definition Atoi :: "string \<Rightarrow> int \<times> bool" where
  "Atoi s = ParseInt s"

lemma parse_sign_digits:
  "s \<noteq> [] \<Longrightarrow> (\<forall>c \<in> set s. is_digit c) \<Longrightarrow> parse_sign s = (False, s)"
  by (cases s) (auto simp: parse_sign_def)

lemma ParseInt_digits:
  assumes "s \<noteq> []" and "\<forall>c \<in> set s. is_digit c" and "digits_int 0 s = Some n" and "n < 2 ^ 63"
  shows "ParseInt s = (n, True)"
  using assms by (simp add: ParseInt_def parse_sign_digits)

lemma ParseInt_range: "ParseInt s = (v, ok) \<Longrightarrow> int64_ok v"
  using digits_int_nonneg [of 0 "snd (parse_sign s)"]
  by (auto simp: ParseInt_def int64_ok_def split: prod.splits if_splits option.splits)

lemma ParseInt_FormatInt:
  assumes "int64_ok n"
  shows "ParseInt (FormatInt n) = (n, True)"
proof (cases "n < 0")
  case True
  then have "- n \<le> 2 ^ 63" using assms by (simp add: int64_ok_def)
  with True show ?thesis
    by (simp add: FormatInt_def ParseInt_def parse_sign_def)
next
  case False
  then have "n < 2 ^ 63" using assms by (simp add: int64_ok_def)
  with False show ?thesis
    by (auto simp: FormatInt_def not_less intro!: ParseInt_digits intro: int_digits_all_digits)
qed

lemma Atoi_pad0: "0 \<le> n \<Longrightarrow> n < 2 ^ 63 \<Longrightarrow> Atoi (pad0 w (int_digits n)) = (n, True)"
  unfolding Atoi_def
  by (rule ParseInt_digits) (auto intro: int_digits_all_digits pad0_all_digits)

definition ParseInt_opt :: "string \<Rightarrow> int option" where
  "ParseInt_opt s = (case ParseInt s of (v, ok) \<Rightarrow> if ok then Some v else None)"

interpretation decimal: codec FormatInt ParseInt_opt int64_ok
  by unfold_locales (simp add: ParseInt_opt_def ParseInt_FormatInt)

interpretation padded: codec "\<lambda>n. pad0 w (int_digits n)" "digits_int 0" "\<lambda>n. 0 \<le> n" for w
  by unfold_locales simp

section \<open>Splitting and case folding\<close>

fun Split :: "char \<Rightarrow> string \<Rightarrow> string list" where
  "Split sep [] = [[]]"
| "Split sep (c # cs) = (if c = sep then [] # Split sep cs
     else case Split sep cs of [] \<Rightarrow> [[c]] | p # ps \<Rightarrow> (c # p) # ps)"

lemma Split_no_sep: "sep \<notin> set s \<Longrightarrow> Split sep s = [s]"
  by (induction s) auto

lemma Split_append_sep: "sep \<notin> set s \<Longrightarrow> Split sep (s @ sep # t) = s # Split sep t"
  by (induction s) auto

definition is_ascii :: "string \<Rightarrow> bool" where
  "is_ascii s \<longleftrightarrow> (\<forall>c \<in> set s. char_code c < 128)"

definition lower_char :: "char \<Rightarrow> char" where
  "lower_char c = (if 65 \<le> char_code c \<and> char_code c \<le> 90 then char_of (char_code c + 32) else c)"

lemma lower_char_idem [simp]: "lower_char (lower_char c) = lower_char c"
  by (auto simp: lower_char_def char_code_def)

lemma char_code_lower_char: "char_code c < 128 \<Longrightarrow> char_code (lower_char c) < 128"
  by (auto simp: lower_char_def char_code_def)

lemma is_ascii_lower: "is_ascii s \<Longrightarrow> is_ascii (map lower_char s)"
  by (simp add: is_ascii_def char_code_lower_char)

end
