(* ===== verification/GoTime.thy ===== *)
theory GoTime
  imports GoStrings
begin

text \<open>
  The part of Go's package \<open>time\<close> that bucket identifiers depend on. An instant is the
  integer number of nanoseconds since the Unix epoch (a \<open>time.Time\<close> after \<open>UTC()\<close>); years
  are unbounded integers, so the model is exact for every instant whose year Go can
  represent. The civil calendar is defined from the Gregorian rules, and layouts are
  lists of the chunks into which \<open>time.Format\<close> and \<open>time.Parse\<close> split their layout
  string. The main results: the two conversions between day numbers and civil dates are
  inverse to each other, and parsing what a layout printed gives the printed fields back.
\<close>

section \<open>The Gregorian calendar\<close>

type_synonym gtime = int

definition leap :: "int \<Rightarrow> bool" where
  "leap y \<longleftrightarrow> y mod 4 = 0 \<and> (y mod 100 \<noteq> 0 \<or> y mod 400 = 0)"

text \<open>Days from 1 January of year 0 to 1 January of year \<open>y\<close>.\<close>

definition days_before_year :: "int \<Rightarrow> int" where
  "days_before_year y = 365 * y + (y + 3) div 4 - (y + 99) div 100 + (y + 399) div 400"

definition days_before_month :: "bool \<Rightarrow> int \<Rightarrow> int" where
  "days_before_month lp m =
    (let l = (if lp then 1 else 0) in
     if m \<le> 1 then 0 else if m = 2 then 31 else if m = 3 then 59 + l else if m = 4 then 90 + l
     else if m = 5 then 120 + l else if m = 6 then 151 + l else if m = 7 then 181 + l
     else if m = 8 then 212 + l else if m = 9 then 243 + l else if m = 10 then 273 + l
     else if m = 11 then 304 + l else if m = 12 then 334 + l else 365 + l)"

definition daysIn :: "int \<Rightarrow> int \<Rightarrow> int" where
  "daysIn m y = days_before_month (leap y) (m + 1) - days_before_month (leap y) m"

definition epoch_days :: int where
  "epoch_days = 719528"

definition days_of_civil :: "int \<Rightarrow> int \<Rightarrow> int \<Rightarrow> int" where
  "days_of_civil y m d = days_before_year y + days_before_month (leap y) m + (d - 1) - epoch_days"

definition year_of_days :: "int \<Rightarrow> int" where
  "year_of_days n = (let y = n * 400 div 146097 in
     if n < days_before_year y then y - 1
     else if days_before_year (y + 1) \<le> n then y + 1 else y)"

definition month_of_yday :: "bool \<Rightarrow> int \<Rightarrow> int" where
  "month_of_yday lp d =
    (let l = (if lp then 1 else 0) in
     if d < 31 then 1 else if d < 59 + l then 2 else if d < 90 + l then 3 else if d < 120 + l then 4
     else if d < 151 + l then 5 else if d < 181 + l then 6 else if d < 212 + l then 7
     else if d < 243 + l then 8 else if d < 273 + l then 9 else if d < 304 + l then 10
     else if d < 334 + l then 11 else 12)"

definition civil_of_days :: "int \<Rightarrow> int \<times> int \<times> int" where
  "civil_of_days n0 = (let n = n0 + epoch_days; y = year_of_days n; yd = n - days_before_year y;
       m = month_of_yday (leap y) yd
     in (y, m, yd - days_before_month (leap y) m + 1))"

definition valid_date :: "int \<Rightarrow> int \<Rightarrow> int \<Rightarrow> bool" where
  "valid_date y m d \<longleftrightarrow> 1 \<le> m \<and> m \<le> 12 \<and> 1 \<le> d \<and> d \<le> daysIn m y"

lemma div_interval: "0 < k \<Longrightarrow> k * (x div k) \<le> x \<and> x < k * (x div k) + k" for k x :: int
  using minus_mod_eq_mult_div [of x k] pos_mod_bound [of k x] pos_mod_sign [of k x] by linarith

lemma ceil_div_step:
  fixes y k j :: int
  assumes "0 < k" and j: "j + 1 = k"
  shows "(y + k) div k = (y + j) div k + (if y mod k = 0 then 1 else 0)"
proof -
  define q r where "q = y div k" and "r = y mod k"
  have y: "y = r + q * k" and r: "0 \<le> r" "r < k" using assms by (simp_all add: q_def r_def)
  have "y + j = (r + j) + q * k" by (simp add: y)
  then have "(y + j) div k = q + (r + j) div k"
    using assms(1) div_mult_self1 [of k "r + j" q] by (simp only:)
  also have "(r + j) div k = (if r = 0 then 0 else 1)"
    using r assms by (auto simp: div_pos_pos_trivial div_pos_geq)
  finally show ?thesis using assms(1) by (simp add: q_def r_def div_add_self2)
qed

lemma year_length: "days_before_year (y + 1) = days_before_year y + (if leap y then 366 else 365)"
proof -
  have "y mod 400 mod 100 = y mod 100" "y mod 100 mod 4 = y mod 4"
    by (rule mod_mod_cancel, simp)+
  then have c: "y mod 400 = 0 \<Longrightarrow> y mod 100 = 0" "y mod 100 = 0 \<Longrightarrow> y mod 4 = 0"
    by (metis mod_0)+
  have s: "y + 1 + 3 = y + 4" "y + 1 + 99 = y + 100" "y + 1 + 399 = y + 400" by simp_all
  have d: "(y + 4) div 4 = (y + 3) div 4 + (if y mod 4 = 0 then 1 else 0)"
    "(y + 100) div 100 = (y + 99) div 100 + (if y mod 100 = 0 then 1 else 0)"
    "(y + 400) div 400 = (y + 399) div 400 + (if y mod 400 = 0 then 1 else 0)"
    by (rule ceil_div_step, simp, simp)+
  define A B C where abc: "A = (y + 3) div 4" "B = (y + 99) div 100" "C = (y + 399) div 400"
  define a b e where pqr: "a \<longleftrightarrow> y mod 4 = 0" "b \<longleftrightarrow> y mod 100 = 0" "e \<longleftrightarrow> y mod 400 = 0"
  show ?thesis
    using c unfolding days_before_year_def leap_def s d abc [symmetric] pqr [symmetric]
    by (cases a; cases b; cases e) simp_all
qed

lemma days_before_year_bounds:
  "146097 * y - 396 \<le> 400 * days_before_year y" "400 * days_before_year y \<le> 146097 * y + 699"
  using div_interval [of 4 "y + 3"] div_interval [of 100 "y + 99"] div_interval [of 400 "y + 399"]
  unfolding days_before_year_def by simp_all

lemma year_bracket:
  assumes "146097 * y \<le> 400 * n" and "400 * n < 146097 * (y + 1)"
  shows "days_before_year (y - 1) \<le> n" and "n < days_before_year (y + 2)"
  using days_before_year_bounds(2) [of "y - 1"] days_before_year_bounds(1) [of "y + 2"] assms
  by simp_all

lemma year_of_days_bounds:
  "days_before_year (year_of_days n) \<le> n" "n < days_before_year (year_of_days n + 1)"
proof -
  define y where "y = n * 400 div 146097"
  have "146097 * y \<le> 400 * n" "400 * n < 146097 * (y + 1)"
    using div_interval [of 146097 "n * 400"] by (simp_all add: y_def)
  note br = year_bracket [OF this]
  show "days_before_year (year_of_days n) \<le> n" "n < days_before_year (year_of_days n + 1)"
    unfolding year_of_days_def y_def [symmetric] using br by (auto simp: Let_def add.commute)
qed

lemma days_before_year_mono_Suc: "days_before_year y + 365 \<le> days_before_year (y + 1)"
  by (simp add: year_length)

lemma days_before_year_mono: "y \<le> y' \<Longrightarrow> days_before_year y \<le> days_before_year y'"
proof (induction y' rule: int_ge_induct)
  case base
  then show ?case by simp
next
  case (step i)
  then show ?case using days_before_year_mono_Suc [of i] by simp
qed

lemma year_of_days_eq:
  assumes "days_before_year y \<le> n" and "n < days_before_year (y + 1)"
  shows "year_of_days n = y"
proof (rule ccontr)
  assume "year_of_days n \<noteq> y"
  then consider "year_of_days n + 1 \<le> y" | "y + 1 \<le> year_of_days n" by linarith
  then show False
    using assms year_of_days_bounds [of n] days_before_year_mono
    by cases (meson linorder_not_le order_trans)+
qed

lemma days_before_month_simps:
  "days_before_month lp 1 = 0"
  "days_before_month lp 2 = 31"
  "days_before_month lp 3 = 59 + (if lp then 1 else 0)"
  "days_before_month lp 4 = 90 + (if lp then 1 else 0)"
  "days_before_month lp 5 = 120 + (if lp then 1 else 0)"
  "days_before_month lp 6 = 151 + (if lp then 1 else 0)"
  "days_before_month lp 7 = 181 + (if lp then 1 else 0)"
  "days_before_month lp 8 = 212 + (if lp then 1 else 0)"
  "days_before_month lp 9 = 243 + (if lp then 1 else 0)"
  "days_before_month lp 10 = 273 + (if lp then 1 else 0)"
  "days_before_month lp 11 = 304 + (if lp then 1 else 0)"
  "days_before_month lp 12 = 334 + (if lp then 1 else 0)"
  "days_before_month lp 13 = 365 + (if lp then 1 else 0)"
  by (simp_all add: days_before_month_def)

lemma month_cases:
  fixes m :: int
  assumes "1 \<le> m" and "m \<le> 12"
  obtains "m = 1" | "m = 2" | "m = 3" | "m = 4" | "m = 5" | "m = 6" | "m = 7" | "m = 8" | "m = 9"
    | "m = 10" | "m = 11" | "m = 12"
proof -
  have "set [1..12] = {1, 2, 3, 4, 5, 6, 7, 8, 9, 10, 11, 12 :: int}" by code_simp
  moreover have "m \<in> set [1..12]" using assms by simp
  ultimately have "m \<in> {1, 2, 3, 4, 5, 6, 7, 8, 9, 10, 11, 12}" by metis
  then show ?thesis using that by blast
qed

lemma month_of_yday_range: "1 \<le> month_of_yday lp d \<and> month_of_yday lp d \<le> 12"
  by (simp add: month_of_yday_def Let_def)

lemma month_of_yday_bounds:
  assumes "0 \<le> d" and "d < (if lp then 366 else 365)"
  shows "days_before_month lp (month_of_yday lp d) \<le> d \<and> d < days_before_month lp (month_of_yday lp d + 1)"
  using assms unfolding month_of_yday_def Let_def
  by (cases lp; simp add: days_before_month_simps split: if_split)

lemma month_of_yday_eq:
  assumes "1 \<le> m" and "m \<le> 12" and "days_before_month lp m \<le> d" and "d < days_before_month lp (m + 1)"
  shows "month_of_yday lp d = m"
  using assms(1,2)
  by (cases rule: month_cases; use assms(3,4) in
      \<open>cases lp; simp add: month_of_yday_def Let_def days_before_month_simps\<close>)

lemma days_before_month_range:
  assumes "1 \<le> m" and "m \<le> 12"
  shows "0 \<le> days_before_month lp m" and "days_before_month lp (m + 1) \<le> (if lp then 366 else 365)"
  using assms by (cases rule: month_cases; simp add: days_before_month_simps)+

lemma civil_of_days_of_civil:
  assumes "valid_date y m d"
  shows "civil_of_days (days_of_civil y m d) = (y, m, d)"
proof -
  let ?yd = "days_before_month (leap y) m + (d - 1)"
  have m: "1 \<le> m" "m \<le> 12" and d: "1 \<le> d" "d \<le> daysIn m y"
    using assms by (auto simp: valid_date_def)
  have yd: "0 \<le> ?yd" "?yd < days_before_month (leap y) (m + 1)"
    using d days_before_month_range(1) [OF m, of "leap y"] by (auto simp: daysIn_def)
  then have "?yd < (if leap y then 366 else 365)"
    using days_before_month_range(2) [OF m, of "leap y"] by linarith
  then have y: "year_of_days (days_before_year y + ?yd) = y"
    using yd(1) by (intro year_of_days_eq) (auto simp: year_length)
  have mo: "month_of_yday (leap y) ?yd = m"
    using m d yd by (intro month_of_yday_eq) auto
  show ?thesis
    using y mo by (simp add: civil_of_days_def days_of_civil_def Let_def algebra_simps)
qed

lemma civil_of_days_valid:
  assumes "civil_of_days n = (y, m, d)"
  shows "valid_date y m d" and "days_of_civil y m d = n"
proof -
  let ?yd = "n + epoch_days - days_before_year y"
  have y: "y = year_of_days (n + epoch_days)" and m: "m = month_of_yday (leap y) ?yd"
    and d: "d = ?yd - days_before_month (leap y) m + 1"
    using assms by (auto simp: civil_of_days_def Let_def)
  have "0 \<le> ?yd" "?yd < (if leap y then 366 else 365)"
    using year_of_days_bounds [of "n + epoch_days"] y by (auto simp: year_length split: if_splits)
  from month_of_yday_bounds [OF this] month_of_yday_range [of "leap y" ?yd] show "valid_date y m d" "days_of_civil y m d = n"
    unfolding valid_date_def daysIn_def days_of_civil_def m [symmetric] using d by linarith+
qed

section \<open>Instants and their fields\<close>

definition second_ns :: int where
  "second_ns = 10 ^ 9"

definition time_Unix :: "int \<Rightarrow> int \<Rightarrow> gtime" where
  "time_Unix sec nsec = sec * second_ns + nsec"

definition UnixMilli :: "int \<Rightarrow> gtime" where
  "UnixMilli ms = ms * 10 ^ 6"

definition Unix_of :: "gtime \<Rightarrow> int" where
  "Unix_of t = t div second_ns"

lemma Unix_of_time_Unix [simp]: "0 \<le> ns \<Longrightarrow> ns < second_ns \<Longrightarrow> Unix_of (time_Unix s ns) = s"
  by (simp add: Unix_of_def time_Unix_def second_ns_def)

definition time_days :: "gtime \<Rightarrow> int" where
  "time_days t = Unix_of t div 86400"

definition time_sec_of_day :: "gtime \<Rightarrow> int" where
  "time_sec_of_day t = Unix_of t mod 86400"

definition time_year :: "gtime \<Rightarrow> int" where
  "time_year t = fst (civil_of_days (time_days t))"

definition time_month :: "gtime \<Rightarrow> int" where
  "time_month t = fst (snd (civil_of_days (time_days t)))"

definition time_day :: "gtime \<Rightarrow> int" where
  "time_day t = snd (snd (civil_of_days (time_days t)))"

definition time_hour :: "gtime \<Rightarrow> int" where
  "time_hour t = time_sec_of_day t div 3600"

definition time_minute :: "gtime \<Rightarrow> int" where
  "time_minute t = time_sec_of_day t mod 3600 div 60"

definition time_second :: "gtime \<Rightarrow> int" where
  "time_second t = time_sec_of_day t mod 60"

definition Date :: "int \<Rightarrow> int \<Rightarrow> int \<Rightarrow> int \<Rightarrow> int \<Rightarrow> int \<Rightarrow> int \<Rightarrow> gtime" where
  "Date y mo d h mi s ns =
     time_Unix (days_of_civil y mo d * 86400 + h * 3600 + mi * 60 + s) ns"

lemma time_fields_valid: "valid_date (time_year t) (time_month t) (time_day t)"
  by (rule civil_of_days_valid(1) [of "time_days t"])
    (simp add: time_year_def time_month_def time_day_def)

lemma days_of_time_fields: "days_of_civil (time_year t) (time_month t) (time_day t) = time_days t"
  by (rule civil_of_days_valid(2)) (simp add: time_year_def time_month_def time_day_def)

lemma time_field_bounds:
  "1 \<le> time_month t" "time_month t \<le> 12" "1 \<le> time_day t" "time_day t \<le> daysIn (time_month t) (time_year t)"
  "0 \<le> time_hour t" "time_hour t < 24" "0 \<le> time_minute t" "time_minute t < 60"
  "0 \<le> time_second t" "time_second t < 60"
  using time_fields_valid [of t]
  by (auto simp: valid_date_def time_hour_def time_minute_def time_second_def time_sec_of_day_def)

lemma daysIn_bound: "1 \<le> m \<Longrightarrow> m \<le> 12 \<Longrightarrow> daysIn m y \<le> 31"
  by (auto simp: daysIn_def days_before_month_def Let_def)

lemma hour_split: "x div 3600 = 24 * (x div 86400) + x mod 86400 div 3600" for x :: int
proof -
  have "x div 3600 = (x mod 86400 + 24 * (x div 86400) * 3600) div 3600"
    by (simp add: mult.commute [of 86400] flip: mult.assoc)
  also have "\<dots> = x mod 86400 div 3600 + 24 * (x div 86400)" by (subst div_mult_self1) simp_all
  finally show ?thesis by simp
qed

lemma Unix_of_hour: "days_of_civil (time_year t) (time_month t) (time_day t) * 86400 + time_hour t * 3600
    = Unix_of t div 3600 * 3600"
proof -
  have "time_hour t = Unix_of t div 3600 - time_days t * 24"
    using hour_split [of "Unix_of t"] by (simp add: time_hour_def time_sec_of_day_def time_days_def)
  then show ?thesis by (simp add: days_of_time_fields)
qed

section \<open>Layouts\<close>

text \<open>
  The chunks of the layouts in use: \<open>2006\<close>, \<open>01\<close>, \<open>02\<close>, \<open>15\<close>, \<open>04\<close>, \<open>05\<close>, \<open>Z07:00\<close>
  and literal characters.
\<close>

datatype chunk =
    StdLongYear | StdZeroMonth | StdZeroDay | StdHour | StdZeroMinute | StdZeroSecond
  | StdISO8601ColonTZ | Lit char

definition layout_hour :: "chunk list" where
  "layout_hour = [StdLongYear, Lit CHR ''-'', StdZeroMonth, Lit CHR ''-'', StdZeroDay, Lit CHR ''T'', StdHour]"

definition layout_day :: "chunk list" where
  "layout_day = [StdLongYear, Lit CHR ''-'', StdZeroMonth, Lit CHR ''-'', StdZeroDay]"

definition layout_month :: "chunk list" where
  "layout_month = [StdLongYear, Lit CHR ''-'', StdZeroMonth]"

definition layout_RFC3339 :: "chunk list" where
  "layout_RFC3339 = [StdLongYear, Lit CHR ''-'', StdZeroMonth, Lit CHR ''-'', StdZeroDay, Lit CHR ''T'',
     StdHour, Lit CHR '':'', StdZeroMinute, Lit CHR '':'', StdZeroSecond, StdISO8601ColonTZ]"

subsection \<open>Format\<close>

fun format_chunk :: "gtime \<Rightarrow> chunk \<Rightarrow> string" where
  "format_chunk t StdLongYear = appendInt 4 (time_year t)"
| "format_chunk t StdZeroMonth = appendInt 2 (time_month t)"
| "format_chunk t StdZeroDay = appendInt 2 (time_day t)"
| "format_chunk t StdHour = appendInt 2 (time_hour t)"
| "format_chunk t StdZeroMinute = appendInt 2 (time_minute t)"
| "format_chunk t StdZeroSecond = appendInt 2 (time_second t)"
| "format_chunk t StdISO8601ColonTZ = ''Z''"
| "format_chunk t (Lit c) = [c]"

definition time_Format :: "chunk list \<Rightarrow> gtime \<Rightarrow> string" where
  "time_Format layout t = concat (map (format_chunk t) layout)"

subsection \<open>Parse\<close>

record ptime =
  p_year :: int
  p_month :: int
  p_day :: int
  p_hour :: int
  p_min :: int
  p_sec :: int
  p_nsec :: int
  p_off :: int

definition ptime0 :: ptime where
  "ptime0 = \<lparr>p_year = 0, p_month = - 1, p_day = - 1, p_hour = 0, p_min = 0, p_sec = 0, p_nsec = 0, p_off = 0\<rparr>"

text \<open>\<open>getnum\<close>: one or two digits, exactly two when \<open>fixed\<close>.\<close>

fun getnum :: "bool \<Rightarrow> string \<Rightarrow> (int \<times> string) option" where
  "getnum fixed [] = None"
| "getnum fixed [c] = (if is_digit c \<and> \<not> fixed then Some (digit_val c, []) else None)"
| "getnum fixed (c # d # s) =
     (if \<not> is_digit c then None
      else if \<not> is_digit d then (if fixed then None else Some (digit_val c, d # s))
      else Some (digit_val c * 10 + digit_val d, s))"

text \<open>A fraction after the seconds is accepted although the layout has none.\<close>

definition parse_fraction :: "string \<Rightarrow> int \<times> string" where
  "parse_fraction s = (case s of
     c # d # r \<Rightarrow>
       if (c = CHR ''.'' \<or> c = CHR '','') \<and> is_digit d then
         (let ds = takeWhile is_digit (d # r); ns = take 9 ds in
          (the (digits_int 0 ns) * 10 ^ (9 - length ns), dropWhile is_digit (d # r)))
       else (0, s)
   | _ \<Rightarrow> (0, s))"

definition parse_zone :: "string \<Rightarrow> (int \<times> string) option" where
  "parse_zone s = (case s of
     [] \<Rightarrow> None
   | z # zs \<Rightarrow>
       if z = CHR ''Z'' then Some (0, zs)
       else if length s < 6 \<or> s ! 3 \<noteq> CHR '':'' then None
       else case (getnum True (take 2 zs), getnum True (take 2 (drop 4 s))) of
         (Some (hr, _), Some (mm, _)) \<Rightarrow>
           if 24 < hr \<or> 60 < mm then None
           else if z = CHR ''+'' then Some ((hr * 60 + mm) * 60, drop 6 s)
           else if z = CHR ''-'' then Some (- ((hr * 60 + mm) * 60), drop 6 s)
           else None
       | _ \<Rightarrow> None)"

fun parse_chunk :: "chunk \<Rightarrow> ptime \<Rightarrow> string \<Rightarrow> (ptime \<times> string) option" where
  "parse_chunk StdLongYear p s =
     (if length s < 4 \<or> \<not> is_digit (hd s) then None
      else case digits_int 0 (take 4 s) of None \<Rightarrow> None | Some y \<Rightarrow> Some (p\<lparr>p_year := y\<rparr>, drop 4 s))"
| "parse_chunk StdZeroMonth p s = (case getnum True s of
     None \<Rightarrow> None | Some (m, r) \<Rightarrow> if m \<le> 0 \<or> 12 < m then None else Some (p\<lparr>p_month := m\<rparr>, r))"
| "parse_chunk StdZeroDay p s = (case getnum True s of
     None \<Rightarrow> None | Some (d, r) \<Rightarrow> Some (p\<lparr>p_day := d\<rparr>, r))"
| "parse_chunk StdHour p s = (case getnum False s of
     None \<Rightarrow> None | Some (h, r) \<Rightarrow> if h < 0 \<or> 24 \<le> h then None else Some (p\<lparr>p_hour := h\<rparr>, r))"
| "parse_chunk StdZeroMinute p s = (case getnum True s of
     None \<Rightarrow> None | Some (m, r) \<Rightarrow> if m < 0 \<or> 60 \<le> m then None else Some (p\<lparr>p_min := m\<rparr>, r))"
| "parse_chunk StdZeroSecond p s = (case getnum True s of
     None \<Rightarrow> None
   | Some (x, r) \<Rightarrow> if x < 0 \<or> 60 \<le> x then None
       else case parse_fraction r of (ns, r') \<Rightarrow> Some (p\<lparr>p_sec := x, p_nsec := ns\<rparr>, r'))"
| "parse_chunk StdISO8601ColonTZ p s = (case parse_zone s of
     None \<Rightarrow> None | Some (off, r) \<Rightarrow> Some (p\<lparr>p_off := off\<rparr>, r))"
| "parse_chunk (Lit c) p s = (case s of [] \<Rightarrow> None | x # r \<Rightarrow> if x = c then Some (p, r) else None)"

fun parse_chunks :: "chunk list \<Rightarrow> ptime \<Rightarrow> string \<Rightarrow> (ptime \<times> string) option" where
  "parse_chunks [] p s = Some (p, s)"
| "parse_chunks (c # cs) p s = (case parse_chunk c p s of
     None \<Rightarrow> None | Some (p', s') \<Rightarrow> parse_chunks cs p' s')"

definition finish_parse :: "ptime \<Rightarrow> gtime option" where
  "finish_parse p =
    (let mo = (if p_month p < 0 then 1 else p_month p); d = (if p_day p < 0 then 1 else p_day p) in
     if d < 1 \<or> daysIn mo (p_year p) < d then None
     else Some (Date (p_year p) mo d (p_hour p) (p_min p) (p_sec p - p_off p) (p_nsec p)))"

definition time_Parse :: "chunk list \<Rightarrow> string \<Rightarrow> gtime option" where
  "time_Parse layout s = (case parse_chunks layout ptime0 s of
     Some (p, []) \<Rightarrow> finish_parse p
   | _ \<Rightarrow> None)"

subsection \<open>Parsing what was printed\<close>

lemma appendInt_two_digits:
  assumes "0 \<le> n" and "n < 100"
  shows "appendInt 2 n = [digit_char (n div 10), digit_char (n mod 10)]"
proof (cases "n < 10")
  case True
  have "digit_char 0 = CHR ''0''" by code_simp
  with True assms show ?thesis
    by (simp add: appendInt_def pad0_def int_digits_small div_pos_pos_trivial)
next
  case False
  then show ?thesis
    using assms by (simp add: appendInt_def pad0_def int_digits_large int_digits_small)
qed

lemma getnum_appendInt:
  assumes "0 \<le> n" and "n < 100"
  shows "getnum fixed (appendInt 2 n @ s) = Some (n, s)"
proof -
  have "0 \<le> n div 10" "n div 10 < 10" "0 \<le> n mod 10" "n mod 10 < 10" using assms by simp_all
  moreover have "n div 10 * 10 + n mod 10 = n" by simp
  ultimately show ?thesis using assms by (simp add: appendInt_two_digits)
qed

definition year4 :: "int \<Rightarrow> bool" where
  "year4 y \<longleftrightarrow> 0 \<le> y \<and> y \<le> 9999"

lemma appendInt_year:
  assumes "year4 y"
  shows "length (appendInt 4 y) = 4" and "digits_int 0 (appendInt 4 y) = Some y"
    and "is_digit (hd (appendInt 4 y))" and "CHR ''-'' \<notin> set (appendInt 4 y)"
    and "Atoi (appendInt 4 y) = (y, True)"
proof -
  have y: "0 \<le> y" "y < 10 ^ 4" using assms by (simp_all add: year4_def)
  then have "length (int_digits y) \<le> 4" by (simp add: length_int_digits)
  then show "length (appendInt 4 y) = 4" using y by (simp add: appendInt_def length_pad0)
  show "digits_int 0 (appendInt 4 y) = Some y" using y by (simp add: appendInt_def)
  have "is_digit (hd (pad0 4 (int_digits y)))"
    using y by (intro pad0_all_digits [OF _ hd_in_set] ballI int_digits_all_digits) auto
  then show "is_digit (hd (appendInt 4 y))" using y by (simp add: appendInt_def)
  show "CHR ''-'' \<notin> set (appendInt 4 y)" using y by (simp add: appendInt_def)
  show "Atoi (appendInt 4 y) = (y, True)" using y by (simp add: appendInt_def Atoi_pad0)
qed

lemma parse_year_chunk:
  assumes "year4 (time_year t)"
  shows "parse_chunk StdLongYear p (format_chunk t StdLongYear @ s) = Some (p\<lparr>p_year := time_year t\<rparr>, s)"
  using appendInt_year [OF assms] by (auto simp: hd_append)

lemma parse_chunk_format:
  "parse_chunk StdZeroMonth p (format_chunk t StdZeroMonth @ s) = Some (p\<lparr>p_month := time_month t\<rparr>, s)"
  "parse_chunk StdZeroDay p (format_chunk t StdZeroDay @ s) = Some (p\<lparr>p_day := time_day t\<rparr>, s)"
  "parse_chunk StdHour p (format_chunk t StdHour @ s) = Some (p\<lparr>p_hour := time_hour t\<rparr>, s)"
  "parse_chunk (Lit c) p (format_chunk t (Lit c) @ s) = Some (p, s)"
  using time_field_bounds [of t] daysIn_bound [of "time_month t" "time_year t"]
  by (simp_all add: getnum_appendInt)

lemma time_Format_Cons: "time_Format (c # cs) t = format_chunk t c @ time_Format cs t"
  by (simp add: time_Format_def)

lemma time_Format_Nil: "time_Format [] t = []"
  by (simp add: time_Format_def)

lemmas parse_format = parse_year_chunk parse_chunk_format

lemma time_Parse_day:
  assumes "year4 (time_year t)"
  shows "time_Parse layout_day (time_Format layout_day t) = Some (time_Unix (time_days t * 86400) 0)"
proof -
  have "parse_chunks layout_day ptime0 (time_Format layout_day t) =
      Some (ptime0\<lparr>p_year := time_year t, p_month := time_month t, p_day := time_day t\<rparr>, [])"
    by (simp add: layout_day_def time_Format_Cons parse_format assms
        del: parse_chunk.simps format_chunk.simps) (simp add: time_Format_Nil)
  then show ?thesis
    using time_field_bounds [of t]
    by (simp add: time_Parse_def finish_parse_def Date_def ptime0_def days_of_time_fields)
qed

lemma time_Parse_hour:
  assumes "year4 (time_year t)"
  shows "time_Parse layout_hour (time_Format layout_hour t) = Some (time_Unix (Unix_of t div 3600 * 3600) 0)"
proof -
  have "parse_chunks layout_hour ptime0 (time_Format layout_hour t) =
      Some (ptime0\<lparr>p_year := time_year t, p_month := time_month t, p_day := time_day t,
        p_hour := time_hour t\<rparr>, [])"
    by (simp add: layout_hour_def time_Format_Cons parse_format assms
        del: parse_chunk.simps format_chunk.simps) (simp add: time_Format_Nil)
  then show ?thesis
    using time_field_bounds [of t] Unix_of_hour [of t]
    by (simp add: time_Parse_def finish_parse_def Date_def ptime0_def)
qed

end
