(* ===== verification/Json.thy ===== *)
theory Json
  imports GoStrings
begin

text \<open>
  What the program uses of Go's \<open>encoding/json\<close>: a JSON text is checked and read into a
  value, and the members of an object are stored into the string and integer fields of a
  struct (the last matching member wins, \<open>null\<close> leaves a field alone, names are compared
  up to case folding, a value of another type makes the whole call fail). Strings are
  byte strings; bytes of an ill-formed UTF-8 sequence are kept as they are. The parser is a total
  function: every recursive call is guarded by the length of what is left.
\<close>

section \<open>Lexical elements\<close>

datatype json =
    JNull | JBool bool | JNum string | JStr string | JArr "json list" | JObj "(string \<times> json) list"

definition is_ws :: "char \<Rightarrow> bool" where
  "is_ws c \<longleftrightarrow> char_code c \<in> {32, 9, 10, 13}"

definition skip_ws :: "string \<Rightarrow> string" where
  "skip_ws s = dropWhile is_ws s"

lemma length_skip_ws: "length (skip_ws s) \<le> length s"
  by (simp add: skip_ws_def length_dropWhile_le)

lemma skip_ws_Cons_length: "skip_ws s = c # r \<Longrightarrow> length r < length s"
  using length_skip_ws [of s] by simp

fun strip_prefix :: "string \<Rightarrow> string \<Rightarrow> string option" where
  "strip_prefix [] s = Some s"
| "strip_prefix (p # ps) [] = None"
| "strip_prefix (p # ps) (c # s) = (if p = c then strip_prefix ps s else None)"

definition hex_val :: "char \<Rightarrow> int option" where
  "hex_val c = (let n = char_code c in
     if 48 \<le> n \<and> n \<le> 57 then Some (n - 48)
     else if 97 \<le> n \<and> n \<le> 102 then Some (n - 87)
     else if 65 \<le> n \<and> n \<le> 70 then Some (n - 55) else None)"

definition hex4 :: "char \<Rightarrow> char \<Rightarrow> char \<Rightarrow> char \<Rightarrow> int option" where
  "hex4 a b c d = (case (hex_val a, hex_val b, hex_val c, hex_val d) of
     (Some w, Some x, Some y, Some z) \<Rightarrow> Some (((w * 16 + x) * 16 + y) * 16 + z)
   | _ \<Rightarrow> None)"

definition escape_char :: "char \<Rightarrow> char option" where
  "escape_char e = (let n = char_code e in
     if n = 34 \<or> n = 92 \<or> n = 47 then Some e
     else if n = 98 then Some (char_of (8::nat)) else if n = 102 then Some (char_of (12::nat))
     else if n = 110 then Some (char_of (10::nat)) else if n = 114 then Some (char_of (13::nat))
     else if n = 116 then Some (char_of (9::nat)) else None)"

text \<open>The body of a string literal: plain bytes and the code units of \<open>\u\<close> escapes.\<close>

datatype junit = JByte char | JUnit int

fun jstring :: "string \<Rightarrow> (junit list \<times> string) option" where
  "jstring [] = None"
| "jstring (c # cs) =
    (if char_code c = 34 then Some ([], cs)
     else if char_code c = 92 then
       (case cs of
          [] \<Rightarrow> None
        | e # es \<Rightarrow>
            if e = CHR ''u'' then
              (case es of
                 h1 # h2 # h3 # h4 # r \<Rightarrow>
                   (case hex4 h1 h2 h3 h4 of
                      None \<Rightarrow> None
                    | Some u \<Rightarrow> map_option (\<lambda>(us, r'). (JUnit u # us, r')) (jstring r))
               | _ \<Rightarrow> None)
            else (case escape_char e of
                    None \<Rightarrow> None
                  | Some x \<Rightarrow> map_option (\<lambda>(us, r'). (JByte x # us, r')) (jstring es)))
     else if char_code c < 32 then None
     else map_option (\<lambda>(us, r'). (JByte c # us, r')) (jstring cs))"

definition utf8 :: "int \<Rightarrow> string" where
  "utf8 u =
    (if u < 128 then [char_of u]
     else if u < 2048 then [char_of (192 + u div 64), char_of (128 + u mod 64)]
     else if u < 65536 then [char_of (224 + u div 4096), char_of (128 + u div 64 mod 64), char_of (128 + u mod 64)]
     else [char_of (240 + u div 262144), char_of (128 + u div 4096 mod 64),
           char_of (128 + u div 64 mod 64), char_of (128 + u mod 64)])"

definition is_surrogate :: "int \<Rightarrow> bool" where
  "is_surrogate u \<longleftrightarrow> 55296 \<le> u \<and> u < 57344"

fun decode_units :: "junit list \<Rightarrow> string" where
  "decode_units [] = []"
| "decode_units (JByte c # us) = c # decode_units us"
| "decode_units (JUnit u # JUnit v # us) =
    (if 55296 \<le> u \<and> u < 56320 \<and> 56320 \<le> v \<and> v < 57344
     then utf8 (65536 + (u - 55296) * 1024 + (v - 56320)) @ decode_units us
     else utf8 (if is_surrogate u then 65533 else u) @ decode_units (JUnit v # us))"
| "decode_units (JUnit u # us) = utf8 (if is_surrogate u then 65533 else u) @ decode_units us"

text \<open>A number literal, split off as its text.\<close>

definition jdigits :: "string \<Rightarrow> (string \<times> string) option" where
  "jdigits s = (let ds = takeWhile is_digit s in if ds = [] then None else Some (ds, dropWhile is_digit s))"

definition jint :: "string \<Rightarrow> (string \<times> string) option" where
  "jint s = (case s of [] \<Rightarrow> None | c # r \<Rightarrow> if c = CHR ''0'' then Some ([c], r) else jdigits s)"

definition jfrac :: "string \<Rightarrow> (string \<times> string) option" where
  "jfrac s = (case s of c # r \<Rightarrow> if c = CHR ''.'' then map_option (\<lambda>(ds, r'). (c # ds, r')) (jdigits r) else Some ([], s)
     | [] \<Rightarrow> Some ([], []))"

definition jexp :: "string \<Rightarrow> (string \<times> string) option" where
  "jexp s = (case s of
     c # r \<Rightarrow>
       if c = CHR ''e'' \<or> c = CHR ''E'' then
         (case r of
            d # r' \<Rightarrow> if d = CHR ''+'' \<or> d = CHR ''-''
                      then map_option (\<lambda>(ds, r''). (c # d # ds, r'')) (jdigits r')
                      else map_option (\<lambda>(ds, r''). (c # ds, r'')) (jdigits r)
          | [] \<Rightarrow> None)
       else Some ([], s)
   | [] \<Rightarrow> Some ([], []))"

definition jnumber :: "string \<Rightarrow> (string \<times> string) option" where
  "jnumber s =
    (let (sg, s0) = (case s of c # r \<Rightarrow> if c = CHR ''-'' then ([c], r) else ([], s) | [] \<Rightarrow> ([], [])) in
     case jint s0 of None \<Rightarrow> None | Some (i, s1) \<Rightarrow>
     case jfrac s1 of None \<Rightarrow> None | Some (f, s2) \<Rightarrow>
     case jexp s2 of None \<Rightarrow> None | Some (e, s3) \<Rightarrow> Some (sg @ i @ f @ e, s3))"

section \<open>Values\<close>

function (sequential)
      jvalue :: "string \<Rightarrow> (json \<times> string) option"
  and jelems :: "string \<Rightarrow> (json list \<times> string) option"
  and jmembers :: "string \<Rightarrow> ((string \<times> json) list \<times> string) option" where
  "jvalue s = (case skip_ws s of
     [] \<Rightarrow> None
   | c # r \<Rightarrow>
       if char_code c = 34 then map_option (\<lambda>(us, r'). (JStr (decode_units us), r')) (jstring r)
       else if c = CHR ''{'' then
         (case skip_ws r of
            [] \<Rightarrow> None
          | d # r' \<Rightarrow> if d = CHR ''}'' then Some (JObj [], r')
                      else map_option (\<lambda>(ms, r''). (JObj ms, r'')) (jmembers r))
       else if c = CHR ''['' then
         (case skip_ws r of
            [] \<Rightarrow> None
          | d # r' \<Rightarrow> if d = CHR '']'' then Some (JArr [], r')
                      else map_option (\<lambda>(es, r''). (JArr es, r'')) (jelems r))
       else if c = CHR ''t'' then map_option (\<lambda>r'. (JBool True, r')) (strip_prefix ''rue'' r)
       else if c = CHR ''f'' then map_option (\<lambda>r'. (JBool False, r')) (strip_prefix ''alse'' r)
       else if c = CHR ''n'' then map_option (\<lambda>r'. (JNull, r')) (strip_prefix ''ull'' r)
       else map_option (\<lambda>(t, r'). (JNum t, r')) (jnumber (c # r)))"
| "jelems s = (case jvalue s of
     None \<Rightarrow> None
   | Some (v, s1) \<Rightarrow>
       (case skip_ws s1 of
          [] \<Rightarrow> None
        | d # r \<Rightarrow>
            if d = CHR '']'' then Some ([v], r)
            else if d = CHR '','' \<and> length r < length s
            then map_option (\<lambda>(vs, r'). (v # vs, r')) (jelems r)
            else None))"
| "jmembers s = (case skip_ws s of
     [] \<Rightarrow> None
   | q # s0 \<Rightarrow>
       if char_code q \<noteq> 34 then None
       else (case jstring s0 of
          None \<Rightarrow> None
        | Some (us, s1) \<Rightarrow>
            (case skip_ws s1 of
               [] \<Rightarrow> None
             | d # s2 \<Rightarrow>
                 if d \<noteq> CHR '':'' \<or> \<not> length s2 < length s then None
                 else (case jvalue s2 of
                    None \<Rightarrow> None
                  | Some (v, s3) \<Rightarrow>
                      (case skip_ws s3 of
                         [] \<Rightarrow> None
                       | e # r \<Rightarrow>
                           if e = CHR ''}'' then Some ([(decode_units us, v)], r)
                           else if e = CHR '','' \<and> length r < length s
                           then map_option (\<lambda>(ms, r'). ((decode_units us, v) # ms, r')) (jmembers r)
                           else None)))))"
  by pat_completeness auto
termination
  by (relation "measure (case_sum (\<lambda>s. 2 * length s) (case_sum (\<lambda>s. Suc (2 * length s)) (\<lambda>s. Suc (2 * length s))))")
    (auto dest: skip_ws_Cons_length)

declare jvalue.simps [simp del] jelems.simps [simp del] jmembers.simps [simp del]

definition json_parse :: "string \<Rightarrow> json option" where
  "json_parse s = (case jvalue s of
     Some (v, r) \<Rightarrow> if skip_ws r = [] then Some v else None
   | None \<Rightarrow> None)"

section \<open>Storing members into struct fields\<close>

text \<open>
  \<open>foldName\<close>: ASCII letters fold to one case; of the other characters only the long s
  (U+017F) and the Kelvin sign (U+212A) fold to an ASCII letter.
\<close>

fun fold_name :: "string \<Rightarrow> string" where
  "fold_name [] = []"
| "fold_name (a # s) =
    (if char_code a < 128 then lower_char a # fold_name s
     else (case s of
       [] \<Rightarrow> [a]
     | b # s1 \<Rightarrow>
         if char_code a = 197 \<and> char_code b = 191 then CHR ''s'' # fold_name s1
         else (case s1 of
           [] \<Rightarrow> a # fold_name s
         | c # s2 \<Rightarrow>
             if char_code a = 226 \<and> char_code b = 132 \<and> char_code c = 170 then CHR ''k'' # fold_name s2
             else a # fold_name s)))"

definition field_matches :: "string \<Rightarrow> string \<Rightarrow> bool" where
  "field_matches f k \<longleftrightarrow> fold_name k = fold_name f"

text \<open>\<open>Unmarshal\<close> into a struct: the members of the object, none for \<open>null\<close>.\<close>

definition unmarshal_members :: "string \<Rightarrow> (string \<times> json) list res" where
  "unmarshal_members raw = (case json_parse raw of
     None \<Rightarrow> Inl (ErrMsg ''invalid JSON'')
   | Some (JObj ms) \<Rightarrow> Inr ms
   | Some JNull \<Rightarrow> Inr []
   | Some _ \<Rightarrow> Inl (ErrMsg ''json: cannot unmarshal into Go value of struct type''))"

definition dec_string :: "string \<Rightarrow> json \<Rightarrow> string option" where
  "dec_string old v = (case v of JStr s \<Rightarrow> Some s | JNull \<Rightarrow> Some old | _ \<Rightarrow> None)"

definition dec_int64 :: "int \<Rightarrow> json \<Rightarrow> int option" where
  "dec_int64 old v = (case v of JNum t \<Rightarrow> ParseInt_opt t | JNull \<Rightarrow> Some old | _ \<Rightarrow> None)"

text \<open>One field: the value after all members, or \<open>None\<close> when a matching member has the wrong type.\<close>

fun dec_field :: "('a \<Rightarrow> json \<Rightarrow> 'a option) \<Rightarrow> string \<Rightarrow> 'a \<Rightarrow> (string \<times> json) list \<Rightarrow> 'a option" where
  "dec_field d f x [] = Some x"
| "dec_field d f x ((k, v) # ms) =
    (if field_matches f k then (case d x v of None \<Rightarrow> None | Some y \<Rightarrow> dec_field d f y ms)
     else dec_field d f x ms)"

lemma dec_field_last:
  "field_matches f k \<Longrightarrow> dec_field d f x (ms @ [(k, v)]) =
     (case dec_field d f x ms of None \<Rightarrow> None | Some y \<Rightarrow> d y v)"
  by (induction d f x ms rule: dec_field.induct) (auto split: option.splits)

end
