(* ===== verification/Bucket.thy ===== *)
theory Bucket
  imports GoTime Json "HOL-Library.Word"
begin

text \<open>
  \<^verbatim>\<open>internal/bucket/bucket.go\<close>: bucket specifications, their JSON form, and the bucket
  identifier of a shard key on the time, numeric and hash axes. What the package takes from
  libraries outside the repository is the record \<open>golib\<close>: the third-party hash, the case
  mapping of non-ASCII text, the shortest decimal of a float with a fraction, and the value
  of a float to integer conversion that is out of range, which Go leaves to the platform.
\<close>

section \<open>Shard keys\<close>

text \<open>A \<open>float64\<close>: \<open>FFin m e\<close> is \<open>m * 2 ^ e\<close>.\<close>

datatype float64 = FNaN | FInf bool | FFin int int

record golib =
  lib_xxhash :: "string \<Rightarrow> 64 word"
  lib_unicode_lower :: "string \<Rightarrow> string"
  lib_format_float :: "float64 \<Rightarrow> string"
  lib_float_oor :: "float64 \<Rightarrow> int"

datatype shard_key =
    KString string | KFloat float64 | KInt64 int | KInt int | KNumber string | KOther

definition float_trunc :: "float64 \<Rightarrow> int option" where
  "float_trunc v = (case v of
     FFin m e \<Rightarrow> Some (if 0 \<le> e then m * 2 ^ nat e else go_quot m (2 ^ nat (- e)))
   | _ \<Rightarrow> None)"

definition int64_of_float :: "golib \<Rightarrow> float64 \<Rightarrow> int" where
  "int64_of_float L v = (case float_trunc v of
     Some i \<Rightarrow> if int64_ok i then i else wrap64 (lib_float_oor L v)
   | None \<Rightarrow> wrap64 (lib_float_oor L v))"

definition float_greater :: "float64 \<Rightarrow> int \<Rightarrow> bool" where
  "float_greater v c = (case v of
     FNaN \<Rightarrow> False | FInf neg \<Rightarrow> \<not> neg
   | FFin m e \<Rightarrow> if 0 \<le> e then c < m * 2 ^ nat e else c * 2 ^ nat (- e) < m)"

text \<open>\<open>float64(i)\<close>: rounding to 53 significant bits, ties to even.\<close>

function excess_bits :: "int \<Rightarrow> nat" where
  "excess_bits n = (if n < 2 ^ 53 then 0 else Suc (excess_bits (n div 2)))"
  by pat_completeness auto
termination
  by (relation "measure nat") auto

definition float_of_int :: "int \<Rightarrow> int" where
  "float_of_int i = (let k = 2 ^ excess_bits \<bar>i\<bar>; q = \<bar>i\<bar> div k; r = \<bar>i\<bar> mod k;
       q' = (if 2 * r < k \<or> (2 * r = k \<and> even q) then q else q + 1)
     in sgn i * (q' * k))"

definition float_eq_int :: "float64 \<Rightarrow> int \<Rightarrow> bool" where
  "float_eq_int v i = (case v of
     FFin m e \<Rightarrow> if 0 \<le> e then m * 2 ^ nat e = float_of_int i else m = float_of_int i * 2 ^ nat (- e)
   | _ \<Rightarrow> False)"

definition ToLower :: "golib \<Rightarrow> string \<Rightarrow> string" where
  "ToLower L s = (if is_ascii s then map lower_char s else lib_unicode_lower L s)"

fun stringifyKey :: "golib \<Rightarrow> shard_key \<Rightarrow> string res" where
  "stringifyKey L (KString v) = Inr (ToLower L v)"
| "stringifyKey L (KFloat v) =
     (if float_eq_int v (int64_of_float L v) then Inr (FormatInt (int64_of_float L v))
      else Inr (lib_format_float L v))"
| "stringifyKey L (KInt64 v) = Inr (FormatInt v)"
| "stringifyKey L (KInt v) = Inr (FormatInt v)"
| "stringifyKey L (KNumber v) = Inr v"
| "stringifyKey L KOther = Inl (ErrMsg ''unsupported shard_key type'')"

definition unixSecondsYear3000 :: int where
  "unixSecondsYear3000 = 32536800000"

definition unix_key :: "int \<Rightarrow> gtime" where
  "unix_key v = (if unixSecondsYear3000 < v then UnixMilli v else time_Unix v 0)"

fun parseTimeKey :: "golib \<Rightarrow> shard_key \<Rightarrow> gtime res" where
  "parseTimeKey L (KString v) =
     (case time_Parse layout_RFC3339 v of Some t \<Rightarrow> Inr t | None \<Rightarrow>
      case time_Parse layout_day v of Some t \<Rightarrow> Inr t | None \<Rightarrow>
      case time_Parse layout_month v of Some t \<Rightarrow> Inr t | None \<Rightarrow>
      case ParseInt v of (ms, ok) \<Rightarrow>
        if ok then Inr (unix_key ms) else Inl (ErrMsg ''invalid time shard_key''))"
| "parseTimeKey L (KFloat v) =
     (if float_greater v unixSecondsYear3000 then Inr (UnixMilli (int64_of_float L v))
      else Inr (time_Unix (int64_of_float L v) 0))"
| "parseTimeKey L (KInt64 v) = Inr (unix_key v)"
| "parseTimeKey L (KInt v) = Inr (unix_key v)"
| "parseTimeKey L (KNumber v) = Inl (ErrMsg ''unsupported shard_key type'')"
| "parseTimeKey L KOther = Inl (ErrMsg ''unsupported shard_key type'')"

fun parseNumericKey :: "golib \<Rightarrow> shard_key \<Rightarrow> int res" where
  "parseNumericKey L (KFloat v) = Inr (int64_of_float L v)"
| "parseNumericKey L (KInt64 v) = Inr v"
| "parseNumericKey L (KInt v) = Inr v"
| "parseNumericKey L (KString v) =
     (case ParseInt v of (n, ok) \<Rightarrow> if ok then Inr n else Inl (ErrMsg ''strconv.ParseInt''))"
| "parseNumericKey L (KNumber v) = Inl (ErrMsg ''unsupported numeric shard_key'')"
| "parseNumericKey L KOther = Inl (ErrMsg ''unsupported numeric shard_key'')"

text \<open>The integers a key carries are in range of their Go type.\<close>

definition key_ok :: "shard_key \<Rightarrow> bool" where
  "key_ok k = (case k of KInt64 v \<Rightarrow> int64_ok v | KInt v \<Rightarrow> int64_ok v | _ \<Rightarrow> True)"

section \<open>Specifications\<close>

datatype Axis = AxisTime | AxisNumeric | AxisHash | AxisOther string

datatype TimeUnit = UnitHour | UnitDay | UnitMonth | UnitOther string

fun axis_string :: "Axis \<Rightarrow> string" where
  "axis_string AxisTime = ''time''"
| "axis_string AxisNumeric = ''numeric''"
| "axis_string AxisHash = ''hash''"
| "axis_string (AxisOther s) = s"

definition axis_of_string :: "string \<Rightarrow> Axis" where
  "axis_of_string s = (if s = ''time'' then AxisTime else if s = ''numeric'' then AxisNumeric
     else if s = ''hash'' then AxisHash else AxisOther s)"

definition unit_of_string :: "string \<Rightarrow> TimeUnit" where
  "unit_of_string s = (if s = ''hour'' then UnitHour else if s = ''day'' then UnitDay
     else if s = ''month'' then UnitMonth else UnitOther s)"

lemma axis_string_of_string [simp]: "axis_string (axis_of_string s) = s"
  by (simp add: axis_of_string_def)

definition HashAlgoXXHash64 :: string where
  "HashAlgoXXHash64 = ''xxhash64''"

definition ErrorBucketID :: string where
  "ErrorBucketID = ''__error__''"

record Spec =
  sp_axis :: Axis
  sp_unit :: TimeUnit
  sp_width :: int
  sp_bucket_count :: int
  sp_hash_algo :: string
  sp_raw :: string

definition spec0 :: "Axis \<Rightarrow> string \<Rightarrow> Spec" where
  "spec0 axis raw = \<lparr>sp_axis = axis, sp_unit = UnitOther [], sp_width = 0, sp_bucket_count = 0,
     sp_hash_algo = [], sp_raw = raw\<rparr>"

definition ParseSpec :: "Axis \<Rightarrow> string \<Rightarrow> Spec res" where
  "ParseSpec axis raw =
    (let s = spec0 axis raw in
     if raw = [] then Inl (ErrMsg ''bucket_spec required'')
     else case axis of
       AxisTime \<Rightarrow>
         (case unmarshal_members raw of Inl e \<Rightarrow> Inl e | Inr ms \<Rightarrow>
          case dec_field dec_string ''unit'' [] ms of
            None \<Rightarrow> Inl (ErrMsg ''json: cannot unmarshal into field unit'')
          | Some u \<Rightarrow>
              (case unit_of_string u of
                 UnitOther _ \<Rightarrow> Inl (ErrMsg ''unsupported time unit'')
               | x \<Rightarrow> Inr (s\<lparr>sp_unit := x\<rparr>)))
     | AxisNumeric \<Rightarrow>
         (case unmarshal_members raw of Inl e \<Rightarrow> Inl e | Inr ms \<Rightarrow>
          case dec_field dec_int64 ''width'' 0 ms of
            None \<Rightarrow> Inl (ErrMsg ''json: cannot unmarshal into field width'')
          | Some w \<Rightarrow> if w \<le> 0 then Inl (ErrMsg ''width must be positive'') else Inr (s\<lparr>sp_width := w\<rparr>))
     | AxisHash \<Rightarrow>
         (case unmarshal_members raw of Inl e \<Rightarrow> Inl e | Inr ms \<Rightarrow>
          case (dec_field dec_int64 ''bucket_count'' 0 ms, dec_field dec_string ''hash_algo'' [] ms) of
            (Some bc, Some algo) \<Rightarrow>
              if bc \<le> 0 then Inl (ErrMsg ''bucket_count must be positive'')
              else let a = (if algo = [] then HashAlgoXXHash64 else algo) in
                if a \<noteq> HashAlgoXXHash64 then Inl (ErrMsg ''unsupported hash_algo'')
                else Inr (s\<lparr>sp_bucket_count := bc, sp_hash_algo := a\<rparr>)
          | _ \<Rightarrow> Inl (ErrMsg ''json: cannot unmarshal into field''))
     | AxisOther _ \<Rightarrow> Inl (ErrMsg ''unsupported axis''))"

section \<open>Bucket identifiers\<close>

definition timeID :: "Spec \<Rightarrow> gtime \<Rightarrow> string" where
  "timeID s t = (case sp_unit s of
     UnitHour \<Rightarrow> time_Format layout_hour t
   | UnitDay \<Rightarrow> time_Format layout_day t
   | UnitMonth \<Rightarrow> time_Format layout_month t
   | UnitOther _ \<Rightarrow> time_Format layout_day t)"

function digit_loop :: "int \<Rightarrow> int \<Rightarrow> int" where
  "digit_loop n w = (if 0 < n then digit_loop (n div 10) (w + 1) else w)"
  by pat_completeness auto
termination
  by (relation "measure (\<lambda>(n, w). nat n)") auto

definition digitWidth :: "int \<Rightarrow> int" where
  "digitWidth n = (if n < 10 then 1 else digit_loop n 0)"

definition hashKey :: "golib \<Rightarrow> shard_key \<Rightarrow> string \<Rightarrow> (64 word) res" where
  "hashKey L k algo =
    (if algo \<noteq> HashAlgoXXHash64 then Inl (ErrMsg ''unsupported hash_algo'')
     else case stringifyKey L k of Inl e \<Rightarrow> Inl e | Inr s \<Rightarrow> Inr (lib_xxhash L s))"

definition numeric_index :: "int \<Rightarrow> int \<Rightarrow> int" where
  "numeric_index w n = (if n < 0 then wrap64 (go_quot (wrap64 (wrap64 (n - w) + 1)) w)
     else wrap64 (go_quot n w))"

definition hash_index :: "int \<Rightarrow> 64 word \<Rightarrow> int" where
  "hash_index bc h = wrap64 (uint h mod (bc mod 2 ^ 64))"

definition hash_bucket_id :: "int \<Rightarrow> int \<Rightarrow> string" where
  "hash_bucket_id bc idx = CHR ''h'' # Sprintf_0d (nat (digitWidth (wrap64 (bc - 1)))) idx"

definition ID :: "golib \<Rightarrow> Spec \<Rightarrow> shard_key \<Rightarrow> string res" where
  "ID L s k = (case sp_axis s of
     AxisTime \<Rightarrow> (case parseTimeKey L k of Inl e \<Rightarrow> Inl e | Inr t \<Rightarrow> Inr (timeID s t))
   | AxisNumeric \<Rightarrow>
       (case parseNumericKey L k of Inl e \<Rightarrow> Inl e
        | Inr n \<Rightarrow> if sp_width s = 0 then Inl ErrPanic
                  else Inr (CHR ''n'' # FormatInt (numeric_index (sp_width s) n)))
   | AxisHash \<Rightarrow>
       (case hashKey L k (sp_hash_algo s) of Inl e \<Rightarrow> Inl e
        | Inr h \<Rightarrow> if sp_bucket_count s = 0 then Inl ErrPanic
                  else Inr (hash_bucket_id (sp_bucket_count s) (hash_index (sp_bucket_count s) h)))
   | AxisOther _ \<Rightarrow> Inl (ErrMsg ''unsupported axis''))"

definition CurrentID :: "Spec \<Rightarrow> gtime \<Rightarrow> string res" where
  "CurrentID s now = (case sp_axis s of
     AxisTime \<Rightarrow> Inr (timeID s now)
   | AxisNumeric \<Rightarrow> Inl (ErrMsg ''axis has no wall-clock current bucket'')
   | AxisHash \<Rightarrow> Inl (ErrMsg ''axis has no wall-clock current bucket'')
   | AxisOther _ \<Rightarrow> Inl (ErrMsg ''unsupported axis''))"

definition Index :: "Spec \<Rightarrow> string \<Rightarrow> int res" where
  "Index s b =
    (if sp_axis s \<noteq> AxisTime then Inl (ErrMsg ''index only for time axis'')
     else case sp_unit s of
       UnitHour \<Rightarrow> (case time_Parse layout_hour b of
           None \<Rightarrow> Inl (ErrMsg ''parsing time'') | Some t \<Rightarrow> Inr (go_quot (Unix_of t) 3600))
     | UnitDay \<Rightarrow> (case time_Parse layout_day b of
           None \<Rightarrow> Inl (ErrMsg ''parsing time'') | Some t \<Rightarrow> Inr (go_quot (Unix_of t) 86400))
     | UnitMonth \<Rightarrow>
         (case Split CHR ''-'' b of
            [p0, p1] \<Rightarrow> Inr (wrap64 (fst (Atoi p0) * 12 + fst (Atoi p1) - 1))
          | _ \<Rightarrow> Inl (ErrMsg ''invalid month bucket_id''))
     | UnitOther _ \<Rightarrow> Inl (ErrMsg ''unsupported unit''))"

definition IDFromIndex :: "Spec \<Rightarrow> int \<Rightarrow> string res" where
  "IDFromIndex s idx =
    (if sp_axis s \<noteq> AxisTime then Inl (ErrMsg ''index only for time axis'')
     else case sp_unit s of
       UnitHour \<Rightarrow> Inr (time_Format layout_hour (time_Unix (wrap64 (idx * 3600)) 0))
     | UnitDay \<Rightarrow> Inr (time_Format layout_day (time_Unix (wrap64 (idx * 86400)) 0))
     | UnitMonth \<Rightarrow> Inr (Sprintf_0d 4 (go_quot idx 12) @ CHR ''-'' # Sprintf_0d 2 (wrap64 (go_rem idx 12 + 1)))
     | UnitOther _ \<Rightarrow> Inl (ErrMsg ''unsupported unit''))"

definition MinShards :: "int \<Rightarrow> int \<Rightarrow> int" where
  "MinShards retentionDepth maxFuture = wrap64 (retentionDepth + 1 + maxFuture + 1)"

declare digit_loop.simps [simp del] excess_bits.simps [simp del]

section \<open>Well-formed specifications\<close>

definition spec_wf :: "Spec \<Rightarrow> bool" where
  "spec_wf s = (case sp_axis s of
     AxisTime \<Rightarrow> sp_unit s \<in> {UnitHour, UnitDay, UnitMonth}
   | AxisNumeric \<Rightarrow> 0 < sp_width s \<and> sp_width s < 2 ^ 63
   | AxisHash \<Rightarrow> 0 < sp_bucket_count s \<and> sp_bucket_count s < 2 ^ 63 \<and> sp_hash_algo s = HashAlgoXXHash64
   | AxisOther _ \<Rightarrow> False)"

lemma ParseInt_opt_range: "ParseInt_opt t = Some v \<Longrightarrow> int64_ok v"
  by (auto simp: ParseInt_opt_def split: prod.splits if_splits dest: ParseInt_range)

lemma dec_int64_ok: "int64_ok x \<Longrightarrow> dec_int64 x v = Some y \<Longrightarrow> int64_ok y"
  by (auto simp: dec_int64_def split: json.splits dest: ParseInt_opt_range)

lemma dec_field_int64_ok:
  "dec_field dec_int64 f x ms = Some y \<Longrightarrow> int64_ok x \<Longrightarrow> int64_ok y"
  by (induction "dec_int64 :: int \<Rightarrow> json \<Rightarrow> int option" f x ms rule: dec_field.induct)
    (auto split: if_splits option.splits dest: dec_int64_ok)

lemma unit_of_string_cases:
  "unit_of_string u \<in> {UnitHour, UnitDay, UnitMonth} \<or> (\<exists>x. unit_of_string u = UnitOther x)"
  by (simp add: unit_of_string_def)

lemma ParseSpec_axis: "ParseSpec axis raw = Inr s \<Longrightarrow> sp_axis s = axis \<and> sp_raw s = raw"
  by (auto simp: ParseSpec_def spec0_def Let_def
      split: if_splits Axis.splits sum.splits option.splits TimeUnit.splits)

lemma ParseSpec_spec_wf:
  assumes "ParseSpec axis raw = Inr s"
  shows "spec_wf s"
proof (cases axis)
  case AxisTime
  with assms show ?thesis
    by (auto simp: ParseSpec_def spec0_def Let_def spec_wf_def
        split: if_splits sum.splits option.splits TimeUnit.splits)
next
  case AxisNumeric
  then obtain ms w where w: "dec_field dec_int64 ''width'' 0 ms = Some w" "0 < w"
    and s: "s = (spec0 axis raw)\<lparr>sp_width := w\<rparr>"
    using assms by (auto simp: ParseSpec_def Let_def split: if_splits sum.splits option.splits)
  have "int64_ok w" using dec_field_int64_ok [OF w(1)] by (simp add: int64_ok_def)
  then show ?thesis using w(2) s AxisNumeric by (simp add: spec_wf_def spec0_def int64_ok_def)
next
  case AxisHash
  then obtain ms bc where bc: "dec_field dec_int64 ''bucket_count'' 0 ms = Some bc" "0 < bc"
    and s: "s = (spec0 axis raw)\<lparr>sp_bucket_count := bc, sp_hash_algo := HashAlgoXXHash64\<rparr>"
    using assms
    by (auto simp: ParseSpec_def Let_def split: if_splits sum.splits option.splits)
  have "int64_ok bc" using dec_field_int64_ok [OF bc(1)] by (simp add: int64_ok_def)
  then show ?thesis using bc(2) s AxisHash by (simp add: spec_wf_def spec0_def int64_ok_def)
next
  case AxisOther
  with assms show ?thesis by (simp add: ParseSpec_def Let_def split: if_splits)
qed

section \<open>The numeric axis\<close>

lemma div_int64_ok:
  assumes "int64_ok n" and "0 < w"
  shows "int64_ok (n div w)"
proof (cases "n < 0")
  case True
  then have "n \<le> n div w" "n div w < 0"
    using assms zdiv_mono2_neg [of n 1 w] by (simp_all add: pos_imp_zdiv_neg_iff)
  then show ?thesis using assms by (simp add: int64_ok_def)
next
  case False
  then have "0 \<le> n div w" "n div w \<le> n"
    using assms zdiv_mono2 [of n 1 w] by (simp_all add: pos_imp_zdiv_nonneg_iff)
  then show ?thesis using assms by (simp add: int64_ok_def)
qed

lemma numeric_index_floor:
  assumes "0 < w" and "w < 2 ^ 63" and "int64_ok n" and "- (2 ^ 63) \<le> n - w + 1"
  shows "numeric_index w n = n div w"
proof (cases "n < 0")
  case True
  have a: "int64_ok (n - w + 1)" using assms True by (simp add: int64_ok_def)
  have "wrap64 (wrap64 (n - w) + 1) = n - w + 1"
  proof (cases "int64_ok (n - w)")
    case True
    then show ?thesis using a by (simp add: wrap64_id)
  next
    case False
    then have "n - w = - (2 ^ 63) - 1" using assms \<open>n < 0\<close> by (auto simp: int64_ok_def)
    then show ?thesis by (simp add: wrap64_def)
  qed
  then have "numeric_index w n = wrap64 (n div w)"
    using True assms by (simp add: numeric_index_def go_quot_floor)
  then show ?thesis using div_int64_ok [OF assms(3,1)] by (simp add: wrap64_id)
next
  case False
  then show ?thesis
    using assms div_int64_ok [OF assms(3,1)] by (simp add: numeric_index_def go_quot_nonneg wrap64_id)
qed

lemma numeric_index_overflow:
  assumes "0 < w" and "w < 2 ^ 63" and "int64_ok n" and "n - w + 1 < - (2 ^ 63)"
  shows "numeric_index w n = (n - w + 1 + 2 ^ 64) div w" and "0 \<le> numeric_index w n" and "n div w < 0"
proof -
  have n: "n < 0" using assms by simp
  let ?x = "n - w + 1 + 2 ^ 64"
  have x: "0 < ?x" "?x < 2 ^ 63" using assms n by (auto simp: int64_ok_def)
  have "wrap64 (n - w) = n - w + 2 ^ 64"
  proof -
    have "(n - w + 2 ^ 63) mod 2 ^ 64 = (n - w + 2 ^ 63 + 2 ^ 64) mod 2 ^ 64"
      by (rule mod_add_self2 [symmetric])
    also have "\<dots> = n - w + 2 ^ 63 + 2 ^ 64"
      using assms by (intro mod_pos_pos_trivial) (auto simp: int64_ok_def)
    finally show ?thesis by (simp add: wrap64_def)
  qed
  then have "wrap64 (wrap64 (n - w) + 1) = ?x"
    using x by (simp add: wrap64_id int64_ok_def)
  then have "numeric_index w n = wrap64 (?x div w)"
    using n x assms by (simp add: numeric_index_def go_quot_nonneg)
  moreover have ok: "int64_ok (?x div w)"
    using x assms by (intro div_int64_ok) (auto simp: int64_ok_def)
  ultimately show "numeric_index w n = ?x div w" by (simp add: wrap64_id)
  then show "0 \<le> numeric_index w n" using x assms by (simp add: pos_imp_zdiv_nonneg_iff)
  show "n div w < 0" using n assms by (simp add: pos_imp_zdiv_neg_iff)
qed

section \<open>The hash axis\<close>

lemma digit_loop_length: "0 < n \<Longrightarrow> digit_loop n w = w + int (length (int_digits n))"
proof (induction n w rule: digit_loop.induct)
  case (1 n w)
  show ?case
  proof (cases "n < 10")
    case True
    then have "n div 10 = 0" using 1(2) by simp
    then show ?thesis
      using True 1(2) by (simp add: digit_loop.simps [of n w] digit_loop.simps [of 0] int_digits_small)
  next
    case False
    then have "0 < n div 10" by simp
    then have "digit_loop (n div 10) (w + 1) = w + 1 + int (length (int_digits (n div 10)))"
      using 1 by simp
    then show ?thesis
      using False 1(2) by (simp add: digit_loop.simps [of n w] int_digits_large)
  qed
qed

lemma digitWidth_length: "0 \<le> n \<Longrightarrow> nat (digitWidth n) = length (int_digits n)"
  by (simp add: digitWidth_def digit_loop_length int_digits_small)

lemma length_int_digits_mono: "0 \<le> m \<Longrightarrow> m \<le> n \<Longrightarrow> length (int_digits m) \<le> length (int_digits n)"
proof -
  assume m: "0 \<le> m" "m \<le> n"
  have "n < 10 ^ length (int_digits n)"
    using m length_int_digits [of n "length (int_digits n)"] by simp
  then show ?thesis using m length_int_digits [of m "length (int_digits n)"] by simp
qed

lemma hash_bucket_id_padded:
  assumes "0 < bc" and "bc < 2 ^ 63" and "0 \<le> i" and "i < bc"
  shows "hash_bucket_id bc i = CHR ''h'' # pad0 (length (int_digits (bc - 1))) (int_digits i)"
proof -
  have "wrap64 (bc - 1) = bc - 1" using assms by (intro wrap64_id) (simp add: int64_ok_def)
  then show ?thesis using assms by (simp add: hash_bucket_id_def Sprintf_0d_def digitWidth_length)
qed

lemma length_hash_bucket_id:
  assumes "0 < bc" and "bc < 2 ^ 63" and "0 \<le> i" and "i < bc"
  shows "length (hash_bucket_id bc i) = Suc (length (int_digits (bc - 1)))"
  using assms length_int_digits_mono [of i "bc - 1"]
  by (simp add: hash_bucket_id_padded length_pad0)

definition dec_hash_id :: "string \<Rightarrow> int option" where
  "dec_hash_id s = (case s of [] \<Rightarrow> None | _ # ds \<Rightarrow> digits_int 0 ds)"

definition hash_slot :: "int \<Rightarrow> int \<Rightarrow> bool" where
  "hash_slot bc i \<longleftrightarrow> 0 < bc \<and> bc < 2 ^ 63 \<and> 0 \<le> i \<and> i < bc"

interpretation hash_ids: codec "hash_bucket_id bc" dec_hash_id "hash_slot bc" for bc
  by unfold_locales (simp add: hash_slot_def hash_bucket_id_padded dec_hash_id_def)

lemma hash_index_slot:
  assumes "0 < bc" and "bc < 2 ^ 63"
  shows "hash_slot bc (hash_index bc h)" and "hash_index bc h = uint h mod bc"
proof -
  have "bc mod 2 ^ 64 = bc" using assms by (intro mod_pos_pos_trivial) auto
  moreover have b: "0 \<le> uint h mod bc" "uint h mod bc < bc" using assms by simp_all
  moreover have "wrap64 (uint h mod bc) = uint h mod bc"
    using b assms unfolding int64_ok_def [symmetric] by (intro wrap64_id) (unfold int64_ok_def, linarith)
  ultimately show "hash_slot bc (hash_index bc h)" and "hash_index bc h = uint h mod bc"
    using assms by (simp_all add: hash_index_def hash_slot_def wrap64_id int64_ok_def)
qed

lemma ID_hash:
  assumes "spec_wf s" and "sp_axis s = AxisHash"
  shows "ID L s k = (case stringifyKey L k of Inl e \<Rightarrow> Inl e
    | Inr str \<Rightarrow> Inr (hash_bucket_id (sp_bucket_count s) (uint (lib_xxhash L str) mod sp_bucket_count s)))"
  using assms by (simp add: ID_def spec_wf_def hashKey_def hash_index_slot split: sum.split)

section \<open>The time axis\<close>

text \<open>
  What the routing code relies on when it compares buckets of the time axis: \<open>Index\<close> reads
  back the number of the period that \<open>timeID\<close> printed, and periods are numbered in time order.
\<close>

locale time_buckets =
  fixes tid :: "gtime \<Rightarrow> string"
    and idx :: "string \<Rightarrow> int res"
    and num :: "gtime \<Rightarrow> int"
    and supported :: "gtime \<Rightarrow> bool"
  assumes idx_tid: "supported t \<Longrightarrow> idx (tid t) = Inr (num t)"
    and num_mono: "t \<le> t' \<Longrightarrow> num t \<le> num t'"
    and tid_num: "num t = num t' \<Longrightarrow> tid t = tid t'"
begin

lemma tid_eq_iff: "supported t \<Longrightarrow> supported t' \<Longrightarrow> tid t = tid t' \<longleftrightarrow> num t = num t'"
  by (metis idx_tid sum.inject(2) tid_num)

lemma later_bucket: "supported t \<Longrightarrow> supported t' \<Longrightarrow> t \<le> t' \<Longrightarrow> tid t \<noteq> tid t' \<Longrightarrow> num t < num t'"
  by (metis num_mono order_le_less tid_num)

end

definition unit_index :: "TimeUnit \<Rightarrow> gtime \<Rightarrow> int" where
  "unit_index u t = (case u of
     UnitHour \<Rightarrow> Unix_of t div 3600
   | UnitMonth \<Rightarrow> time_year t * 12 + time_month t - 1
   | _ \<Rightarrow> time_days t)"

definition time_supported :: "Spec \<Rightarrow> gtime \<Rightarrow> bool" where
  "time_supported s t \<longleftrightarrow> sp_axis s = AxisTime \<and> spec_wf s \<and> year4 (time_year t)"

lemma month_id: "year4 (time_year t) \<Longrightarrow>
    Split CHR ''-'' (time_Format layout_month t) = [appendInt 4 (time_year t), appendInt 2 (time_month t)]"
  using time_field_bounds [of t] appendInt_year(4)
  by (simp add: layout_month_def time_Format_Cons time_Format_Nil Split_append_sep)
    (simp add: Split_no_sep appendInt_def)

lemma Index_timeID:
  assumes "time_supported s t"
  shows "Index s (timeID s t) = Inr (unit_index (sp_unit s) t)"
proof -
  have y: "year4 (time_year t)" and ax: "sp_axis s = AxisTime"
    and u: "sp_unit s = UnitHour \<or> sp_unit s = UnitDay \<or> sp_unit s = UnitMonth"
    using assms by (auto simp: time_supported_def spec_wf_def)
  from u consider (hour) "sp_unit s = UnitHour" | (day) "sp_unit s = UnitDay" | (month) "sp_unit s = UnitMonth"
    by blast
  then show ?thesis
  proof cases
    case hour
    then show ?thesis
      using ax time_Parse_hour [OF y]
      by (simp add: Index_def timeID_def unit_index_def go_quot_mult second_ns_def)
  next
    case day
    then show ?thesis
      using ax time_Parse_day [OF y]
      by (simp add: Index_def timeID_def unit_index_def go_quot_mult second_ns_def)
  next
    case month
    have m: "1 \<le> time_month t" "time_month t \<le> 12" by (rule time_field_bounds)+
    then have "Atoi (appendInt 2 (time_month t)) = (time_month t, True)"
      by (simp add: appendInt_def Atoi_pad0)
    moreover have "int64_ok (time_year t * 12 + time_month t - 1)"
      using y m by (simp add: int64_ok_def year4_def)
    ultimately show ?thesis
      using month ax y appendInt_year(5) [OF y]
      by (simp add: Index_def timeID_def month_id unit_index_def wrap64_id)
  qed
qed

lemma days_before_month_mono: "1 \<le> m \<Longrightarrow> m \<le> 12 \<Longrightarrow> days_before_month lp m \<le> days_before_month lp (m + 1)"
  by (erule (1) month_cases; simp add: days_before_month_simps)

lemma days_before_month_le:
  assumes "1 \<le> m" and "m \<le> m'" and "m' \<le> 12"
  shows "days_before_month lp m \<le> days_before_month lp m'"
  using assms(2,1,3)
proof (induction m' rule: int_ge_induct)
  case base
  then show ?case by simp
next
  case (step i)
  then show ?case using days_before_month_mono [of i lp] by simp
qed

lemma civil_month_less:
  assumes v: "valid_date y m d" "valid_date y' m' d'" and "y * 12 + m < y' * 12 + m'"
  shows "days_of_civil y m d < days_of_civil y' m' d'"
proof (cases "y = y'")
  case True
  then have "m + 1 \<le> m'" using assms(3) by simp
  then have "days_before_month (leap y) (m + 1) \<le> days_before_month (leap y) m'"
    using v by (intro days_before_month_le) (auto simp: valid_date_def)
  then show ?thesis using v True by (auto simp: days_of_civil_def valid_date_def daysIn_def)
next
  case False
  then have "y + 1 \<le> y'" using v assms(3) by (auto simp: valid_date_def)
  then have "days_before_year y + (if leap y then 366 else 365) \<le> days_before_year y'"
    using days_before_year_mono [of "y + 1" y'] by (simp add: year_length)
  moreover have "days_before_month (leap y) (m + 1) \<le> (if leap y then 366 else 365)"
    "0 \<le> days_before_month (leap y') m'"
    using v days_before_month_range(2) [of m "leap y"] days_before_month_range(1) [of m' "leap y'"]
    by (simp_all add: valid_date_def)
  ultimately show ?thesis using v by (auto simp: days_of_civil_def valid_date_def daysIn_def)
qed

lemma unit_index_mono: "t \<le> t' \<Longrightarrow> unit_index u t \<le> unit_index u t'"
proof -
  assume "t \<le> t'"
  then have ux: "Unix_of t \<le> Unix_of t'" by (simp add: Unix_of_def zdiv_mono1 second_ns_def)
  then have "time_days t \<le> time_days t'" by (simp add: time_days_def zdiv_mono1)
  moreover from this have "\<not> time_year t' * 12 + time_month t' < time_year t * 12 + time_month t"
    using civil_month_less [OF time_fields_valid time_fields_valid, of t' t] by (auto simp: days_of_time_fields)
  ultimately show ?thesis using ux by (auto simp: unit_index_def zdiv_mono1 split: TimeUnit.split)
qed

lemma days_of_hour: "time_days t = Unix_of t div 3600 div 24"
  unfolding time_days_def using zdiv_zmult2_eq [of 24 "Unix_of t" 3600] by simp

lemma hour_of_hour: "time_hour t = Unix_of t div 3600 - 24 * time_days t"
  using hour_split [of "Unix_of t"] by (simp add: time_hour_def time_sec_of_day_def time_days_def)

lemma month_index_inj:
  fixes y m y' m' :: int
  assumes "y * 12 + m = y' * 12 + m'" and "1 \<le> m" "m \<le> 12" "1 \<le> m'" "m' \<le> 12"
  shows "y = y' \<and> m = m'"
  using assms by presburger

lemma timeID_unit_index: "unit_index (sp_unit s) t = unit_index (sp_unit s) t' \<Longrightarrow> timeID s t = timeID s t'"
proof -
  assume eq: "unit_index (sp_unit s) t = unit_index (sp_unit s) t'"
  have day: "time_Format layout_day t = time_Format layout_day t'" if "time_days t = time_days t'"
    using that by (simp add: layout_day_def time_Format_def time_year_def time_month_def time_day_def)
  show ?thesis
  proof (cases "sp_unit s")
    case UnitHour
    with eq have h: "Unix_of t div 3600 = Unix_of t' div 3600" by (simp add: unit_index_def)
    then have "time_days t = time_days t'" by (simp add: days_of_hour)
    moreover from this h have "time_hour t = time_hour t'" by (simp add: hour_of_hour)
    ultimately show ?thesis
      using UnitHour
      by (simp add: timeID_def layout_hour_def time_Format_def time_year_def time_month_def time_day_def)
  next
    case UnitMonth
    then have "time_year t = time_year t' \<and> time_month t = time_month t'"
      using eq time_field_bounds(1,2) [of t] time_field_bounds(1,2) [of t']
      by (intro month_index_inj) (auto simp: unit_index_def)
    then show ?thesis using UnitMonth by (simp add: timeID_def layout_month_def time_Format_def)
  next
    case UnitDay
    then show ?thesis using eq by (simp add: timeID_def unit_index_def day)
  next
    case (UnitOther x)
    then show ?thesis using eq by (simp add: timeID_def unit_index_def day)
  qed
qed

interpretation periods: time_buckets "timeID s" "Index s" "unit_index (sp_unit s)" "time_supported s" for s
  by unfold_locales (auto intro: Index_timeID unit_index_mono timeID_unit_index)

section \<open>Properties of bucket identifiers\<close>

lemma int64_of_float_ok: "int64_ok (int64_of_float L v)"
  by (simp add: int64_of_float_def split: option.split)

lemma parseNumericKey_ok: "key_ok k \<Longrightarrow> parseNumericKey L k = Inr n \<Longrightarrow> int64_ok n"
  by (cases k) (auto simp: key_ok_def int64_of_float_ok split: prod.splits if_splits dest: ParseInt_range)

lemma ID_numeric:
  assumes "spec_wf s" and "sp_axis s = AxisNumeric" and "parseNumericKey L k = Inr n"
  shows "ID L s k = Inr (CHR ''n'' # FormatInt (numeric_index (sp_width s) n))"
  using assms by (simp add: ID_def spec_wf_def)

text \<open>
  C26: on the numeric axis the bucket of a key is the floor of key over width, and two keys
  share a bucket exactly when their floors agree, for every accepted specification and all
  keys at which \<open>n - width + 1\<close> does not leave the 64-bit range.
\<close>

theorem numeric_id_floor:
  assumes "ParseSpec AxisNumeric raw = Inr s"
    and "key_ok k" and "parseNumericKey L k = Inr n" and "- (2 ^ 63) \<le> n - sp_width s + 1"
    and "key_ok k'" and "parseNumericKey L k' = Inr n'" and "- (2 ^ 63) \<le> n' - sp_width s + 1"
  shows "ID L s k = Inr (CHR ''n'' # FormatInt (n div sp_width s)) \<and>
    (ID L s k = ID L s k' \<longleftrightarrow> n div sp_width s = n' div sp_width s)"
proof -
  have wf: "spec_wf s" and ax: "sp_axis s = AxisNumeric"
    using assms(1) by (auto dest: ParseSpec_spec_wf ParseSpec_axis)
  then have w: "0 < sp_width s" "sp_width s < 2 ^ 63" by (simp_all add: spec_wf_def)
  have n: "int64_ok n" and n': "int64_ok n'" using assms parseNumericKey_ok by blast+
  have "ID L s k = Inr (CHR ''n'' # FormatInt (n div sp_width s))"
    and "ID L s k' = Inr (CHR ''n'' # FormatInt (n' div sp_width s))"
    using ID_numeric [OF wf ax] numeric_index_floor [OF w] n n' assms by simp_all
  then show ?thesis
    using decimal.enc_eq_iff div_int64_ok [OF n w(1)] div_int64_ok [OF n' w(1)] by auto
qed

definition json_obj1 :: "string \<Rightarrow> string \<Rightarrow> string" where
  "json_obj1 k v = ''{'' @ [CHR 0x22] @ k @ [CHR 0x22] @ '':'' @ v @ ''}''"

definition demo_lib :: golib where
  "demo_lib = \<lparr>lib_xxhash = (\<lambda>s. of_nat (length s)), lib_unicode_lower = (\<lambda>s. s),
     lib_format_float = (\<lambda>_. []), lib_float_oor = (\<lambda>_. 0)\<rparr>"

definition demo_numeric :: Spec where
  "demo_numeric = (spec0 AxisNumeric (json_obj1 ''width'' ''1000''))\<lparr>sp_width := 1000\<rparr>"

lemma demo_numeric_parse: "ParseSpec AxisNumeric (json_obj1 ''width'' ''1000'') = Inr demo_numeric"
  by code_simp

theorem numeric_id_floor_witness:
  "ID demo_lib demo_numeric (KInt64 (- 1)) = Inr ''n-1'' \<and>
   ID demo_lib demo_numeric (KInt64 (- 1)) \<noteq> ID demo_lib demo_numeric (KInt64 5)"
proof -
  have w: "sp_width demo_numeric = 1000" by (simp add: demo_numeric_def)
  have f: "FormatInt (- 1) = ''-1''" by code_simp
  have d: "(- 1 :: int) div 1000 = - 1" "(5 :: int) div 1000 = 0" by simp_all
  show ?thesis
    using numeric_id_floor [OF demo_numeric_parse, of "KInt64 (- 1)" demo_lib "- 1" "KInt64 5" 5]
    unfolding w d f by (auto simp: key_ok_def int64_ok_def)
qed

text \<open>
  Below that range the subtraction wraps around and a negative key lands in a bucket with
  a non-negative index, although its floor is negative.
\<close>

lemma numeric_id_overflow:
  assumes "ParseSpec AxisNumeric raw = Inr s" and "key_ok k" and "parseNumericKey L k = Inr n"
    and "n - sp_width s + 1 < - (2 ^ 63)"
  shows "\<exists>i. ID L s k = Inr (CHR ''n'' # FormatInt i) \<and> n div sp_width s < 0 \<and> 0 \<le> i"
proof -
  have wf: "spec_wf s" and ax: "sp_axis s = AxisNumeric"
    using assms(1) by (auto dest: ParseSpec_spec_wf ParseSpec_axis)
  then have w: "0 < sp_width s" "sp_width s < 2 ^ 63" by (simp_all add: spec_wf_def)
  have n: "int64_ok n" using assms parseNumericKey_ok by blast
  show ?thesis
    using ID_numeric [OF wf ax assms(3)] numeric_index_overflow(2,3) [OF w n assms(4)] by blast
qed

lemma numeric_id_overflow_example:
  "\<exists>i. ID demo_lib demo_numeric (KInt64 (- (2 ^ 63))) = Inr (CHR ''n'' # FormatInt i) \<and>
     (- (2 ^ 63) :: int) div 1000 < 0 \<and> 0 \<le> i"
proof -
  have w: "sp_width demo_numeric = 1000" by (simp add: demo_numeric_def)
  show ?thesis
    using numeric_id_overflow [OF demo_numeric_parse, of "KInt64 (- (2 ^ 63))" demo_lib "- (2 ^ 63)"]
    unfolding w by (simp add: key_ok_def int64_ok_def)
qed

text \<open>
  C28: on the hash axis every key that can be hashed gets an identifier of one fixed length, the
  identifier of a slot below \<open>bucket_count\<close> given by the hash modulo \<open>bucket_count\<close>; distinct slots have distinct
  identifiers; and string keys that differ only in the case of ASCII letters get the same one.
\<close>

theorem hash_id_slot:
  assumes "ParseSpec AxisHash raw = Inr s" and "stringifyKey L k = Inr str"
    and "is_ascii a" and "is_ascii b" and "map lower_char a = map lower_char b"
    and "0 \<le> i" and "i < sp_bucket_count s" and "0 \<le> j" and "j < sp_bucket_count s"
  shows "ID L s k = Inr (hash_bucket_id (sp_bucket_count s) (uint (lib_xxhash L str) mod sp_bucket_count s)) \<and>
    length (hash_bucket_id (sp_bucket_count s) i) = length (hash_bucket_id (sp_bucket_count s) 0) \<and>
    (hash_bucket_id (sp_bucket_count s) i = hash_bucket_id (sp_bucket_count s) j \<longleftrightarrow> i = j) \<and>
    ID L s (KString a) = ID L s (KString b)"
proof -
  have wf: "spec_wf s" and ax: "sp_axis s = AxisHash"
    using assms(1) by (auto dest: ParseSpec_spec_wf ParseSpec_axis)
  then have bc: "0 < sp_bucket_count s" "sp_bucket_count s < 2 ^ 63" by (simp_all add: spec_wf_def)
  have "length (hash_bucket_id (sp_bucket_count s) i) = length (hash_bucket_id (sp_bucket_count s) 0)"
    using bc assms by (simp add: length_hash_bucket_id)
  moreover have "hash_bucket_id (sp_bucket_count s) i = hash_bucket_id (sp_bucket_count s) j \<longleftrightarrow> i = j"
    using bc assms by (intro hash_ids.enc_eq_iff) (simp_all add: hash_slot_def)
  ultimately show ?thesis
    using assms ID_hash [OF wf ax] by (simp add: ToLower_def)
qed

definition demo_hash :: Spec where
  "demo_hash = (spec0 AxisHash (json_obj1 ''bucket_count'' ''16''))\<lparr>sp_bucket_count := 16, sp_hash_algo := ''xxhash64''\<rparr>"

lemma demo_hash_parse: "ParseSpec AxisHash (json_obj1 ''bucket_count'' ''16'') = Inr demo_hash"
  by code_simp

theorem hash_id_slot_witness:
  "ID demo_lib demo_hash (KString ''AbC'') = Inr ''h03'' \<and>
   ID demo_lib demo_hash (KString ''AbC'') = ID demo_lib demo_hash (KString ''aBc'')"
proof -
  have bc: "sp_bucket_count demo_hash = 16" by (simp add: demo_hash_def)
  have str: "stringifyKey demo_lib (KString ''AbC'') = Inr ''abc''" by code_simp
  have h: "uint (lib_xxhash demo_lib ''abc'') mod 16 = 3" by (simp add: demo_lib_def)
  have id: "hash_bucket_id 16 3 = ''h03''" by code_simp
  have asc: "is_ascii ''AbC''" "is_ascii ''aBc''" "map lower_char ''AbC'' = map lower_char ''aBc''"
    by code_simp+
  show ?thesis
    using hash_id_slot [OF demo_hash_parse str asc, of 0 0] unfolding bc h id by auto
qed

lemma time_days_year4:
  assumes "year4 (time_year t)"
  shows "- 719528 \<le> time_days t" and "time_days t < 2932897"
proof -
  let ?y = "time_year t" and ?n = "time_days t + epoch_days"
  have y: "0 \<le> ?y" "?y + 1 \<le> 10000" using assms by (simp_all add: year4_def)
  have "days_before_year ?y \<le> ?n" "?n < days_before_year (?y + 1)"
    using year_of_days_bounds [of ?n] by (simp_all add: time_year_def civil_of_days_def Let_def)
  moreover have "days_before_year 0 \<le> days_before_year ?y" "days_before_year (?y + 1) \<le> days_before_year 10000"
    using y by (simp_all add: days_before_year_mono)
  moreover have "days_before_year 0 = 0" "days_before_year 10000 = 3652425"
    by (simp_all add: days_before_year_def)
  ultimately show "- 719528 \<le> time_days t" and "time_days t < 2932897"
    by (simp_all add: epoch_days_def)
qed

lemma Unix_hour_bounds:
  assumes "year4 (time_year t)"
  shows "- 719528 * 24 \<le> Unix_of t div 3600" and "Unix_of t div 3600 < 2932897 * 24"
  using time_days_year4 [OF assms] hour_of_hour [of t] time_field_bounds(5,6) [of t] by linarith+

lemma int64_ok_hours: "- 719528 * 24 \<le> x \<Longrightarrow> x < 2932897 * 24 \<Longrightarrow> int64_ok (x * 3600)"
  unfolding int64_ok_def by simp

lemma IDFromIndex_unit_index:
  assumes "time_supported s t"
  shows "IDFromIndex s (unit_index (sp_unit s) t) = Inr (timeID s t)"
proof -
  have y: "year4 (time_year t)" and ax: "sp_axis s = AxisTime"
    and u: "sp_unit s \<in> {UnitHour, UnitDay, UnitMonth}"
    using assms by (auto simp: time_supported_def spec_wf_def)
  consider (hour) "sp_unit s = UnitHour" | (day) "sp_unit s = UnitDay" | (month) "sp_unit s = UnitMonth"
    using u by blast
  then show ?thesis
  proof cases
    case hour
    let ?h = "Unix_of t div 3600"
    have "wrap64 (?h * 3600) = ?h * 3600"
      using Unix_hour_bounds [OF y] by (intro wrap64_id int64_ok_hours)
    moreover have "timeID s (time_Unix (?h * 3600) 0) = timeID s t"
      by (rule timeID_unit_index) (simp add: hour unit_index_def second_ns_def)
    ultimately show ?thesis using ax hour by (simp add: IDFromIndex_def unit_index_def timeID_def)
  next
    case day
    let ?d = "time_days t"
    have "wrap64 (?d * 86400) = ?d * 86400"
      using time_days_year4 [OF y] by (intro wrap64_id) (simp add: int64_ok_def)
    moreover have "timeID s (time_Unix (?d * 86400) 0) = timeID s t"
      by (rule timeID_unit_index) (simp add: day unit_index_def time_days_def [of "time_Unix _ _"] second_ns_def)
    ultimately show ?thesis using ax day by (simp add: IDFromIndex_def unit_index_def timeID_def)
  next
    case month
    have m: "1 \<le> time_month t" "time_month t \<le> 12" by (rule time_field_bounds)+
    have y0: "0 \<le> time_year t" using y by (simp add: year4_def)
    have e: "time_year t * 12 + time_month t - 1 = (time_month t - 1) + time_year t * 12" by simp
    have "(time_month t - 1) div 12 = 0" "(time_month t - 1) mod 12 = time_month t - 1" using m by simp_all
    then have "go_quot (time_year t * 12 + time_month t - 1) 12 = time_year t"
      "go_rem (time_year t * 12 + time_month t - 1) 12 + 1 = time_month t"
      unfolding e using m y0 by (simp_all add: go_quot_nonneg go_rem_nonneg)
    moreover have "wrap64 (time_month t) = time_month t"
      using m by (intro wrap64_id) (simp add: int64_ok_def)
    ultimately show ?thesis
      using month ax y0 m
      by (simp add: IDFromIndex_def unit_index_def timeID_def layout_month_def time_Format_def
          Sprintf_0d_def appendInt_def)
  qed
qed

text \<open>
  C27: on the time axis, for an accepted specification and instants of the years 0 to 9999,
  \<open>Index\<close> reads back the number of the hour, day or month that \<open>timeID\<close> prints,
  \<open>IDFromIndex\<close> prints the same identifier from that number, and a later instant is in the same
  bucket or in one with a greater number.
\<close>

theorem time_index_roundtrip:
  assumes "ParseSpec AxisTime raw = Inr s" and "year4 (time_year t)" and "year4 (time_year t')" and "t \<le> t'"
  shows "Index s (timeID s t) = Inr (unit_index (sp_unit s) t) \<and>
    IDFromIndex s (unit_index (sp_unit s) t) = Inr (timeID s t) \<and>
    (timeID s t = timeID s t' \<or> unit_index (sp_unit s) t < unit_index (sp_unit s) t')"
proof -
  have sup: "time_supported s t" "time_supported s t'"
    using assms ParseSpec_spec_wf [OF assms(1)] ParseSpec_axis [OF assms(1)]
    by (simp_all add: time_supported_def)
  then show ?thesis
    using periods.idx_tid IDFromIndex_unit_index periods.later_bucket [OF sup assms(4)] by blast
qed

definition json_str :: "string \<Rightarrow> string" where
  "json_str s = [CHR 0x22] @ s @ [CHR 0x22]"

definition demo_month :: Spec where
  "demo_month = (spec0 AxisTime (json_obj1 ''unit'' (json_str ''month'')))\<lparr>sp_unit := UnitMonth\<rparr>"

lemma demo_month_parse: "ParseSpec AxisTime (json_obj1 ''unit'' (json_str ''month'')) = Inr demo_month"
  by code_simp

theorem time_index_roundtrip_witness:
  "Index demo_month ''2026-08'' = Inr (2026 * 12 + 7) \<and> IDFromIndex demo_month (2026 * 12 + 7) = Inr ''2026-08''"
proof -
  let ?t = "time_Unix 1786017600 0"
  have t: "timeID demo_month ?t = ''2026-08''" "unit_index (sp_unit demo_month) ?t = 2026 * 12 + 7"
    "year4 (time_year ?t)"
    by code_simp+
  show ?thesis using time_index_roundtrip [OF demo_month_parse t(3) t(3)] unfolding t by simp
qed

text \<open>
  An integer key \<open>v\<close> with 32503680000 \<open><\<close> \<open>v\<close> \<open>\<le>\<close> 32536800000 is taken as seconds, so it
  names a bucket of the year 3000 or later, although the documentation puts the switch to
  milliseconds at 32503680000.
\<close>

lemma time_key_between_thresholds:
  assumes "sp_axis s = AxisTime" and "32503680000 < v" and "v \<le> 32536800000"
  shows "ID L s (KInt64 v) = Inr (timeID s (time_Unix v 0)) \<and> 3000 \<le> time_year (time_Unix v 0)"
proof -
  have "time_Unix 32503680000 0 \<le> time_Unix v 0" using assms by (simp add: time_Unix_def second_ns_def)
  then have "unit_index UnitMonth (time_Unix 32503680000 0) \<le> unit_index UnitMonth (time_Unix v 0)"
    by (rule unit_index_mono)
  moreover have "unit_index UnitMonth (time_Unix 32503680000 0) = 36000" by code_simp
  ultimately have "36000 \<le> time_year (time_Unix v 0) * 12 + time_month (time_Unix v 0) - 1"
    by (simp add: unit_index_def)
  then have "3000 \<le> time_year (time_Unix v 0)" using time_field_bounds(2) [of "time_Unix v 0"] by linarith
  then show ?thesis using assms by (simp add: ID_def unix_key_def unixSecondsYear3000_def)
qed

lemma time_key_between_thresholds_example:
  "ID demo_lib demo_month (KInt64 32510000000) = Inr ''3000-03'' \<and> 3000 \<le> time_year (time_Unix 32510000000 0)"
proof -
  have "sp_axis demo_month = AxisTime" by (simp add: demo_month_def spec0_def)
  moreover have "timeID demo_month (time_Unix 32510000000 0) = ''3000-03''" by code_simp
  ultimately show ?thesis
    using time_key_between_thresholds [of demo_month 32510000000 demo_lib] by simp
qed

end
