(* ===== verification/Fsm.thy ===== *)
theory Fsm
  imports GoStrings
begin

text \<open>
  \<^verbatim>\<open>internal/fsm/fsm.go\<close>: the states and roles of a shard, the transitions that a state patch may
  request and the states with which a shard may join. Go's named string types become
  datatypes with one constructor per constant and one for every other string.
\<close>

datatype State =
    StateStandby | StateActive | StateDraining | StateSealed | StateCleaning | StateOther string

datatype Role = RoleData | RoleError | RoleOther string

definition state_string :: "State \<Rightarrow> string" where
  "state_string st = (case st of
     StateStandby \<Rightarrow> ''standby'' | StateActive \<Rightarrow> ''active'' | StateDraining \<Rightarrow> ''draining''
   | StateSealed \<Rightarrow> ''sealed'' | StateCleaning \<Rightarrow> ''cleaning'' | StateOther s \<Rightarrow> s)"

definition state_of_string :: "string \<Rightarrow> State" where
  "state_of_string s =
    (if s = ''standby'' then StateStandby else if s = ''active'' then StateActive
     else if s = ''draining'' then StateDraining else if s = ''sealed'' then StateSealed
     else if s = ''cleaning'' then StateCleaning else StateOther s)"

definition role_string :: "Role \<Rightarrow> string" where
  "role_string r = (case r of RoleData \<Rightarrow> ''data'' | RoleError \<Rightarrow> ''error'' | RoleOther s \<Rightarrow> s)"

definition role_of_string :: "string \<Rightarrow> Role" where
  "role_of_string s = (if s = ''data'' then RoleData else if s = ''error'' then RoleError else RoleOther s)"

definition known_state :: "State \<Rightarrow> bool" where
  "known_state st = (case st of StateOther _ \<Rightarrow> False | _ \<Rightarrow> True)"

definition known_role :: "Role \<Rightarrow> bool" where
  "known_role r = (case r of RoleOther _ \<Rightarrow> False | _ \<Rightarrow> True)"

definition dataTransitions :: "(State \<times> (State \<times> bool) list) list" where
  "dataTransitions =
    [(StateStandby, [(StateActive, True)]),
     (StateActive, [(StateDraining, True), (StateSealed, True)]),
     (StateDraining, [(StateSealed, True)]),
     (StateSealed, [(StateCleaning, True)]),
     (StateCleaning, [(StateStandby, True)])]"

definition CanTransition :: "Role \<Rightarrow> State \<Rightarrow> State \<Rightarrow> bool" where
  "CanTransition role from to =
    (if role = RoleError then
       from = to \<or> (from = StateStandby \<and> to = StateActive) \<or> to = StateActive
     else case map_of dataTransitions from of
       None \<Rightarrow> False
     | Some allowed \<Rightarrow> (case map_of allowed to of None \<Rightarrow> False | Some b \<Rightarrow> b))"

definition ValidateTransition :: "Role \<Rightarrow> State \<Rightarrow> State \<Rightarrow> unit res" where
  "ValidateTransition role from to =
    (if \<not> CanTransition role from to then Inl (ErrMsg ''invalid transition'') else Inr ())"

definition StartupStateAllowed :: "State \<Rightarrow> bool" where
  "StartupStateAllowed state \<longleftrightarrow> state = StateOther [] \<or> state = StateStandby"

lemma known_simps [simp]:
  "known_state StateStandby" "known_state StateActive" "known_state StateDraining"
  "known_state StateSealed" "known_state StateCleaning" "\<not> known_state (StateOther x)"
  "known_role RoleData" "known_role RoleError" "\<not> known_role (RoleOther x)"
  by (simp_all add: known_state_def known_role_def)

section \<open>Strings and states\<close>

text \<open>Strings and states are two spellings of the same values: the conversion loses nothing.\<close>

lemma state_string_of_string [simp]: "state_string (state_of_string s) = s"
  by (simp add: state_string_def state_of_string_def)

lemma role_string_of_string [simp]: "role_string (role_of_string s) = s"
  by (simp add: role_string_def role_of_string_def)

definition state_canonical :: "State \<Rightarrow> bool" where
  "state_canonical st \<longleftrightarrow> state_of_string (state_string st) = st"

definition role_canonical :: "Role \<Rightarrow> bool" where
  "role_canonical r \<longleftrightarrow> role_of_string (role_string r) = r"

interpretation state_strings: codec state_string "\<lambda>s. Some (state_of_string s)" state_canonical
  by unfold_locales (simp add: state_canonical_def)

interpretation role_strings: codec role_string "\<lambda>s. Some (role_of_string s)" role_canonical
  by unfold_locales (simp add: role_canonical_def)

lemma known_canonical: "known_state st \<Longrightarrow> state_canonical st" "known_role r \<Longrightarrow> role_canonical r"
  by (cases st; simp add: known_state_def state_canonical_def state_string_def state_of_string_def)
    (cases r; simp add: known_role_def role_canonical_def role_string_def role_of_string_def)

section \<open>The transition relation\<close>

lemma CanTransition_data:
  assumes "r \<noteq> RoleError"
  shows "CanTransition r from to \<longleftrightarrow> (from, to) \<in>
    {(StateStandby, StateActive), (StateActive, StateDraining), (StateActive, StateSealed),
     (StateDraining, StateSealed), (StateSealed, StateCleaning), (StateCleaning, StateStandby)}"
  using assms by (auto simp: CanTransition_def dataTransitions_def split: if_splits)

lemma CanTransition_error: "CanTransition RoleError from to \<longleftrightarrow> from = to \<or> to = StateActive"
  by (auto simp: CanTransition_def)

lemma CanTransition_known: "CanTransition r from to \<Longrightarrow> known_state from \<Longrightarrow> known_state to"
  by (cases "r = RoleError") (auto simp: CanTransition_error CanTransition_data known_state_def)

text \<open>The life cycle of a data shard: one round visits every state, and only sealing may skip draining.\<close>

inductive lifecycle :: "Role \<Rightarrow> State \<Rightarrow> State \<Rightarrow> bool" for r where
  lc_refl: "lifecycle r st st"
| lc_step: "lifecycle r st st' \<Longrightarrow> CanTransition r st' st'' \<Longrightarrow> lifecycle r st st''"

lemma lifecycle_trans: "lifecycle r b c \<Longrightarrow> lifecycle r a b \<Longrightarrow> lifecycle r a c"
  by (induction rule: lifecycle.induct) (auto intro: lc_step)

lemma lifecycle_data_cycle:
  assumes "r \<noteq> RoleError" and "known_state a" and "known_state b"
  shows "lifecycle r a b"
proof -
  note t = CanTransition_data [OF assms(1)]
  have one: "CanTransition r x y \<Longrightarrow> lifecycle r x y" for x y using lc_refl lc_step by blast
  have fwd: "lifecycle r StateStandby x" if "known_state x" for x
  proof -
    have "lifecycle r StateStandby StateActive" by (rule one) (simp add: t)
    moreover from this have s: "lifecycle r StateStandby StateSealed" by (rule lc_step) (simp add: t)
    moreover from s have "lifecycle r StateStandby StateCleaning" by (rule lc_step) (simp add: t)
    moreover have "lifecycle r StateStandby StateDraining"
      by (rule lc_step [OF one, of StateStandby StateActive]) (simp_all add: t)
    ultimately show ?thesis using that lc_refl by (cases x) (simp_all add: known_state_def)
  qed
  have bwd: "lifecycle r x StateStandby" if "known_state x" for x
  proof -
    have c: "lifecycle r StateCleaning StateStandby" by (rule one) (simp add: t)
    have s: "lifecycle r StateSealed StateStandby"
      by (rule lifecycle_trans [OF c one]) (simp add: t)
    have a: "lifecycle r StateActive StateStandby"
      and d: "lifecycle r StateDraining StateStandby"
      by (rule lifecycle_trans [OF s one], simp add: t)+
    show ?thesis using that a c d s lc_refl by (cases x) (simp_all add: known_state_def)
  qed
  show ?thesis using lifecycle_trans fwd [OF assms(3)] bwd [OF assms(2)] by blast
qed

lemma lifecycle_error_active: "lifecycle RoleError st st' \<Longrightarrow> st = StateActive \<Longrightarrow> st' = StateActive"
  by (induction rule: lifecycle.induct) (auto simp: CanTransition_error)

end
