(* ===== verification/Store.thy ===== *)
theory Store
  imports Bucket Fsm
begin

text \<open>
  \<^verbatim>\<open>internal/store/store.go\<close>: the metadata store over PostgreSQL. The tables are lists of rows in
  heap order. Every round trip to the database consumes one entry of an oracle that says what
  other sessions committed since the previous round trip, whether the call fails (before or after
  the server applied it), the transaction time, the locked rows and the next sequence value. A
  transaction takes effect atomically at its commit; a statement that fails inside a
  transaction aborts it, as PostgreSQL does.
\<close>

section \<open>Rows and tables\<close>

type_synonym uuid = string

record Shard =
  sh_id :: int
  sh_uuid :: uuid
  sh_role :: Role
  sh_bucket :: "string option"
  sh_state :: State
  sh_dsn :: string
  sh_advertise :: "string option"
  sh_reported :: int
  sh_max_bytes :: "int option"
  sh_last_seen :: "gtime option"
  sh_sealed_at :: "gtime option"
  sh_drain_started :: "gtime option"
  sh_drain_ready :: bool
  sh_version :: int

record ClusterConfig =
  cc_mode :: string
  cc_axis :: Axis
  cc_spec :: Spec
  cc_raw :: string
  cc_max_bytes :: int
  cc_retention :: "int option"
  cc_future :: "int option"

text \<open>The row of \<open>cluster_config\<close>, of \<open>shard_events\<close>, and the three tables.\<close>

record config_row =
  cr_mode :: string
  cr_axis :: string
  cr_spec :: string
  cr_max_bytes :: int
  cr_retention :: "int option"
  cr_future :: "int option"
  cr_version :: int

record event_row =
  ev_shard :: int
  ev_bucket :: string
  ev_type :: string

record db =
  db_config :: "config_row option"
  db_shards :: "Shard list"
  db_events :: "event_row list"

definition empty_db :: db where
  "empty_db = \<lparr>db_config = None, db_shards = [], db_events = []\<rparr>"

text \<open>The number of characters of a UTF-8 byte string: its bytes that do not continue a character.\<close>

definition char_len :: "string \<Rightarrow> nat" where
  "char_len s = length (filter (\<lambda>c. \<not> (128 \<le> char_code c \<and> char_code c < 192)) s)"

definition int32_opt :: "int option \<Rightarrow> bool" where
  "int32_opt v = (case v of None \<Rightarrow> True | Some x \<Rightarrow> - (2 ^ 31) \<le> x \<and> x < 2 ^ 31)"

definition data_in :: "State \<Rightarrow> string \<Rightarrow> Shard \<Rightarrow> bool" where
  "data_in st b sh \<longleftrightarrow> sh_role sh = RoleData \<and> sh_bucket sh = Some b \<and> sh_state sh = st"

definition pool_row :: "Shard \<Rightarrow> bool" where
  "pool_row sh \<longleftrightarrow> sh_role sh = RoleData \<and> sh_state sh = StateStandby \<and> sh_bucket sh = None"

definition active_row :: "Shard \<Rightarrow> bool" where
  "active_row sh \<longleftrightarrow> sh_role sh = RoleData \<and> sh_state sh = StateActive \<and> sh_bucket sh \<noteq> None"

definition shard_row_ok :: "Shard \<Rightarrow> bool" where
  "shard_row_ok sh \<longleftrightarrow> known_role (sh_role sh) \<and> known_state (sh_state sh) \<and>
     (case sh_bucket sh of None \<Rightarrow> True | Some b \<Rightarrow> char_len b \<le> 64) \<and> int64_ok (sh_version sh)"

definition config_row_ok :: "config_row \<Rightarrow> bool" where
  "config_row_ok c \<longleftrightarrow> char_len (cr_mode c) \<le> 32 \<and> char_len (cr_axis c) \<le> 16 \<and>
     int32_opt (cr_retention c) \<and> int32_opt (cr_future c) \<and> int64_ok (cr_version c)"

text \<open>The constraints of the two migrations: keys, unique indexes, checks and column types.\<close>

definition db_constraints :: "db \<Rightarrow> bool" where
  "db_constraints d \<longleftrightarrow>
     (case db_config d of None \<Rightarrow> True | Some c \<Rightarrow> config_row_ok c) \<and>
     list_all shard_row_ok (db_shards d) \<and>
     key_unique sh_id (db_shards d) \<and> key_unique sh_uuid (db_shards d) \<and>
     key_unique sh_bucket (filter active_row (db_shards d)) \<and>
     at_most_one (\<lambda>sh. sh_role sh = RoleError) (db_shards d) \<and>
     list_all (\<lambda>e. ev_shard e \<in> sh_id ` set (db_shards d) \<and> char_len (ev_bucket e) \<le> 64) (db_events d)"

section \<open>The database connection\<close>

text \<open>
  PostgreSQL as far as the statements depend on it: the interval that a duration printed by Go
  denotes, the text of a document stored as \<open>jsonb\<close> (none when it is refused), which byte
  strings the server accepts as text, and the rounding of a time to the column's resolution.
\<close>

record pglib =
  pg_interval :: "int \<Rightarrow> int"
  pg_jsonb :: "string \<Rightarrow> string option"
  pg_text_ok :: "string \<Rightarrow> bool"
  pg_ts :: "gtime \<Rightarrow> gtime"

datatype fault = NoFault | FailBefore | FailAfter

record slot =
  sl_other :: "db \<Rightarrow> db"
  sl_fault :: fault
  sl_now :: gtime
  sl_locked :: "int \<Rightarrow> bool"
  sl_nextval :: int

record Store =
  st_heartbeatTimeout :: int
  st_pg :: pglib

record world =
  w_db :: db
  w_cache :: "ClusterConfig option"
  w_orc :: "nat \<Rightarrow> slot"
  w_pc :: nat
  w_aborted :: bool
  w_now :: gtime

text \<open>Fallible code over a state; the calls of the store run over the \<open>world\<close>.\<close>

type_synonym ('s, 'a) sio = "'s \<Rightarrow> 'a res \<times> 's"

type_synonym 'a io = "(world, 'a) sio"

definition return_io :: "'a \<Rightarrow> ('s, 'a) sio" where
  "return_io x w = (Inr x, w)"

definition fail_io :: "goerr \<Rightarrow> ('s, 'a) sio" where
  "fail_io e w = (Inl e, w)"

text \<open>\<open>catch_io m h k\<close> is \<open>x, err := m; if err != nil { h } ; k\<close>, and \<open>bind_io\<close> returns the error.\<close>

definition catch_io :: "('s, 'a) sio \<Rightarrow> (goerr \<Rightarrow> ('s, 'b) sio) \<Rightarrow> ('a \<Rightarrow> ('s, 'b) sio) \<Rightarrow> ('s, 'b) sio" where
  "catch_io m h k w = (case m w of (Inl e, w') \<Rightarrow> h e w' | (Inr x, w') \<Rightarrow> k x w')"

definition bind_io :: "('s, 'a) sio \<Rightarrow> ('a \<Rightarrow> ('s, 'b) sio) \<Rightarrow> ('s, 'b) sio" where
  "bind_io m k = catch_io m fail_io k"

text \<open>\<open>_, _ = m\<close>: the error is dropped.\<close>

definition ignore_io :: "('s, 'a) sio \<Rightarrow> ('s, unit) sio" where
  "ignore_io m = catch_io m (\<lambda>_. return_io ()) (\<lambda>_. return_io ())"

text \<open>\<open>for _, x := range xs { f x }\<close>, where an iteration that returns an error ends the function.\<close>

fun for_io :: "('a \<Rightarrow> ('s, unit) sio) \<Rightarrow> 'a list \<Rightarrow> ('s, unit) sio" where
  "for_io f [] = return_io ()"
| "for_io f (x # xs) = bind_io (f x) (\<lambda>_. for_io f xs)"

text \<open>A statement gives its result and the new tables, or nothing when the server refuses it.\<close>

type_synonym 'a stmt = "slot \<Rightarrow> gtime \<Rightarrow> db \<Rightarrow> ('a \<times> db) option"

definition run_stmt :: "Store \<Rightarrow> string list \<Rightarrow> 'a stmt \<Rightarrow> 'a stmt" where
  "run_stmt S args f sl now d = (if list_all (pg_text_ok (st_pg S)) args then f sl now d else None)"

text \<open>A statement of its own (\<open>pool.QueryRow\<close>, \<open>pool.Query\<close>, \<open>pool.Exec\<close>).\<close>

definition pool_stmt :: "Store \<Rightarrow> string list \<Rightarrow> 'a stmt \<Rightarrow> 'a io" where
  "pool_stmt S args f w =
    (let sl = w_orc w (w_pc w); d = sl_other sl (w_db w);
         w' = w\<lparr>w_pc := Suc (w_pc w), w_db := d\<rparr> in
     if sl_fault sl = FailBefore then (Inl ErrDB, w')
     else case run_stmt S args f sl (sl_now sl) d of
       None \<Rightarrow> (Inl ErrDB, w')
     | Some (x, d') \<Rightarrow>
         (if sl_fault sl = FailAfter then Inl ErrDB else Inr x, w'\<lparr>w_db := d'\<rparr>))"

text \<open>A statement inside a transaction; \<open>NOW()\<close> is the time at which the transaction began.\<close>

definition tx_stmt :: "Store \<Rightarrow> string list \<Rightarrow> 'a stmt \<Rightarrow> 'a io" where
  "tx_stmt S args f w =
    (let sl = w_orc w (w_pc w); w' = w\<lparr>w_pc := Suc (w_pc w)\<rparr> in
     if w_aborted w then (Inl ErrDB, w')
     else if sl_fault sl \<noteq> NoFault then (Inl ErrDB, w'\<lparr>w_aborted := True\<rparr>)
     else case run_stmt S args f sl (w_now w) (w_db w) of
       None \<Rightarrow> (Inl ErrDB, w'\<lparr>w_aborted := True\<rparr>)
     | Some (x, d') \<Rightarrow> (Inr x, w'\<lparr>w_db := d'\<rparr>))"

text \<open>How a transaction function ends: with a commit, or returning while the deferred rollback runs.\<close>

datatype 'a tx_end = Commit 'a | NoCommit 'a

definition run_tx :: "'a tx_end io \<Rightarrow> 'a io" where
  "run_tx body w =
    (let sl = w_orc w (w_pc w);
         w0 = w\<lparr>w_pc := Suc (w_pc w), w_db := sl_other sl (w_db w), w_aborted := False, w_now := sl_now sl\<rparr> in
     if sl_fault sl \<noteq> NoFault then (Inl ErrDB, w0)
     else case body w0 of
       (Inl e, w1) \<Rightarrow> (Inl e, w1\<lparr>w_db := w_db w0\<rparr>)
     | (Inr (NoCommit x), w1) \<Rightarrow> (Inr x, w1\<lparr>w_db := w_db w0\<rparr>)
     | (Inr (Commit x), w1) \<Rightarrow>
         (let sl1 = w_orc w1 (w_pc w1); w2 = w1\<lparr>w_pc := Suc (w_pc w1)\<rparr> in
          if w_aborted w1 \<or> sl_fault sl1 = FailBefore then (Inl ErrDB, w2\<lparr>w_db := w_db w0\<rparr>)
          else if sl_fault sl1 = FailAfter then (Inl ErrDB, w2)
          else (Inr x, w2)))"

section \<open>Statements\<close>

definition write_db :: "'a \<Rightarrow> db \<Rightarrow> ('a \<times> db) option" where
  "write_db x d = (if db_constraints d then Some (x, d) else None)"

definition select_rows :: "(gtime \<Rightarrow> Shard \<Rightarrow> bool) \<Rightarrow> (Shard list) stmt" where
  "select_rows P sl now d = Some (filter (P now) (db_shards d), d)"

definition select_by_id :: "(gtime \<Rightarrow> Shard \<Rightarrow> bool) \<Rightarrow> (Shard list) stmt" where
  "select_by_id P sl now d = Some (sort_key sh_id (filter (P now) (db_shards d)), d)"

definition first_row :: "'a list \<Rightarrow> 'a option" where
  "first_row xs = (case xs of [] \<Rightarrow> None | x # _ \<Rightarrow> Some x)"

definition select_row :: "(gtime \<Rightarrow> Shard \<Rightarrow> bool) \<Rightarrow> (Shard option) stmt" where
  "select_row P sl now d = Some (first_row (filter (P now) (db_shards d)), d)"

definition count_rows :: "(Shard \<Rightarrow> bool) \<Rightarrow> int stmt" where
  "count_rows P sl now d = Some (int (sql_count P (db_shards d)), d)"

text \<open>\<open>SELECT ... ORDER BY id LIMIT 1 FOR UPDATE SKIP LOCKED\<close> over the standby pool.\<close>

definition select_standby :: "(Shard option) stmt" where
  "select_standby sl now d = Some (first_row (sort_key sh_id
     (filter (\<lambda>sh. pool_row sh \<and> \<not> sl_locked sl (sh_id sh)) (db_shards d))), d)"

text \<open>\<open>UPDATE shards SET ... WHERE ...\<close>, with the number of affected rows.\<close>

definition update_shards :: "(Shard \<Rightarrow> bool) \<Rightarrow> (gtime \<Rightarrow> Shard \<Rightarrow> Shard) \<Rightarrow> int stmt" where
  "update_shards P f sl now d =
     write_db (int (sql_count P (db_shards d))) (d\<lparr>db_shards := sql_update P (f now) (db_shards d)\<rparr>)"

definition bump_config :: "config_row \<Rightarrow> config_row" where
  "bump_config c = c\<lparr>cr_version := cr_version c + 1\<rparr>"

definition bump_stmt :: "unit stmt" where
  "bump_stmt sl now d = write_db () (d\<lparr>db_config := map_option bump_config (db_config d)\<rparr>)"

definition insert_event :: "int \<Rightarrow> string \<Rightarrow> string \<Rightarrow> unit stmt" where
  "insert_event i b t sl now d =
     write_db () (d\<lparr>db_events := db_events d @ [\<lparr>ev_shard = i, ev_bucket = b, ev_type = t\<rparr>]\<rparr>)"

definition bumpTopologyVersionTx :: "Store \<Rightarrow> unit io" where
  "bumpTopologyVersionTx S = tx_stmt S [] bump_stmt"

section \<open>Configuration\<close>

definition New :: "int \<Rightarrow> pglib \<Rightarrow> Store" where
  "New heartbeatTimeout pg =
    \<lparr>st_heartbeatTimeout = (if heartbeatTimeout \<le> 0 then 60 * second_ns else heartbeatTimeout),
     st_pg = pg\<rparr>"

definition storeConfigCache :: "ClusterConfig option \<Rightarrow> world \<Rightarrow> world" where
  "storeConfigCache cfg w = w\<lparr>w_cache := cfg\<rparr>"

definition InvalidateConfigCache :: "world \<Rightarrow> world" where
  "InvalidateConfigCache w = w\<lparr>w_cache := None\<rparr>"

definition cache_io :: "ClusterConfig \<Rightarrow> 'a \<Rightarrow> 'a io" where
  "cache_io cfg x w = (Inr x, storeConfigCache (Some cfg) w)"

definition insert_config :: "Store \<Rightarrow> ClusterConfig \<Rightarrow> unit stmt" where
  "insert_config S cfg sl now d =
    (case pg_jsonb (st_pg S) (cc_raw cfg) of None \<Rightarrow> None
     | Some js \<Rightarrow>
        if db_config d \<noteq> None then None
        else write_db () (d\<lparr>db_config := Some \<lparr>cr_mode = cc_mode cfg, cr_axis = axis_string (cc_axis cfg),
          cr_spec = js, cr_max_bytes = cc_max_bytes cfg, cr_retention = cc_retention cfg,
          cr_future = cc_future cfg, cr_version = 1\<rparr>\<rparr>))"

definition config_exists :: "bool stmt" where
  "config_exists sl now d = Some (db_config d \<noteq> None, d)"

definition bootstrap_tx :: "Store \<Rightarrow> ClusterConfig \<Rightarrow> ClusterConfig tx_end io" where
  "bootstrap_tx S cfg =
    bind_io (tx_stmt S [] config_exists) (\<lambda>ex.
      if ex then fail_io ErrAlreadyBootstrapped
      else case ParseSpec (cc_axis cfg) (cc_raw cfg) of
        Inl e \<Rightarrow> fail_io e
      | Inr spec \<Rightarrow>
          bind_io (tx_stmt S [cc_mode cfg, axis_string (cc_axis cfg)] (insert_config S cfg)) (\<lambda>_.
            return_io (Commit (cfg\<lparr>cc_spec := spec\<rparr>))))"

definition Bootstrap :: "Store \<Rightarrow> ClusterConfig \<Rightarrow> unit io" where
  "Bootstrap S cfg = bind_io (run_tx (bootstrap_tx S cfg)) (\<lambda>cfg'. cache_io cfg' ())"

definition select_config :: "(config_row option) stmt" where
  "select_config sl now d = Some (db_config d, d)"

definition config_of_row :: "config_row \<Rightarrow> ClusterConfig res" where
  "config_of_row c =
    (let axis = axis_of_string (cr_axis c) in
     case ParseSpec axis (cr_spec c) of Inl e \<Rightarrow> Inl e
     | Inr spec \<Rightarrow> Inr \<lparr>cc_mode = cr_mode c, cc_axis = axis, cc_spec = spec, cc_raw = cr_spec c,
         cc_max_bytes = cr_max_bytes c, cc_retention = cr_retention c, cc_future = cr_future c\<rparr>)"

definition loadConfigFromDB :: "Store \<Rightarrow> ClusterConfig io" where
  "loadConfigFromDB S =
    bind_io (pool_stmt S [] select_config) (\<lambda>row.
      case row of None \<Rightarrow> fail_io ErrNotBootstrapped
      | Some c \<Rightarrow> (case config_of_row c of Inl e \<Rightarrow> fail_io e | Inr cfg \<Rightarrow> return_io cfg))"

definition HeartbeatTimeout :: "Store \<Rightarrow> int" where
  "HeartbeatTimeout S = (if st_heartbeatTimeout S \<le> 0 then 60 * second_ns else st_heartbeatTimeout S)"

definition heartbeatIntervalParam :: "Store \<Rightarrow> int" where
  "heartbeatIntervalParam S = pg_interval (st_pg S) (HeartbeatTimeout S)"

text \<open>\<open>time.Time.Sub\<close> saturates at the largest and smallest duration.\<close>

definition time_Sub :: "gtime \<Rightarrow> gtime \<Rightarrow> int" where
  "time_Sub t u = max (- (2 ^ 63)) (min (2 ^ 63 - 1) (t - u))"

definition IsFresh :: "Store \<Rightarrow> Shard option \<Rightarrow> gtime \<Rightarrow> bool" where
  "IsFresh S sh now = (case sh of None \<Rightarrow> False
     | Some r \<Rightarrow> (case sh_last_seen r of None \<Rightarrow> False
        | Some t \<Rightarrow> time_Sub now t \<le> HeartbeatTimeout S))"

definition GetConfig :: "Store \<Rightarrow> ClusterConfig io" where
  "GetConfig S w = (case w_cache w of
     Some cfg \<Rightarrow> (Inr cfg, w)
   | None \<Rightarrow> bind_io (loadConfigFromDB S) (\<lambda>cfg. cache_io cfg cfg) w)"

section \<open>Registration and queries\<close>

definition row_or_not_found :: "Shard option \<Rightarrow> Shard io" where
  "row_or_not_found r = (case r of None \<Rightarrow> fail_io ErrNotFound | Some sh \<Rightarrow> return_io sh)"

definition ListShards :: "Store \<Rightarrow> (Shard list) io" where
  "ListShards S = pool_stmt S [] (select_by_id (\<lambda>_ _. True))"

definition GetShardByID :: "Store \<Rightarrow> int \<Rightarrow> Shard io" where
  "GetShardByID S i = bind_io (pool_stmt S [] (select_row (\<lambda>_ sh. sh_id sh = i))) row_or_not_found"

definition GetShardByUUID :: "Store \<Rightarrow> uuid \<Rightarrow> Shard io" where
  "GetShardByUUID S u = bind_io (pool_stmt S [] (select_row (\<lambda>_ sh. sh_uuid sh = u))) row_or_not_found"

definition GetErrorShard :: "Store \<Rightarrow> Shard io" where
  "GetErrorShard S = bind_io (pool_stmt S [] (select_row (\<lambda>_ sh. sh_role sh = RoleError))) row_or_not_found"

definition nullStr :: "string \<Rightarrow> string option" where
  "nullStr s = (if s = [] then None else Some s)"

definition opt_list :: "'a option \<Rightarrow> 'a list" where
  "opt_list v = (case v of None \<Rightarrow> [] | Some x \<Rightarrow> [x])"

definition reregister_row :: "string \<Rightarrow> string \<Rightarrow> gtime \<Rightarrow> Shard \<Rightarrow> Shard" where
  "reregister_row dsn url now sh =
     sh\<lparr>sh_dsn := dsn, sh_advertise := nullStr url, sh_last_seen := Some now\<rparr>"

definition new_row :: "int \<Rightarrow> uuid \<Rightarrow> Role \<Rightarrow> State \<Rightarrow> string \<Rightarrow> string \<Rightarrow> gtime \<Rightarrow> Shard" where
  "new_row i u role state dsn url now =
    \<lparr>sh_id = i, sh_uuid = u, sh_role = role, sh_bucket = None, sh_state = state, sh_dsn = dsn,
     sh_advertise = nullStr url, sh_reported = 0, sh_max_bytes = None, sh_last_seen = Some now,
     sh_sealed_at = None, sh_drain_started = None, sh_drain_ready = False, sh_version = 1\<rparr>"

text \<open>\<open>INSERT ... ON CONFLICT (shard_uuid) DO UPDATE ... RETURNING id\<close>; checks come before the conflict.\<close>

definition upsert_shard :: "uuid \<Rightarrow> Role \<Rightarrow> State \<Rightarrow> string \<Rightarrow> string \<Rightarrow> int stmt" where
  "upsert_shard u role state dsn url sl now d =
    (let row = new_row (sl_nextval sl) u role state dsn url now in
     if \<not> shard_row_ok row then None
     else case first_row (filter (\<lambda>sh. sh_uuid sh = u) (db_shards d)) of
       Some sh \<Rightarrow> write_db (sh_id sh)
         (d\<lparr>db_shards := sql_update (\<lambda>sh. sh_uuid sh = u) (reregister_row dsn url now) (db_shards d)\<rparr>)
     | None \<Rightarrow> write_db (sl_nextval sl) (d\<lparr>db_shards := db_shards d @ [row]\<rparr>))"

definition startup_state :: "Role \<Rightarrow> State \<Rightarrow> State" where
  "startup_state role startupState =
    (if role = RoleError then StateActive
     else if startupState = StateOther [] then StateStandby else startupState)"

definition register_tx :: "Store \<Rightarrow> uuid \<Rightarrow> Role \<Rightarrow> string \<Rightarrow> string \<Rightarrow> State \<Rightarrow> int tx_end io" where
  "register_tx S u role dsn url state =
    (let insert = bind_io (tx_stmt S ([role_string role, state_string state, dsn] @ opt_list (nullStr url))
           (upsert_shard u role state dsn url)) (\<lambda>i.
         bind_io (bumpTopologyVersionTx S) (\<lambda>_. return_io (Commit i))) in
     if role = RoleError then
       bind_io (tx_stmt S [] (count_rows (\<lambda>sh. sh_role sh = RoleError))) (\<lambda>cnt.
         if 0 < cnt then fail_io ErrConflict else insert)
     else insert)"

definition RegisterShard :: "Store \<Rightarrow> uuid \<Rightarrow> Role \<Rightarrow> string \<Rightarrow> string \<Rightarrow> State \<Rightarrow> Shard io" where
  "RegisterShard S u role dsn url startupState =
    (let state = startup_state role startupState in
     if \<not> StartupStateAllowed state \<and> role \<noteq> RoleError then fail_io (ErrMsg ''startup_state must be standby'')
     else bind_io (run_tx (register_tx S u role dsn url state)) (GetShardByID S))"

section \<open>Heartbeats and the rows of a bucket\<close>

definition fresh_row :: "Store \<Rightarrow> gtime \<Rightarrow> Shard \<Rightarrow> bool" where
  "fresh_row S now sh = (case sh_last_seen sh of None \<Rightarrow> False
     | Some t \<Rightarrow> now - heartbeatIntervalParam S \<le> t)"

definition stale_row :: "Store \<Rightarrow> gtime \<Rightarrow> Shard \<Rightarrow> bool" where
  "stale_row S now sh = (case sh_last_seen sh of None \<Rightarrow> True
     | Some t \<Rightarrow> t < now - heartbeatIntervalParam S)"

definition ActiveForBucket :: "Store \<Rightarrow> string \<Rightarrow> Shard io" where
  "ActiveForBucket S b = bind_io (pool_stmt S [b]
     (select_row (\<lambda>now sh. data_in StateActive b sh \<and> fresh_row S now sh))) row_or_not_found"

definition StaleActiveForBucket :: "Store \<Rightarrow> string \<Rightarrow> Shard io" where
  "StaleActiveForBucket S b = bind_io (pool_stmt S [b]
     (select_row (\<lambda>now sh. data_in StateActive b sh \<and> stale_row S now sh))) row_or_not_found"

definition ListStaleActives :: "Store \<Rightarrow> (Shard list) io" where
  "ListStaleActives S = pool_stmt S [] (select_by_id (\<lambda>now sh. active_row sh \<and> stale_row S now sh))"

definition ShardsForBucketRead :: "Store \<Rightarrow> string \<Rightarrow> (Shard list) io" where
  "ShardsForBucketRead S b = pool_stmt S [b] (select_by_id (\<lambda>now sh.
     sh_role sh = RoleData \<and> sh_bucket sh = Some b \<and>
     (sh_state sh = StateSealed \<or> sh_state sh = StateActive \<and> fresh_row S now sh)))"

definition StandbyPool :: "Store \<Rightarrow> (Shard list) io" where
  "StandbyPool S = pool_stmt S [] (select_by_id (\<lambda>_. pool_row))"

definition promote_row :: "string \<Rightarrow> gtime \<Rightarrow> Shard \<Rightarrow> Shard" where
  "promote_row b now sh = sh\<lparr>sh_bucket := Some b, sh_state := StateActive, sh_last_seen := Some now,
     sh_version := sh_version sh + 1\<rparr>"

definition promote_tx :: "Store \<Rightarrow> string \<Rightarrow> int tx_end io" where
  "promote_tx S b =
    bind_io (tx_stmt S [] select_standby) (\<lambda>row. case row of
      None \<Rightarrow> fail_io ErrNotFound
    | Some sh \<Rightarrow>
        bind_io (tx_stmt S [b] (update_shards (\<lambda>r. sh_id r = sh_id sh) (promote_row b))) (\<lambda>_.
        bind_io (bumpTopologyVersionTx S) (\<lambda>_. return_io (Commit (sh_id sh)))))"

definition PromoteStandbyToActive :: "Store \<Rightarrow> string \<Rightarrow> Shard io" where
  "PromoteStandbyToActive S b = bind_io (run_tx (promote_tx S b)) (GetShardByID S)"

section \<open>Sealing\<close>

definition seal_row :: "gtime \<Rightarrow> Shard \<Rightarrow> Shard" where
  "seal_row now sh = sh\<lparr>sh_state := StateSealed, sh_sealed_at := Some now, sh_version := sh_version sh + 1\<rparr>"

definition drain_seal_row :: "gtime \<Rightarrow> Shard \<Rightarrow> Shard" where
  "drain_seal_row now sh = sh\<lparr>sh_state := StateSealed, sh_sealed_at := Some now, sh_drain_ready := False,
     sh_version := sh_version sh + 1\<rparr>"

text \<open>
  The body that \<open>SealRotate\<close> and \<open>CompleteDrainSeal\<close> share: seal the row of the bucket that is in
  the state \<open>from\<close> and put a standby shard in its place when the pool has one.
\<close>

definition seal_tx :: "Store \<Rightarrow> State \<Rightarrow> (gtime \<Rightarrow> Shard \<Rightarrow> Shard) \<Rightarrow> string \<Rightarrow> string \<Rightarrow> unit tx_end io" where
  "seal_tx S from seal event b =
    bind_io (tx_stmt S [b] (select_row (\<lambda>_. data_in from b))) (\<lambda>row. case row of
      None \<Rightarrow> fail_io ErrNotFound
    | Some cur \<Rightarrow>
        bind_io (tx_stmt S [] (update_shards
            (\<lambda>r. sh_id r = sh_id cur \<and> sh_version r = sh_version cur) seal)) (\<lambda>n.
        if n = 0 then fail_io ErrConflict
        else bind_io (tx_stmt S [] select_standby) (\<lambda>row'. case row' of
          None \<Rightarrow> bind_io (bumpTopologyVersionTx S) (\<lambda>_. return_io (Commit ()))
        | Some sb \<Rightarrow>
            bind_io (tx_stmt S [b] (update_shards (\<lambda>r. sh_id r = sh_id sb) (promote_row b))) (\<lambda>_.
            bind_io (ignore_io (tx_stmt S [b] (insert_event (sh_id cur) b event))) (\<lambda>_.
            bind_io (bumpTopologyVersionTx S) (\<lambda>_. return_io (Commit ())))))))"

definition SealRotate :: "Store \<Rightarrow> string \<Rightarrow> unit io" where
  "SealRotate S b = run_tx (seal_tx S StateActive seal_row ''seal_rotate'' b)"

definition SetLastSeenAt :: "Store \<Rightarrow> uuid \<Rightarrow> gtime \<Rightarrow> unit io" where
  "SetLastSeenAt S u at = bind_io (pool_stmt S [] (update_shards (\<lambda>r. sh_uuid r = u)
     (\<lambda>_ r. r\<lparr>sh_last_seen := Some (pg_ts (st_pg S) at)\<rparr>))) (\<lambda>_. return_io ())"

definition stats_row :: "int \<Rightarrow> gtime \<Rightarrow> Shard \<Rightarrow> Shard" where
  "stats_row n now sh = sh\<lparr>sh_reported := n, sh_last_seen := Some now\<rparr>"

definition UpdateStats :: "Store \<Rightarrow> uuid \<Rightarrow> int \<Rightarrow> unit io" where
  "UpdateStats S u reportedBytes =
    bind_io (pool_stmt S [] (update_shards (\<lambda>r. sh_uuid r = u) (stats_row reportedBytes))) (\<lambda>n.
      if n = 0 then fail_io ErrNotFound else return_io ())"

definition patch_row :: "State \<Rightarrow> gtime \<Rightarrow> Shard \<Rightarrow> Shard" where
  "patch_row st now sh = sh\<lparr>sh_state := st, sh_version := sh_version sh + 1\<rparr>"

definition patch_tx :: "Store \<Rightarrow> int \<Rightarrow> State \<Rightarrow> unit tx_end io" where
  "patch_tx S i newState =
    bind_io (tx_stmt S [] (select_row (\<lambda>_ r. sh_id r = i))) (\<lambda>row. case row of
      None \<Rightarrow> fail_io ErrNotFound
    | Some cur \<Rightarrow> (case ValidateTransition (sh_role cur) (sh_state cur) newState of
        Inl e \<Rightarrow> fail_io e
      | Inr _ \<Rightarrow>
          bind_io (tx_stmt S [state_string newState] (update_shards
              (\<lambda>r. sh_id r = i \<and> sh_version r = sh_version cur) (patch_row newState))) (\<lambda>n.
          if n = 0 then fail_io ErrConflict
          else bind_io (bumpTopologyVersionTx S) (\<lambda>_. return_io (Commit ())))))"

definition PatchState :: "Store \<Rightarrow> int \<Rightarrow> State \<Rightarrow> unit io" where
  "PatchState S i newState = run_tx (patch_tx S i newState)"

section \<open>Cleaning\<close>

definition clean_row :: "gtime \<Rightarrow> Shard \<Rightarrow> Shard" where
  "clean_row now sh = sh\<lparr>sh_state := StateCleaning, sh_version := sh_version sh + 1\<rparr>"

definition clean_tx :: "Store \<Rightarrow> string \<Rightarrow> int tx_end io" where
  "clean_tx S b =
    bind_io (tx_stmt S [b] (update_shards (data_in StateSealed b) clean_row)) (\<lambda>n.
      if 0 < n then bind_io (bumpTopologyVersionTx S) (\<lambda>_. return_io (Commit n))
      else return_io (Commit n))"

definition MarkBucketCleaning :: "Store \<Rightarrow> string \<Rightarrow> int io" where
  "MarkBucketCleaning S b = run_tx (clean_tx S b)"

definition HasActiveInBucket :: "Store \<Rightarrow> string \<Rightarrow> bool io" where
  "HasActiveInBucket S b =
    bind_io (pool_stmt S [b] (count_rows (\<lambda>sh. data_in StateActive b sh \<or> data_in StateDraining b sh)))
      (\<lambda>n. return_io (0 < n))"

definition finish_row :: "gtime \<Rightarrow> Shard \<Rightarrow> Shard" where
  "finish_row now sh = sh\<lparr>sh_state := StateStandby, sh_bucket := None, sh_reported := 0,
     sh_sealed_at := None, sh_drain_started := None, sh_drain_ready := False,
     sh_version := sh_version sh + 1\<rparr>"

definition finish_tx :: "Store \<Rightarrow> uuid \<Rightarrow> unit tx_end io" where
  "finish_tx S u =
    bind_io (tx_stmt S [] (update_shards (\<lambda>r. sh_uuid r = u \<and> sh_state r = StateCleaning) finish_row)) (\<lambda>n.
      if n = 0 then return_io (NoCommit ())
      else bind_io (bumpTopologyVersionTx S) (\<lambda>_. return_io (Commit ())))"

definition FinishCleaning :: "Store \<Rightarrow> uuid \<Rightarrow> unit io" where
  "FinishCleaning S u = run_tx (finish_tx S u)"

definition distinct_buckets :: "(string list) stmt" where
  "distinct_buckets sl now d = Some (remdups (List.map_filter sh_bucket
     (filter (\<lambda>sh. sh_role sh = RoleData) (db_shards d))), d)"

definition DistinctBucketIDs :: "Store \<Rightarrow> (string list) io" where
  "DistinctBucketIDs S = pool_stmt S [] distinct_buckets"

definition needs_seal :: "int \<Rightarrow> Shard \<Rightarrow> bool" where
  "needs_seal defaultMax sh \<longleftrightarrow>
     (case sh_max_bytes sh of None \<Rightarrow> defaultMax | Some m \<Rightarrow> m) \<le> sh_reported sh"

definition ShardsNeedingSeal :: "Store \<Rightarrow> int \<Rightarrow> (Shard list) io" where
  "ShardsNeedingSeal S defaultMax =
    bind_io (pool_stmt S [] (select_rows (\<lambda>_ sh. sh_role sh = RoleData \<and> sh_state sh = StateActive)))
      (\<lambda>rows. return_io (filter (needs_seal defaultMax) rows))"

definition CountStandbyPool :: "Store \<Rightarrow> int io" where
  "CountStandbyPool S = pool_stmt S [] (count_rows pool_row)"

definition AutoPromoteIfNoActive :: "Store \<Rightarrow> string \<Rightarrow> (Shard option) io" where
  "AutoPromoteIfNoActive S b =
    catch_io (ActiveForBucket S b)
      (\<lambda>e. if e \<noteq> ErrNotFound then fail_io e
        else bind_io (HasActiveInBucket S b) (\<lambda>busy.
          if busy then fail_io ErrNotFound
          else catch_io (StaleActiveForBucket S b)
            (\<lambda>e. if e \<noteq> ErrNotFound then fail_io e
              else bind_io (PromoteStandbyToActive S b) (\<lambda>sh. return_io (Some sh)))
            (\<lambda>_. fail_io ErrNotFound)))
      (\<lambda>_. return_io None)"

definition Endpoint :: "Shard \<Rightarrow> string" where
  "Endpoint sh = (case sh_advertise sh of Some u \<Rightarrow> if u \<noteq> [] then u else sh_dsn sh | None \<Rightarrow> sh_dsn sh)"

section \<open>Topology version and draining\<close>

definition GetTopologyVersion :: "Store \<Rightarrow> int io" where
  "GetTopologyVersion S = bind_io (pool_stmt S [] select_config) (\<lambda>row. case row of
     None \<Rightarrow> fail_io ErrNotBootstrapped | Some c \<Rightarrow> return_io (cr_version c))"

definition BumpTopologyVersion :: "Store \<Rightarrow> unit io" where
  "BumpTopologyVersion S = pool_stmt S [] bump_stmt"

definition drain_row :: "gtime \<Rightarrow> Shard \<Rightarrow> Shard" where
  "drain_row now sh = sh\<lparr>sh_state := StateDraining, sh_drain_started := Some now, sh_drain_ready := False,
     sh_version := sh_version sh + 1\<rparr>"

definition drain_tx :: "Store \<Rightarrow> string \<Rightarrow> unit tx_end io" where
  "drain_tx S b =
    bind_io (tx_stmt S [b] (update_shards (data_in StateActive b) drain_row)) (\<lambda>n.
      if n = 0 then fail_io ErrNotFound
      else bind_io (bumpTopologyVersionTx S) (\<lambda>_. return_io (Commit ())))"

definition BeginDrain :: "Store \<Rightarrow> string \<Rightarrow> unit io" where
  "BeginDrain S b = run_tx (drain_tx S b)"

definition ready_row :: "gtime \<Rightarrow> Shard \<Rightarrow> Shard" where
  "ready_row now sh = sh\<lparr>sh_drain_ready := True, sh_version := sh_version sh + 1\<rparr>"

definition MarkDrainReady :: "Store \<Rightarrow> uuid \<Rightarrow> unit io" where
  "MarkDrainReady S u =
    bind_io (pool_stmt S [] (update_shards (\<lambda>r. sh_uuid r = u \<and> sh_state r = StateDraining) ready_row)) (\<lambda>n.
      if n = 0 then fail_io ErrNotFound else return_io ())"

definition ShardsDraining :: "Store \<Rightarrow> (Shard list) io" where
  "ShardsDraining S =
     pool_stmt S [] (select_rows (\<lambda>_ sh. sh_role sh = RoleData \<and> sh_state sh = StateDraining))"

definition CompleteDrainSeal :: "Store \<Rightarrow> string \<Rightarrow> unit io" where
  "CompleteDrainSeal S b = run_tx (seal_tx S StateDraining drain_seal_row ''drain_seal'' b)"

end
