(* ===== verification/Cluster.thy ===== *)
theory Cluster
  imports Store
begin

text \<open>
  The contract of the metadata store. A cluster is its configuration and a finite map from
  shard identifiers to rows, without heap order, faults or transactions; one rule per kind of
  committed change says what the store may do to it. The invariants are proved by induction over
  these rules; the refinement in the next theory carries them to the store's operations.
\<close>

section \<open>Clusters and their steps\<close>

record cluster =
  cl_config :: "config_row option"
  cl_shards :: "int \<Rightarrow> Shard option"

definition upd :: "(Shard \<Rightarrow> bool) \<Rightarrow> (Shard \<Rightarrow> Shard) \<Rightarrow> cluster \<Rightarrow> cluster" where
  "upd P f c = c\<lparr>cl_shards := (\<lambda>i. map_option (\<lambda>sh. if P sh then f sh else sh) (cl_shards c i))\<rparr>"

definition put :: "int \<Rightarrow> Shard \<Rightarrow> cluster \<Rightarrow> cluster" where
  "put i sh c = c\<lparr>cl_shards := (cl_shards c)(i := Some sh)\<rparr>"

definition bump :: "cluster \<Rightarrow> cluster" where
  "bump c = c\<lparr>cl_config := map_option bump_config (cl_config c)\<rparr>"

definition some_row :: "(Shard \<Rightarrow> bool) \<Rightarrow> cluster \<Rightarrow> bool" where
  "some_row P c \<longleftrightarrow> (\<exists>i sh. cl_shards c i = Some sh \<and> P sh)"

text \<open>What the constraints of the schema say about a cluster.\<close>

definition cl_unique :: "(Shard \<Rightarrow> Shard \<Rightarrow> bool) \<Rightarrow> cluster \<Rightarrow> bool" where
  "cl_unique R c \<longleftrightarrow> (\<forall>i j a b. cl_shards c i = Some a \<longrightarrow> cl_shards c j = Some b \<longrightarrow> R a b \<longrightarrow> i = j)"

definition cl_ok :: "cluster \<Rightarrow> bool" where
  "cl_ok c \<longleftrightarrow>
     (\<forall>i sh. cl_shards c i = Some sh \<longrightarrow> sh_id sh = i \<and> shard_row_ok sh) \<and>
     cl_unique (\<lambda>a b. sh_uuid a = sh_uuid b) c \<and>
     cl_unique (\<lambda>a b. active_row a \<and> active_row b \<and> sh_bucket a = sh_bucket b) c \<and>
     cl_unique (\<lambda>a b. sh_role a = RoleError \<and> sh_role b = RoleError) c"

text \<open>
  The label of a promotion says whether it raced: whether a draining shard still held the bucket.
\<close>

datatype label =
    LBootstrap | LRegister | LReregister | LPromote bool | LSeal | LDrainSeal | LSeen | LStats
  | LPatch | LClean | LFinish | LBump | LDrain | LReady

inductive astep :: "label \<Rightarrow> cluster \<Rightarrow> cluster \<Rightarrow> bool" where
  as_bootstrap: "cl_config c = None \<Longrightarrow> cr_version r = 1 \<Longrightarrow>
     astep LBootstrap c (c\<lparr>cl_config := Some r\<rparr>)"
| as_register: "cl_shards c i = None \<Longrightarrow> role = RoleData \<and> st = StateStandby \<or> role = RoleError \<and> st = StateActive \<Longrightarrow>
     astep LRegister c (bump (put i (new_row i u role st dsn url now) c))"
| as_reregister:
    "astep LReregister c (bump (upd (\<lambda>sh. sh_uuid sh = u) (reregister_row dsn url now) c))"
| as_promote: "cl_shards c i = Some sh \<Longrightarrow> pool_row sh \<Longrightarrow>
     astep (LPromote (some_row (data_in StateDraining b) c)) c (bump (put i (promote_row b now sh) c))"
| as_seal: "cl_shards c i = Some sh \<Longrightarrow> data_in StateActive b sh \<Longrightarrow>
     astep LSeal c (bump (put i (seal_row now sh) c))"
| as_seal_rotate: "cl_shards c i = Some sh \<Longrightarrow> data_in StateActive b sh \<Longrightarrow>
     cl_shards c j = Some sb \<Longrightarrow> pool_row sb \<Longrightarrow>
     astep LSeal c (bump (put j (promote_row b now sb) (put i (seal_row now sh) c)))"
| as_drain_seal: "cl_shards c i = Some sh \<Longrightarrow> data_in StateDraining b sh \<Longrightarrow>
     astep LDrainSeal c (bump (put i (drain_seal_row now sh) c))"
| as_drain_seal_rotate: "cl_shards c i = Some sh \<Longrightarrow> data_in StateDraining b sh \<Longrightarrow>
     cl_shards c j = Some sb \<Longrightarrow> pool_row sb \<Longrightarrow>
     astep LDrainSeal c (bump (put j (promote_row b now sb) (put i (drain_seal_row now sh) c)))"
| as_seen: "astep LSeen c (upd (\<lambda>sh. sh_uuid sh = u) (\<lambda>sh. sh\<lparr>sh_last_seen := Some t\<rparr>) c)"
| as_stats: "astep LStats c (upd (\<lambda>sh. sh_uuid sh = u) (stats_row n now) c)"
| as_patch: "cl_shards c i = Some sh \<Longrightarrow> CanTransition (sh_role sh) (sh_state sh) st \<Longrightarrow>
     astep LPatch c (bump (put i (patch_row st now sh) c))"
| as_clean: "astep LClean c (bump (upd (data_in StateSealed b) (clean_row now) c))"
| as_finish:
    "astep LFinish c (bump (upd (\<lambda>sh. sh_uuid sh = u \<and> sh_state sh = StateCleaning) (finish_row now) c))"
| as_bump: "astep LBump c (bump c)"
| as_drain: "astep LDrain c (bump (upd (data_in StateActive b) (drain_row now) c))"
| as_ready: "astep LReady c (upd (\<lambda>sh. sh_uuid sh = u \<and> sh_state sh = StateDraining) (ready_row now) c)"

text \<open>A step that the database accepts, and runs of steps with labels from \<open>L\<close>.\<close>

definition cstep :: "label set \<Rightarrow> cluster \<Rightarrow> cluster \<Rightarrow> bool" where
  "cstep L c c' \<longleftrightarrow> (\<exists>l \<in> L. astep l c c') \<and> cl_ok c'"

definition csteps :: "label set \<Rightarrow> cluster \<Rightarrow> cluster \<Rightarrow> bool" where
  "csteps L = (cstep L)\<^sup>*\<^sup>*"

lemma csteps_refl [simp, intro]: "csteps L c c"
  by (simp add: csteps_def)

lemma csteps_trans: "csteps L a b \<Longrightarrow> csteps L b c \<Longrightarrow> csteps L a c"
  by (simp add: csteps_def)

lemma csteps_one: "astep l c c' \<Longrightarrow> l \<in> L \<Longrightarrow> cl_ok c' \<Longrightarrow> csteps L c c'"
  unfolding csteps_def by (rule r_into_rtranclp) (auto simp: cstep_def)

lemma csteps_mono: "csteps L c c' \<Longrightarrow> L \<subseteq> M \<Longrightarrow> csteps M c c'"
  unfolding csteps_def by (erule rtranclp_mono [THEN predicate2D, rotated]) (unfold cstep_def, blast)

lemma csteps_induct [consumes 1, case_names refl step]:
  assumes "csteps L c c'" and "P c"
    and "\<And>l a b. csteps L c a \<Longrightarrow> P a \<Longrightarrow> l \<in> L \<Longrightarrow> astep l a b \<Longrightarrow> cl_ok b \<Longrightarrow> P b"
  shows "P c'"
  using assms(1) unfolding csteps_def
  by (induction rule: rtranclp_induct) (use assms(2,3) in \<open>auto simp: csteps_def cstep_def\<close>)

lemma csteps_cl_ok: "csteps L c c' \<Longrightarrow> cl_ok c \<Longrightarrow> cl_ok c'"
  by (induction rule: csteps_induct)

section \<open>What a step does to one row\<close>

inductive row_step :: "label \<Rightarrow> Shard \<Rightarrow> Shard \<Rightarrow> bool" where
  rs_keep: "row_step l sh sh"
| rs_reregister: "row_step LReregister sh (reregister_row dsn url now sh)"
| rs_promote: "pool_row sh \<Longrightarrow> l = LPromote racing \<or> l = LSeal \<or> l = LDrainSeal \<Longrightarrow>
    row_step l sh (promote_row b now sh)"
| rs_seal: "data_in StateActive b sh \<Longrightarrow> row_step LSeal sh (seal_row now sh)"
| rs_drain_seal: "data_in StateDraining b sh \<Longrightarrow> row_step LDrainSeal sh (drain_seal_row now sh)"
| rs_seen: "row_step LSeen sh (sh\<lparr>sh_last_seen := Some t\<rparr>)"
| rs_stats: "row_step LStats sh (stats_row n now sh)"
| rs_patch: "CanTransition (sh_role sh) (sh_state sh) st \<Longrightarrow> row_step LPatch sh (patch_row st now sh)"
| rs_clean: "data_in StateSealed b sh \<Longrightarrow> row_step LClean sh (clean_row now sh)"
| rs_finish: "sh_state sh = StateCleaning \<Longrightarrow> row_step LFinish sh (finish_row now sh)"
| rs_drain: "data_in StateActive b sh \<Longrightarrow> row_step LDrain sh (drain_row now sh)"
| rs_ready: "sh_state sh = StateDraining \<Longrightarrow> row_step LReady sh (ready_row now sh)"

lemmas cl_defs = upd_def put_def bump_def

lemma astep_row:
  assumes "astep l c c'" and "cl_shards c k = Some r"
  shows "\<exists>r'. cl_shards c' k = Some r' \<and> row_step l r r'"
  using assms by cases (auto simp: cl_defs intro: row_step.intros)

definition fresh_row_of :: "int \<Rightarrow> Shard \<Rightarrow> bool" where
  "fresh_row_of i sh \<longleftrightarrow> (\<exists>u dsn url now. sh = new_row i u RoleData StateStandby dsn url now \<or>
     sh = new_row i u RoleError StateActive dsn url now)"

lemma astep_new_row:
  assumes "astep l c c'" and "cl_shards c k = None" and "cl_shards c' k = Some r"
  shows "l = LRegister \<and> fresh_row_of k r"
  using assms by cases (auto simp: cl_defs fresh_row_of_def split: if_splits)

lemma astep_back:
  assumes "astep l c c'" and "cl_shards c' k = Some r'"
  shows "(\<exists>r. cl_shards c k = Some r \<and> row_step l r r') \<or> fresh_row_of k r'"
  using assms astep_row [OF assms(1)] astep_new_row [OF assms(1)]
  by (cases "cl_shards c k") fastforce+

section \<open>Invariants\<close>

lemmas row_defs = reregister_row_def promote_row_def seal_row_def drain_seal_row_def stats_row_def
  patch_row_def clean_row_def finish_row_def drain_row_def ready_row_def new_row_def

definition all_rows :: "(Shard \<Rightarrow> bool) \<Rightarrow> cluster \<Rightarrow> bool" where
  "all_rows P c \<longleftrightarrow> (\<forall>i sh. cl_shards c i = Some sh \<longrightarrow> P sh)"

text \<open>An invariant of rows: it holds of registered rows, and every step of a row keeps it.\<close>

lemma all_rows_csteps:
  assumes "csteps L c c'" and "all_rows P c"
    and "\<And>i sh. fresh_row_of i sh \<Longrightarrow> P sh"
    and "\<And>l sh sh'. l \<in> L \<Longrightarrow> row_step l sh sh' \<Longrightarrow> P sh \<Longrightarrow> P sh'"
  shows "all_rows P c'"
  using assms(1)
proof (induction rule: csteps_induct)
  case (step l a b)
  then show ?case using astep_back [OF step.hyps(3)] assms(3,4) unfolding all_rows_def by metis
qed (fact assms(2))

text \<open>The error shard is always active, outside every bucket, and no row has another role or state.\<close>

definition role_ok :: "Shard \<Rightarrow> bool" where
  "role_ok sh \<longleftrightarrow> (sh_role sh = RoleData \<and> known_state (sh_state sh)) \<or>
     (sh_role sh = RoleError \<and> sh_state sh = StateActive \<and> sh_bucket sh = None)"

lemma role_ok_new: "fresh_row_of i sh \<Longrightarrow> role_ok sh"
  by (auto simp: fresh_row_of_def role_ok_def new_row_def)

lemma role_ok_step: "row_step l sh sh' \<Longrightarrow> role_ok sh \<Longrightarrow> role_ok sh'"
  by (induction rule: row_step.induct)
    (auto simp: role_ok_def row_defs pool_row_def data_in_def CanTransition_error
      CanTransition_data)

lemmas role_ok_csteps = all_rows_csteps [OF _ _ role_ok_new role_ok_step]

text \<open>The life cycle without manual patches: the columns agree with the state.\<close>

definition life_ok :: "Shard \<Rightarrow> bool" where
  "life_ok sh \<longleftrightarrow> role_ok sh \<and>
     (sh_role sh = RoleData \<longrightarrow> (sh_state sh = StateStandby \<longleftrightarrow> sh_bucket sh = None)) \<and>
     (sh_state sh = StateDraining \<longrightarrow> sh_drain_started sh \<noteq> None) \<and>
     (sh_state sh \<in> {StateSealed, StateCleaning} \<longrightarrow> sh_sealed_at sh \<noteq> None) \<and>
     (sh_drain_ready sh \<longrightarrow> sh_state sh = StateDraining)"

lemma life_ok_new: "fresh_row_of i sh \<Longrightarrow> life_ok sh"
  by (frule role_ok_new) (auto simp: fresh_row_of_def life_ok_def new_row_def)

lemma life_ok_step: "row_step l sh sh' \<Longrightarrow> l \<noteq> LPatch \<Longrightarrow> life_ok sh \<Longrightarrow> life_ok sh'"
  by (induction rule: row_step.induct)
    (fastforce simp: life_ok_def role_ok_def row_defs pool_row_def data_in_def)+

text \<open>Identity never changes, states follow the transition table, and the version moves with them.\<close>

definition row_follows :: "Shard \<Rightarrow> Shard \<Rightarrow> bool" where
  "row_follows sh sh' \<longleftrightarrow> sh_id sh' = sh_id sh \<and> sh_uuid sh' = sh_uuid sh \<and> sh_role sh' = sh_role sh \<and>
     lifecycle (sh_role sh) (sh_state sh) (sh_state sh') \<and> sh_version sh \<le> sh_version sh' \<and>
     (sh_version sh' = sh_version sh \<longrightarrow>
        sh_state sh' = sh_state sh \<and> sh_bucket sh' = sh_bucket sh \<and> sh_drain_ready sh' = sh_drain_ready sh)"

lemma row_follows_refl: "row_follows sh sh"
  by (simp add: row_follows_def lc_refl)

lemma row_follows_trans: "row_follows a b \<Longrightarrow> row_follows b c \<Longrightarrow> row_follows a c"
  unfolding row_follows_def using lifecycle_trans [of "sh_role a" "sh_state b" "sh_state c" "sh_state a"] by auto

lemma lifecycle_one: "CanTransition r st st' \<Longrightarrow> lifecycle r st st'"
  using lc_refl lc_step by blast

lemma row_follows_step: "row_step l sh sh' \<Longrightarrow> role_ok sh \<Longrightarrow> row_follows sh sh'"
  by (induction rule: row_step.induct)
    (auto simp: row_follows_def row_defs pool_row_def data_in_def role_ok_def CanTransition_data
      intro: lc_refl lifecycle_one)

lemma csteps_row:
  assumes "csteps L c c'" and "all_rows role_ok c" and "cl_shards c i = Some sh"
  shows "\<exists>sh'. cl_shards c' i = Some sh' \<and> row_follows sh sh'"
  using assms(1)
proof (induction rule: csteps_induct)
  case refl
  then show ?case using assms(3) row_follows_refl by blast
next
  case (step l a b)
  then obtain r where r: "cl_shards a i = Some r" "row_follows sh r" by blast
  have "role_ok r"
    using role_ok_csteps [OF step.hyps(1) assms(2)] r(1) by (auto simp: all_rows_def)
  then show ?case
    using astep_row [OF step.hyps(3) r(1)] row_follows_step row_follows_trans [OF r(2)] by blast
qed

section \<open>The topology version\<close>

text \<open>What a router reads of a shard, apart from its heartbeat.\<close>

definition row_view :: "Shard \<Rightarrow> uuid \<times> Role \<times> string option \<times> State \<times> string \<times> string option" where
  "row_view sh = (sh_uuid sh, sh_role sh, sh_bucket sh, sh_state sh, sh_dsn sh, sh_advertise sh)"

definition cl_view :: "cluster \<Rightarrow> int \<Rightarrow> (uuid \<times> Role \<times> string option \<times> State \<times> string \<times> string option) option" where
  "cl_view c i = map_option row_view (cl_shards c i)"

definition config_follows :: "cluster \<Rightarrow> config_row \<Rightarrow> cluster \<Rightarrow> config_row \<Rightarrow> bool" where
  "config_follows c r c' r' \<longleftrightarrow> r'\<lparr>cr_version := 0\<rparr> = r\<lparr>cr_version := 0\<rparr> \<and> cr_version r \<le> cr_version r' \<and>
     (cr_version r' = cr_version r \<longrightarrow> cl_view c' = cl_view c)"

lemma config_follows_trans:
  "config_follows a r b r' \<Longrightarrow> config_follows b r' c r'' \<Longrightarrow> config_follows a r c r''"
  by (auto simp: config_follows_def)

lemma config_follows_bump: "config_follows c r c' (bump_config r)"
  by (simp add: config_follows_def bump_config_def)

lemma cl_view_upd: "(\<And>sh. row_view (f sh) = row_view sh) \<Longrightarrow> cl_view (upd P f c) = cl_view c"
proof
  fix i
  assume "\<And>sh. row_view (f sh) = row_view sh"
  then show "cl_view (upd P f c) i = cl_view c i"
    by (cases "cl_shards c i") (simp_all add: cl_view_def upd_def)
qed

lemma astep_config:
  assumes "astep l c c'" and "cl_config c = Some r"
  shows "\<exists>r'. cl_config c' = Some r' \<and> config_follows c r c' r'"
  using assms(1)
proof cases
  case as_bootstrap
  then show ?thesis using assms(2) by simp
next
  case (as_seen u t)
  have "cl_view c' = cl_view c" unfolding as_seen by (rule cl_view_upd) (simp add: row_view_def)
  then show ?thesis using assms(2) as_seen by (simp add: upd_def config_follows_def)
next
  case (as_stats u n now)
  have "cl_view c' = cl_view c" unfolding as_stats by (rule cl_view_upd) (simp add: row_view_def stats_row_def)
  then show ?thesis using assms(2) as_stats by (simp add: upd_def config_follows_def)
next
  case (as_ready u now)
  have "cl_view c' = cl_view c" unfolding as_ready by (rule cl_view_upd) (simp add: row_view_def ready_row_def)
  then show ?thesis using assms(2) as_ready by (simp add: upd_def config_follows_def)
qed (use assms(2) in \<open>simp_all add: cl_defs config_follows_bump\<close>)

lemma csteps_config:
  assumes "csteps L c c'" and "cl_config c = Some r"
  shows "\<exists>r'. cl_config c' = Some r' \<and> config_follows c r c' r'"
  using assms(1)
proof (induction rule: csteps_induct)
  case refl
  then show ?case using assms(2) by (simp add: config_follows_def)
next
  case (step l a b)
  then show ?case using astep_config [OF step.hyps(3)] config_follows_trans by blast
qed

section \<open>One writer per bucket\<close>

definition writes_to :: "string \<Rightarrow> Shard \<Rightarrow> bool" where
  "writes_to b sh \<longleftrightarrow> data_in StateActive b sh \<or> data_in StateDraining b sh"

definition one_writer :: "cluster \<Rightarrow> bool" where
  "one_writer c \<longleftrightarrow> (\<forall>b. cl_unique (\<lambda>x y. writes_to b x \<and> writes_to b y) c)"

lemma one_writer_bump [simp]: "one_writer (bump c) = one_writer c"
  by (simp add: one_writer_def cl_unique_def bump_def)

lemma one_writer_upd:
  assumes "one_writer c" and "\<And>b sh. P sh \<Longrightarrow> writes_to b (f sh) \<Longrightarrow> writes_to b sh"
  shows "one_writer (upd P f c)"
  using assms unfolding one_writer_def cl_unique_def upd_def
  by (auto split: if_splits) metis+

lemma one_writer_put:
  assumes "one_writer c" and "\<And>b. \<not> writes_to b sh"
  shows "one_writer (put i sh c)"
  using assms unfolding one_writer_def cl_unique_def put_def by auto

lemma one_writer_promote:
  assumes "one_writer c" and "\<And>k r. cl_shards c k = Some r \<Longrightarrow> writes_to b r \<Longrightarrow> k = i"
  shows "one_writer (put i (promote_row b now sh) c)"
proof -
  have "writes_to b' (promote_row b now sh) \<longleftrightarrow> sh_role sh = RoleData \<and> b' = b" for b'
    by (auto simp: writes_to_def data_in_def promote_row_def)
  then show ?thesis using assms unfolding one_writer_def cl_unique_def put_def by auto
qed

lemma cl_uniqueD:
  "cl_unique R c \<Longrightarrow> cl_shards c i = Some a \<Longrightarrow> cl_shards c j = Some b \<Longrightarrow> R a b \<Longrightarrow> i = j"
  unfolding cl_unique_def by blast

lemma cl_okD:
  assumes "cl_ok c"
  shows "cl_unique (\<lambda>a b. sh_uuid a = sh_uuid b) c"
    and "cl_unique (\<lambda>a b. active_row a \<and> active_row b \<and> sh_bucket a = sh_bucket b) c"
    and "cl_unique (\<lambda>a b. sh_role a = RoleError \<and> sh_role b = RoleError) c"
    and "cl_shards c i = Some sh \<Longrightarrow> sh_id sh = i \<and> shard_row_ok sh"
  using assms by (simp_all add: cl_ok_def)

lemma promote_no_writer:
  assumes "cl_ok (bump (put i (promote_row b now sh) c))" and "sh_role sh = RoleData"
    and "cl_shards c k = Some r" and "data_in StateActive b r"
  shows "k = i"
proof (rule ccontr)
  assume "k \<noteq> i"
  then have "cl_shards (bump (put i (promote_row b now sh) c)) k = Some r"
    and "cl_shards (bump (put i (promote_row b now sh) c)) i = Some (promote_row b now sh)"
    using assms(3) by (simp_all add: bump_def put_def)
  moreover have "active_row r \<and> active_row (promote_row b now sh) \<and>
      sh_bucket r = sh_bucket (promote_row b now sh)"
    using assms(2,4) by (simp add: active_row_def data_in_def promote_row_def)
  ultimately have "k = i" using cl_okD(2) [OF assms(1)] cl_uniqueD by blast
  with \<open>k \<noteq> i\<close> show False ..
qed

lemma one_writer_seal:
  assumes "one_writer c" and "cl_shards c i = Some sh" and "writes_to b sh"
    and "\<And>b. \<not> writes_to b sealed"
  shows "one_writer (put j (promote_row b now sb) (put i sealed c))"
proof (rule one_writer_promote)
  fix k r assume k: "cl_shards (put i sealed c) k = Some r" "writes_to b r"
  show "k = j"
  proof (cases "k = i")
    case False
    then show ?thesis using assms(1-3) k unfolding one_writer_def cl_unique_def put_def by auto
  qed (use k assms(4) in \<open>simp add: put_def\<close>)
qed (rule one_writer_put [OF assms(1,4)])

lemmas writer_defs = writes_to_def data_in_def row_defs

lemma one_writer_step:
  assumes "astep l c c'" and "cl_ok c'" and "one_writer c" and "l \<noteq> LPatch" and "l \<noteq> LPromote True"
  shows "one_writer c'"
  using assms(1)
proof cases
  case (as_bootstrap r)
  then show ?thesis using assms(3) by (simp add: one_writer_def cl_unique_def)
next
  case (as_promote i sh b now)
  have "one_writer (put i (promote_row b now sh) c)"
  proof (rule one_writer_promote [OF assms(3)])
    fix k r assume "cl_shards c k = Some r" "writes_to b r"
    moreover have "\<not> some_row (data_in StateDraining b) c" using assms(5) as_promote(1) by auto
    ultimately show "k = i"
      using promote_no_writer [of i b now sh c k r] assms(2) as_promote
      by (auto simp: writes_to_def some_row_def pool_row_def)
  qed
  then show ?thesis using as_promote by simp
next
  case (as_seal_rotate i sh b j sb now)
  then show ?thesis using one_writer_seal [OF assms(3), of i sh b] by (simp add: writer_defs)
next
  case (as_drain_seal_rotate i sh b j sb now)
  then show ?thesis using one_writer_seal [OF assms(3), of i sh b] by (simp add: writer_defs)
qed (use assms(3,4) in \<open>auto intro!: one_writer_put one_writer_upd simp: writer_defs\<close>)

lemma one_writer_csteps:
  assumes "csteps L c c'" and "one_writer c" and "LPatch \<notin> L" and "LPromote True \<notin> L"
  shows "one_writer c'"
  using assms(1)
proof (induction rule: csteps_induct)
  case (step l a b)
  then show ?case using one_writer_step [OF step.hyps(3,4)] assms(3,4) by metis
qed (fact assms(2))

end
