(* ===== verification/Refine.thy ===== *)
theory Refine
  imports Cluster "HOL-Library.Multiset"
begin

text \<open>
  The store implements the cluster contract. The locale \<open>guarantee\<close> holds the composition rules
  of the database calls for any preorder on the tables: if the other sessions respect the preorder
  then so does an operation built from statements and transactions that respect it. Its
  interpretation on runs of the cluster contract gives the refinement of every operation.
\<close>

section \<open>From tables to clusters\<close>

definition cluster_of :: "db \<Rightarrow> cluster" where
  "cluster_of d = \<lparr>cl_config = db_config d, cl_shards = map_of (map (\<lambda>sh. (sh_id sh, sh)) (db_shards d))\<rparr>"

lemma cluster_of_config [simp]: "cl_config (cluster_of d) = db_config d"
  by (simp add: cluster_of_def)

lemma map_of_rows:
  "key_unique sh_id rows \<Longrightarrow>
    map_of (map (\<lambda>sh. (sh_id sh, sh)) rows) i = Some sh \<longleftrightarrow> sh \<in> set rows \<and> sh_id sh = i"
  by (subst map_of_eq_Some_iff) (auto simp: key_unique_def comp_def)

lemma db_constraintsD:
  assumes "db_constraints d"
  shows "key_unique sh_id (db_shards d)" and "key_unique sh_uuid (db_shards d)"
    and "key_unique sh_bucket (filter active_row (db_shards d))"
    and "at_most_one (\<lambda>sh. sh_role sh = RoleError) (db_shards d)"
    and "sh \<in> set (db_shards d) \<Longrightarrow> shard_row_ok sh"
  using assms by (auto simp: db_constraints_def list_all_iff)

lemma cluster_of_lookup:
  "db_constraints d \<Longrightarrow> cl_shards (cluster_of d) i = Some sh \<longleftrightarrow> sh \<in> set (db_shards d) \<and> sh_id sh = i"
  by (simp add: cluster_of_def map_of_rows db_constraintsD)

lemma cluster_of_lookup_row: "db_constraints d \<Longrightarrow> sh \<in> set (db_shards d) \<Longrightarrow> cl_shards (cluster_of d) (sh_id sh) = Some sh"
  by (simp add: cluster_of_lookup)

lemma cluster_of_no_row: "cl_shards (cluster_of d) i = None \<longleftrightarrow> i \<notin> sh_id ` set (db_shards d)"
  by (simp add: cluster_of_def map_of_eq_None_iff image_image)

lemma cl_ok_cluster_of: "db_constraints d \<Longrightarrow> cl_ok (cluster_of d)"
proof -
  assume d: "db_constraints d"
  note u = db_constraintsD [OF d] and l = cluster_of_lookup [OF d]
  have "cl_unique (\<lambda>a b. sh_uuid a = sh_uuid b) (cluster_of d)"
    unfolding cl_unique_def l using key_unique_eq [OF u(2)] by blast
  moreover have "cl_unique (\<lambda>a b. active_row a \<and> active_row b \<and> sh_bucket a = sh_bucket b) (cluster_of d)"
    unfolding cl_unique_def l using key_unique_eq [OF u(3)] by auto
  moreover have "cl_unique (\<lambda>a b. sh_role a = RoleError \<and> sh_role b = RoleError) (cluster_of d)"
    unfolding cl_unique_def l using at_most_one_eq [OF u(4)] by blast
  ultimately show ?thesis unfolding cl_ok_def l using u(5) by blast
qed

lemma map_of_sql_update:
  assumes "\<And>sh. sh_id (f sh) = sh_id sh"
  shows "map_of (map (\<lambda>sh. (sh_id sh, sh)) (sql_update P f rows)) i =
    map_option (\<lambda>sh. if P sh then f sh else sh) (map_of (map (\<lambda>sh. (sh_id sh, sh)) rows) i)"
  by (induction rows) (auto simp: assms)

lemma cluster_of_sql_update:
  assumes "\<And>sh. sh_id (f sh) = sh_id sh"
  shows "cluster_of (d\<lparr>db_shards := sql_update P f (db_shards d)\<rparr>) = upd P f (cluster_of d)"
  using map_of_sql_update [of f P "db_shards d", OF assms] by (auto simp: cluster_of_def upd_def)

lemma cluster_of_update_one:
  assumes "db_constraints d" and "sh \<in> set (db_shards d)" and "\<And>r. sh_id (f r) = sh_id r"
    and "P sh" and "\<And>r. P r \<Longrightarrow> sh_id r = sh_id sh"
  shows "cluster_of (d\<lparr>db_shards := sql_update P f (db_shards d)\<rparr>) = put (sh_id sh) (f sh) (cluster_of d)"
proof -
  have "upd P f (cluster_of d) = put (sh_id sh) (f sh) (cluster_of d)"
  proof -
    have "map_option (\<lambda>r. if P r then f r else r) (cl_shards (cluster_of d) i) =
      ((cl_shards (cluster_of d))(sh_id sh := Some (f sh))) i" for i
    proof (cases "cl_shards (cluster_of d) i")
      case (Some r)
      then have r: "r \<in> set (db_shards d)" "sh_id r = i" using assms(1) by (simp_all add: cluster_of_lookup)
      show ?thesis
      proof (cases "i = sh_id sh")
        case True
        then have "r = sh" using r key_unique_eq [OF db_constraintsD(1) [OF assms(1)] r(1) assms(2)] by simp
        then show ?thesis using Some True assms(4) by simp
      next
        case False
        then have "\<not> P r" using assms(5) r(2) by blast
        then show ?thesis using Some False by simp
      qed
    next
      case None
      then have "i \<noteq> sh_id sh" using cluster_of_lookup_row [OF assms(1,2)] by auto
      then show ?thesis using None by simp
    qed
    then have "(\<lambda>i. map_option (\<lambda>r. if P r then f r else r) (cl_shards (cluster_of d) i)) =
      (cl_shards (cluster_of d))(sh_id sh := Some (f sh))" by (rule ext)
    then show ?thesis by (simp only: upd_def put_def)
  qed
  then show ?thesis by (simp add: cluster_of_sql_update assms(3))
qed

lemma cluster_of_append:
  assumes "i \<notin> sh_id ` set (db_shards d)" and "sh_id sh = i"
  shows "cluster_of (d\<lparr>db_shards := db_shards d @ [sh]\<rparr>) = put i sh (cluster_of d)"
proof -
  have "map_of (map (\<lambda>sh. (sh_id sh, sh)) (db_shards d)) i = None"
    using assms(1) by (simp add: map_of_eq_None_iff image_image)
  then have "map_of (map (\<lambda>sh. (sh_id sh, sh)) (db_shards d @ [sh])) =
      (map_of (map (\<lambda>sh. (sh_id sh, sh)) (db_shards d)))(i := Some sh)"
    using assms(2) by (auto simp: map_add_def fun_eq_iff split: option.splits)
  then show ?thesis by (simp add: cluster_of_def put_def)
qed

lemma cluster_of_bump: "cluster_of (d\<lparr>db_config := map_option bump_config (db_config d)\<rparr>) = bump (cluster_of d)"
  by (simp add: cluster_of_def bump_def)

lemma cluster_of_events: "cluster_of (d\<lparr>db_events := es\<rparr>) = cluster_of d"
  by (simp add: cluster_of_def)

text \<open>Heap order is invisible: two heaps with the same rows are the same cluster.\<close>

lemma cluster_of_permute:
  assumes "db_constraints d" and "mset rows = mset (db_shards d)"
  shows "cluster_of (d\<lparr>db_shards := rows\<rparr>) = cluster_of d"
proof -
  have s: "set rows = set (db_shards d)" using assms(2) by (metis set_mset_mset)
  have "key_unique sh_id rows"
    using db_constraintsD(1) [OF assms(1)] assms(2) unfolding key_unique_def
    by (metis mset_map mset_eq_imp_distinct_iff)
  then have eq: "map_of (map (\<lambda>sh. (sh_id sh, sh)) rows) i = Some sh \<longleftrightarrow>
      map_of (map (\<lambda>sh. (sh_id sh, sh)) (db_shards d)) i = Some sh" for i sh
    by (simp add: map_of_rows db_constraintsD(1) [OF assms(1)] s)
  have "map_of (map (\<lambda>sh. (sh_id sh, sh)) rows) i = map_of (map (\<lambda>sh. (sh_id sh, sh)) (db_shards d)) i" for i
    using eq [of i] by (cases "map_of (map (\<lambda>sh. (sh_id sh, sh)) (db_shards d)) i") (simp, metis not_None_eq, simp)
  then have "map_of (map (\<lambda>sh. (sh_id sh, sh)) rows) = map_of (map (\<lambda>sh. (sh_id sh, sh)) (db_shards d))"
    by (rule ext)
  then show ?thesis by (simp add: cluster_of_def)
qed

section \<open>Composition of database calls\<close>

definition rely :: "(db \<Rightarrow> db \<Rightarrow> bool) \<Rightarrow> (nat \<Rightarrow> slot) \<Rightarrow> bool" where
  "rely G orc \<longleftrightarrow> (\<forall>n d. G d (sl_other (orc n) d))"

definition keeps :: "(db \<Rightarrow> db \<Rightarrow> bool) \<Rightarrow> 'a io \<Rightarrow> bool" where
  "keeps G m \<longleftrightarrow> (\<forall>w. rely G (w_orc w) \<longrightarrow> G (w_db w) (w_db (snd (m w))) \<and> w_orc (snd (m w)) = w_orc w)"

definition keeps_orc :: "'a io \<Rightarrow> bool" where
  "keeps_orc m \<longleftrightarrow> (\<forall>w. w_orc (snd (m w)) = w_orc w)"

named_theorems io_rules \<open>composition rules of database calls\<close>

lemma keeps_orc_return [io_rules]: "keeps_orc (return_io x)"
  by (simp add: keeps_orc_def return_io_def)

lemma keeps_orc_fail [io_rules]: "keeps_orc (fail_io e)"
  by (simp add: keeps_orc_def fail_io_def)

lemma keeps_orc_tx [io_rules]: "keeps_orc (tx_stmt S args f)"
  by (simp add: keeps_orc_def tx_stmt_def Let_def split: option.split)

lemma keeps_orc_catch [io_rules]:
  "keeps_orc m \<Longrightarrow> (\<And>e. keeps_orc (h e)) \<Longrightarrow> (\<And>x. keeps_orc (k x)) \<Longrightarrow> keeps_orc (catch_io m h k)"
  unfolding keeps_orc_def catch_io_def by (simp split: prod.split sum.split) (metis snd_conv)

lemma keeps_orc_bind [io_rules]: "keeps_orc m \<Longrightarrow> (\<And>x. keeps_orc (k x)) \<Longrightarrow> keeps_orc (bind_io m k)"
  unfolding bind_io_def by (intro io_rules)

lemma keeps_orc_ignore [io_rules]: "keeps_orc m \<Longrightarrow> keeps_orc (ignore_io m)"
  unfolding ignore_io_def by (intro io_rules)

lemma keeps_orc_bump [io_rules]: "keeps_orc (bumpTopologyVersionTx S)"
  unfolding bumpTopologyVersionTx_def by (rule io_rules)

text \<open>How a statement or a composition can succeed.\<close>

lemma io_Inr [simp]:
  "return_io x w = (Inr y, w') \<longleftrightarrow> x = y \<and> w = w'"
  "fail_io e w \<noteq> (Inr y, w')"
  by (auto simp: return_io_def fail_io_def)

lemma bind_io_Inr:
  "bind_io m k w = (Inr y, w') \<longleftrightarrow> (\<exists>x w1. m w = (Inr x, w1) \<and> k x w1 = (Inr y, w'))"
  by (auto simp: bind_io_def catch_io_def fail_io_def split: prod.splits sum.splits)

lemma ignore_io_Inr: "ignore_io m w = (Inr y, w') \<longleftrightarrow> snd (m w) = w'"
  by (auto simp: ignore_io_def catch_io_def return_io_def split: prod.splits sum.splits)

lemma tx_stmt_Inr:
  "tx_stmt S args f w = (Inr x, w') \<longleftrightarrow>
    (\<exists>d'. \<not> w_aborted w \<and> sl_fault (w_orc w (w_pc w)) = NoFault \<and> list_all (pg_text_ok (st_pg S)) args \<and>
      f (w_orc w (w_pc w)) (w_now w) (w_db w) = Some (x, d') \<and>
      w' = w\<lparr>w_pc := Suc (w_pc w), w_db := d'\<rparr>)"
  by (auto simp: tx_stmt_def run_stmt_def Let_def split: option.splits)

text \<open>After a statement whose error was dropped the transaction only goes on when it succeeded.\<close>

lemma tx_stmt_not_aborted:
  assumes "snd (tx_stmt S args f w) = w'" and "\<not> w_aborted w'"
  shows "\<exists>x. tx_stmt S args f w = (Inr x, w')"
  using assms by (auto simp: tx_stmt_def Let_def split: option.splits if_splits)

lemmas stmt_defs = update_shards_def bump_stmt_def insert_event_def write_db_def select_row_def select_rows_def
  select_by_id_def select_standby_def count_rows_def select_config_def config_exists_def distinct_buckets_def

lemma write_db_Some: "write_db x d = Some (y, d') \<longleftrightarrow> db_constraints d \<and> y = x \<and> d' = d"
  by (auto simp: write_db_def)

locale guarantee =
  fixes G :: "db \<Rightarrow> db \<Rightarrow> bool"
  assumes G_refl: "G d d"
    and G_trans: "G d d' \<Longrightarrow> G d' d'' \<Longrightarrow> G d d''"
begin

lemma keeps_return: "keeps G (return_io x)"
  by (simp add: keeps_def return_io_def G_refl)

lemma keeps_fail: "keeps G (fail_io e)"
  by (simp add: keeps_def fail_io_def G_refl)

lemma keeps_cache: "keeps G (cache_io cfg x)"
  by (simp add: keeps_def cache_io_def storeConfigCache_def G_refl)

lemma keeps_catch:
  assumes "keeps G m" and "\<And>e. keeps G (h e)" and "\<And>x. keeps G (k x)"
  shows "keeps G (catch_io m h k)"
  unfolding keeps_def
proof (intro allI impI)
  fix w :: world assume r: "rely G (w_orc w)"
  obtain x w1 where m: "m w = (x, w1)" by fastforce
  have 1: "G (w_db w) (w_db w1)" "w_orc w1 = w_orc w"
    using assms(1) r m unfolding keeps_def by (metis snd_conv)+
  define n where "n = (case x of Inl e \<Rightarrow> h e | Inr y \<Rightarrow> k y)"
  have "keeps G n" using assms(2,3) by (simp add: n_def split: sum.split)
  then have "G (w_db w1) (w_db (snd (n w1)))" "w_orc (snd (n w1)) = w_orc w1"
    using r 1(2) unfolding keeps_def by metis+
  moreover have "catch_io m h k w = n w1" by (simp add: catch_io_def m n_def split: sum.split)
  ultimately show "G (w_db w) (w_db (snd (catch_io m h k w))) \<and> w_orc (snd (catch_io m h k w)) = w_orc w"
    using G_trans [OF 1(1)] 1(2) by simp
qed

lemma keeps_bind: "keeps G m \<Longrightarrow> (\<And>x. keeps G (k x)) \<Longrightarrow> keeps G (bind_io m k)"
  unfolding bind_io_def by (intro keeps_catch keeps_fail)

lemma keeps_pool:
  assumes "\<And>sl now d x d'. f sl now d = Some (x, d') \<Longrightarrow> G d d'"
  shows "keeps G (pool_stmt S args f)"
  unfolding keeps_def pool_stmt_def rely_def Let_def run_stmt_def
  by (auto split: option.split) (metis assms G_trans)

lemma keeps_query: "(\<And>sl now d. \<exists>x. f sl now d = Some (x, d)) \<Longrightarrow> keeps G (pool_stmt S args f)"
  by (rule keeps_pool) (metis G_refl option.inject prod.inject)

lemma keeps_tx:
  assumes "\<And>w x w'. body w = (Inr (Commit x), w') \<Longrightarrow> \<not> w_aborted w' \<Longrightarrow> G (w_db w) (w_db w')"
    and "keeps_orc body"
  shows "keeps G (run_tx body)"
  unfolding keeps_def
proof (intro allI impI)
  fix w :: world assume r: "rely G (w_orc w)"
  define sl where "sl = w_orc w (w_pc w)"
  define w0 where "w0 = w\<lparr>w_pc := Suc (w_pc w), w_db := sl_other sl (w_db w), w_aborted := False, w_now := sl_now sl\<rparr>"
  have 0: "G (w_db w) (w_db w0)" "w_orc w0 = w_orc w" using r by (simp_all add: w0_def rely_def sl_def)
  obtain x w1 where b: "body w0 = (x, w1)" by fastforce
  have 1: "w_orc w1 = w_orc w" using assms(2) b 0(2) unfolding keeps_orc_def by (metis snd_conv)
  have c: "G (w_db w) (w_db w1)" if "x = Inr (Commit y)" "\<not> w_aborted w1" for y
    using assms(1) b that 0(1) G_trans by blast
  show "G (w_db w) (w_db (snd (run_tx body w))) \<and> w_orc (snd (run_tx body w)) = w_orc w"
    using 0 1 c by (auto simp: run_tx_def Let_def sl_def [symmetric] w0_def [symmetric] b
        split: sum.split tx_end.split)
qed

end

section \<open>The operations refine the contract\<close>

definition db_steps :: "label set \<Rightarrow> db \<Rightarrow> db \<Rightarrow> bool" where
  "db_steps L d d' \<longleftrightarrow>
     (db_constraints d \<longrightarrow> db_constraints d' \<and> csteps L (cluster_of d) (cluster_of d'))"

interpretation contract: guarantee "db_steps L" for L
  by unfold_locales (auto simp: db_steps_def intro: csteps_trans)

lemma db_stepsI:
  assumes "\<And>a b. db_constraints d \<Longrightarrow> a = cluster_of d \<Longrightarrow> b = cluster_of d' \<Longrightarrow> \<exists>l \<in> L. astep l a b"
    and "db_constraints d'"
  shows "db_steps L d d'"
  unfolding db_steps_def using assms csteps_one cl_ok_cluster_of by blast

lemma key_unique_mset: "mset rows = mset rows' \<Longrightarrow> key_unique k rows = key_unique k rows'"
  unfolding key_unique_def by (metis mset_map mset_eq_imp_distinct_iff)

lemma db_steps_permute:
  assumes "mset rows = mset (db_shards d)"
  shows "db_steps L d (d\<lparr>db_shards := rows\<rparr>)"
proof -
  have s: "set rows = set (db_shards d)" using assms by (metis set_mset_mset)
  have f: "mset (filter P rows) = mset (filter P (db_shards d))" for P using assms by (simp add: mset_filter)
  have "sql_count P rows = sql_count P (db_shards d)" for P
    unfolding sql_count_def using f by (metis size_mset)
  then have "db_constraints (d\<lparr>db_shards := rows\<rparr>) = db_constraints d"
    using s key_unique_mset [OF assms, of sh_id] key_unique_mset [OF assms, of sh_uuid]
      key_unique_mset [OF f, of sh_bucket active_row]
    by (simp add: db_constraints_def list_all_iff at_most_one_def)
  then show ?thesis using cluster_of_permute [OF _ assms] by (simp add: db_steps_def)
qed

lemma first_row_Some: "first_row xs = Some x \<Longrightarrow> x \<in> set xs"
  by (auto simp: first_row_def split: list.splits)

lemma first_row_simps [simp]: "first_row [] = None" "first_row (x # xs) = Some x"
  by (simp_all add: first_row_def)

lemma first_row_None [simp]: "first_row xs = None \<longleftrightarrow> xs = []"
  by (simp add: first_row_def split: list.split)

lemma id_row_defs [simp]:
  "sh_id (promote_row b now sh) = sh_id sh" "sh_id (seal_row now sh) = sh_id sh"
  "sh_id (drain_seal_row now sh) = sh_id sh" "sh_id (stats_row n now sh) = sh_id sh"
  "sh_id (patch_row st now sh) = sh_id sh" "sh_id (clean_row now sh) = sh_id sh"
  "sh_id (finish_row now sh) = sh_id sh" "sh_id (drain_row now sh) = sh_id sh"
  "sh_id (ready_row now sh) = sh_id sh" "sh_id (reregister_row dsn url now sh) = sh_id sh"
  by (simp_all add: row_defs)

lemma update_shards_Some:
  "update_shards P f sl now d = Some (x, d') \<longleftrightarrow>
    db_constraints (d\<lparr>db_shards := sql_update P (f now) (db_shards d)\<rparr>) \<and>
    x = int (sql_count P (db_shards d)) \<and> d' = d\<lparr>db_shards := sql_update P (f now) (db_shards d)\<rparr>"
  by (auto simp: update_shards_def write_db_Some)

lemma bump_stmt_Some:
  "bump_stmt sl now d = Some (x, d') \<longleftrightarrow>
    db_constraints (d\<lparr>db_config := map_option bump_config (db_config d)\<rparr>) \<and>
    d' = d\<lparr>db_config := map_option bump_config (db_config d)\<rparr>"
  by (auto simp: bump_stmt_def write_db_Some)

lemma select_row_Some:
  "select_row P sl now d = Some (x, d') \<longleftrightarrow> x = first_row (filter (P now) (db_shards d)) \<and> d' = d"
  by (auto simp: select_row_def)

lemma select_standby_Some:
  "select_standby sl now d = Some (Some sh, d') \<Longrightarrow>
    d' = d \<and> sh \<in> set (db_shards d) \<and> pool_row sh"
  by (auto simp: select_standby_def dest!: first_row_Some)

lemmas tx_simps = bind_io_Inr tx_stmt_Inr bumpTopologyVersionTx_def update_shards_Some bump_stmt_Some
  select_row_Some

lemma cluster_of_upd_bump:
  assumes "\<And>r. sh_id (f r) = sh_id r"
  shows "cluster_of (d\<lparr>db_shards := sql_update P f (db_shards d),
    db_config := map_option bump_config (db_config d)\<rparr>) = bump (upd P f (cluster_of d))"
  using cluster_of_bump [of "d\<lparr>db_shards := sql_update P f (db_shards d)\<rparr>"]
  by (simp add: cluster_of_sql_update assms)

lemma cluster_of_put_bump:
  assumes "db_constraints d" and "sh \<in> set (db_shards d)" and "\<And>r. sh_id (f r) = sh_id r"
    and "P sh" and "\<And>r. P r \<Longrightarrow> sh_id r = sh_id sh"
  shows "cluster_of (d\<lparr>db_shards := sql_update P f (db_shards d),
    db_config := map_option bump_config (db_config d)\<rparr>) = bump (put (sh_id sh) (f sh) (cluster_of d))"
  using cluster_of_bump [of "d\<lparr>db_shards := sql_update P f (db_shards d)\<rparr>"] cluster_of_update_one [of d sh f P, OF assms]
  by simp

lemma promote_commit_label:
  assumes "promote_tx S b w = (Inr (Commit x), w')"
  shows "db_steps {LPromote (some_row (data_in StateDraining b) (cluster_of (w_db w)))} (w_db w) (w_db w')"
proof -
  let ?d = "w_db w"
  obtain sh where sh: "sh \<in> set (db_shards ?d)" "pool_row sh"
    and ok: "db_constraints (w_db w')"
    and w': "w_db w' = ?d\<lparr>db_shards := sql_update (\<lambda>r. sh_id r = sh_id sh) (promote_row b (w_now w)) (db_shards ?d),
      db_config := map_option bump_config (db_config ?d)\<rparr>"
    using assms unfolding promote_tx_def
    by (auto simp: tx_simps split: option.splits dest!: select_standby_Some)
  show ?thesis
  proof (rule db_stepsI [OF _ ok])
    fix a b' assume d: "db_constraints ?d" and ab: "a = cluster_of ?d" "b' = cluster_of (w_db w')"
    have "b' = bump (put (sh_id sh) (promote_row b (w_now w) sh) a)"
      unfolding w' ab by (rule cluster_of_put_bump [OF d sh(1)]) simp_all
    then show "\<exists>l \<in> {LPromote (some_row (data_in StateDraining b) (cluster_of ?d))}. astep l a b'"
      using as_promote [of a "sh_id sh" sh b "w_now w"] cluster_of_lookup_row [OF d sh(1)] sh(2) ab by simp
  qed
qed

lemma db_steps_mono: "db_steps L d d' \<Longrightarrow> L \<subseteq> M \<Longrightarrow> db_steps M d d'"
  using csteps_mono by (auto simp: db_steps_def)

lemma promote_commit:
  assumes "promote_tx S b w = (Inr (Commit x), w')"
  shows "db_steps {LPromote True, LPromote False} (w_db w) (w_db w')"
  by (rule db_steps_mono [OF promote_commit_label [OF assms]]) auto

text \<open>
  The event row of a rotation is written with its error dropped, but a failed statement aborts the
  transaction: the bump that follows only succeeds when the event was written.
\<close>

lemma ignore_then_stmt:
  "bind_io (ignore_io (tx_stmt S args f)) (\<lambda>_. bind_io (bumpTopologyVersionTx S) k) w = (Inr y, w') \<longleftrightarrow>
   bind_io (tx_stmt S args f) (\<lambda>_. bind_io (bumpTopologyVersionTx S) k) w = (Inr y, w')"
proof -
  have "w_aborted w1" if "tx_stmt S args f w = (Inl e, w1)" for e w1
    using that by (auto simp: tx_stmt_def Let_def split: option.splits if_splits)
  then show ?thesis
    by (cases "tx_stmt S args f w"; cases "fst (tx_stmt S args f w)")
      (auto simp: ignore_io_def bind_io_def catch_io_def return_io_def fail_io_def bumpTopologyVersionTx_def
        tx_stmt_def [of S "[]"] Let_def)
qed

lemma select_standby_iff:
  "select_standby sl now d = Some (x, d') \<longleftrightarrow> x = first_row (sort_key sh_id
     (filter (\<lambda>sh. pool_row sh \<and> \<not> sl_locked sl (sh_id sh)) (db_shards d))) \<and> d' = d"
  by (auto simp: select_standby_def)

lemma cluster_of_cong:
  "db_config d = db_config d' \<Longrightarrow> db_shards d = db_shards d' \<Longrightarrow> cluster_of d = cluster_of d'"
  by (simp add: cluster_of_def)

lemma insert_event_Some:
  "insert_event i b t sl now d = Some (x, d') \<longleftrightarrow>
     db_constraints d' \<and> d' = d\<lparr>db_events := db_events d @ [\<lparr>ev_shard = i, ev_bucket = b, ev_type = t\<rparr>]\<rparr>"
  by (auto simp: insert_event_def write_db_Some)

text \<open>The two sealing transactions, on both branches.\<close>

lemma seal_commit_cases:
  assumes "seal_tx S from seal event b w = (Inr (Commit x), w')" and "\<And>now r. sh_id (seal now r) = sh_id r"
  obtains cur where "cur \<in> set (db_shards (w_db w))" and "data_in from b cur" and "db_constraints (w_db w')"
    and "w_db w' = (w_db w)\<lparr>db_shards := sql_update
        (\<lambda>r. sh_id r = sh_id cur \<and> sh_version r = sh_version cur) (seal (w_now w)) (db_shards (w_db w)),
      db_config := map_option bump_config (db_config (w_db w))\<rparr>"
  | cur sb d1 es where "cur \<in> set (db_shards (w_db w))" and "data_in from b cur" and "db_constraints (w_db w')"
    and "d1 = (w_db w)\<lparr>db_shards := sql_update
        (\<lambda>r. sh_id r = sh_id cur \<and> sh_version r = sh_version cur) (seal (w_now w)) (db_shards (w_db w))\<rparr>"
    and "db_constraints d1" and "sb \<in> set (db_shards d1)" and "pool_row sb"
    and "w_db w' = d1\<lparr>db_shards := sql_update (\<lambda>r. sh_id r = sh_id sb) (promote_row b (w_now w)) (db_shards d1),
      db_events := es, db_config := map_option bump_config (db_config d1)\<rparr>"
  using assms(1) unfolding seal_tx_def
  apply (clarsimp simp: bind_io_Inr [of "tx_stmt S [b] (select_row _)"] tx_stmt_Inr select_row_Some
      split: option.splits dest!: first_row_Some)
  apply (clarsimp simp: bind_io_Inr [of "tx_stmt S [] (update_shards _ _)"] tx_stmt_Inr update_shards_Some
      split: if_splits)
  apply (clarsimp simp: bind_io_Inr [of "tx_stmt S [] select_standby"] tx_stmt_Inr select_standby_iff
      split: option.splits dest!: first_row_Some)
  subgoal by (clarsimp simp: tx_simps)
  subgoal by (clarsimp simp: bind_io_Inr [of "tx_stmt S [b] (update_shards _ _)"] ignore_then_stmt)
     (clarsimp simp: tx_simps insert_event_Some)
  done

lemma seal_commit:
  assumes tx: "seal_tx S from seal event b w = (Inr (Commit x), w')"
    and id: "\<And>now r. sh_id (seal now r) = sh_id r" and st: "\<And>now r. \<not> pool_row (seal now r)"
    and plain: "\<And>c i sh now. cl_shards c i = Some sh \<Longrightarrow> data_in from b sh \<Longrightarrow>
      astep l c (bump (put i (seal now sh) c))"
    and rotate: "\<And>c i sh now j sb. cl_shards c i = Some sh \<Longrightarrow> data_in from b sh \<Longrightarrow>
      cl_shards c j = Some sb \<Longrightarrow> pool_row sb \<Longrightarrow>
      astep l c (bump (put j (promote_row b now sb) (put i (seal now sh) c)))"
  shows "db_steps {l} (w_db w) (w_db w')"
  using tx id
proof (cases rule: seal_commit_cases)
  case (1 cur)
  show ?thesis
  proof (rule db_stepsI [OF _ 1(3)])
    fix a b' assume d: "db_constraints (w_db w)" and ab: "a = cluster_of (w_db w)" "b' = cluster_of (w_db w')"
    have "b' = bump (put (sh_id cur) (seal (w_now w) cur) a)"
      unfolding ab 1(4) by (rule cluster_of_put_bump [OF d 1(1)]) (simp_all add: id)
    then show "\<exists>l' \<in> {l}. astep l' a b'" using plain [OF _ 1(2)] cluster_of_lookup_row [OF d 1(1)] ab by simp
  qed
next
  case (2 cur sb d1 es)
  show ?thesis
  proof (rule db_stepsI [OF _ 2(3)])
    fix a b' assume d: "db_constraints (w_db w)" and ab: "a = cluster_of (w_db w)" "b' = cluster_of (w_db w')"
    have d1: "cluster_of d1 = put (sh_id cur) (seal (w_now w) cur) a"
      unfolding ab 2(4) by (rule cluster_of_update_one [OF d 2(1)]) (simp_all add: id)
    have "b' = bump (put (sh_id sb) (promote_row b (w_now w) sb) (cluster_of d1))"
      unfolding ab cluster_of_put_bump [OF 2(5,6), of "promote_row b (w_now w)" "\<lambda>r. sh_id r = sh_id sb",
          simplified, symmetric] by (rule cluster_of_cong) (simp_all add: 2(8))
    moreover have "cl_shards a (sh_id sb) = Some sb"
      using cluster_of_lookup_row [OF 2(5,6)] 2(7) st unfolding d1 put_def by (auto split: if_splits)
    ultimately show "\<exists>l' \<in> {l}. astep l' a b'"
      using rotate [OF _ 2(2)] cluster_of_lookup_row [OF d 2(1)] 2(7) d1 ab by simp
  qed
qed

lemma seal_row_not_pool: "\<not> pool_row (seal_row now sh)" "\<not> pool_row (drain_seal_row now sh)"
  by (simp_all add: pool_row_def row_defs)

lemma patch_commit:
  assumes "patch_tx S i st w = (Inr (Commit x), w')"
  shows "db_steps {LPatch} (w_db w) (w_db w')"
proof -
  let ?d = "w_db w"
  obtain cur where cur: "cur \<in> set (db_shards ?d)" "sh_id cur = i"
      "CanTransition (sh_role cur) (sh_state cur) st"
    and ok: "db_constraints (w_db w')"
    and w': "w_db w' = ?d\<lparr>db_shards := sql_update (\<lambda>r. sh_id r = i \<and> sh_version r = sh_version cur)
        (patch_row st (w_now w)) (db_shards ?d), db_config := map_option bump_config (db_config ?d)\<rparr>"
    using assms unfolding patch_tx_def ValidateTransition_def
    by (auto simp: tx_simps split: option.splits if_splits sum.splits dest!: first_row_Some)
  show ?thesis
  proof (rule db_stepsI [OF _ ok])
    fix a b assume d: "db_constraints ?d" and ab: "a = cluster_of ?d" "b = cluster_of (w_db w')"
    have "b = bump (put (sh_id cur) (patch_row st (w_now w) cur) a)"
      unfolding ab w' by (rule cluster_of_put_bump [OF d cur(1)]) (use cur(2) in simp_all)
    then show "\<exists>l \<in> {LPatch}. astep l a b"
      using as_patch [OF _ cur(3)] cluster_of_lookup_row [OF d cur(1)] ab by simp
  qed
qed

text \<open>Transactions of one \<open>UPDATE\<close> with a bump.\<close>

lemma upd_commit:
  assumes "w_db w' = (w_db w)\<lparr>db_shards := sql_update P (f (w_now w)) (db_shards (w_db w)),
      db_config := map_option bump_config (db_config (w_db w))\<rparr>"
    and "db_constraints (w_db w')" and "\<And>now r. sh_id (f now r) = sh_id r"
    and "\<And>c now. astep l c (bump (upd P (f now) c))"
  shows "db_steps {l} (w_db w) (w_db w')"
proof (rule db_stepsI [OF _ assms(2)])
  fix a b assume "a = cluster_of (w_db w)" "b = cluster_of (w_db w')"
  then show "\<exists>l' \<in> {l}. astep l' a b"
    unfolding assms(1) using cluster_of_upd_bump [of "f (w_now w)" "w_db w" P] assms(3,4) by simp
qed

lemma clean_commit:
  assumes "clean_tx S b w = (Inr (Commit x), w')"
  shows "db_steps {LClean} (w_db w) (w_db w')"
proof (cases "x = 0")
  case True
  then have "w_db w' = w_db w"
    using assms unfolding clean_tx_def by (auto simp: tx_simps sql_update_none split: if_splits)
  then show ?thesis by (simp add: contract.G_refl)
next
  case False
  then show ?thesis
    using assms unfolding clean_tx_def
    by (intro upd_commit [of w' w "data_in StateSealed b" clean_row])
      (auto simp: tx_simps intro: as_clean split: if_splits)
qed

lemma finish_commit:
  assumes "finish_tx S u w = (Inr (Commit x), w')"
  shows "db_steps {LFinish} (w_db w) (w_db w')"
  using assms unfolding finish_tx_def
  by (intro upd_commit [of w' w "\<lambda>r. sh_uuid r = u \<and> sh_state r = StateCleaning" finish_row])
    (auto simp: tx_simps intro: as_finish split: if_splits)

lemma drain_commit:
  assumes "drain_tx S b w = (Inr (Commit x), w')"
  shows "db_steps {LDrain} (w_db w) (w_db w')"
  using assms unfolding drain_tx_def
  by (intro upd_commit [of w' w "data_in StateActive b" drain_row])
    (auto simp: tx_simps intro: as_drain split: if_splits)

lemma upsert_steps:
  assumes "upsert_shard u role st dsn url sl now d = Some (x, d')"
    and "role \<noteq> RoleError \<longrightarrow> st = StateStandby" and "role = RoleError \<longrightarrow> st = StateActive"
    and "db_constraints (d'\<lparr>db_config := map_option bump_config (db_config d')\<rparr>)"
  shows "db_steps {LRegister, LReregister} d (d'\<lparr>db_config := map_option bump_config (db_config d')\<rparr>)"
proof (rule db_stepsI [OF _ assms(4)])
  let ?row = "new_row (sl_nextval sl) u role st dsn url now"
  fix a b assume ab: "a = cluster_of d" "b = cluster_of (d'\<lparr>db_config := map_option bump_config (db_config d')\<rparr>)"
  have row: "shard_row_ok ?row" using assms(1) by (auto simp: upsert_shard_def Let_def split: if_splits)
  have b: "b = bump (cluster_of d')" using ab(2) cluster_of_bump by simp
  show "\<exists>l \<in> {LRegister, LReregister}. astep l a b"
  proof (cases "first_row (filter (\<lambda>sh. sh_uuid sh = u) (db_shards d))")
    case (Some sh)
    then have "d' = d\<lparr>db_shards := sql_update (\<lambda>sh. sh_uuid sh = u) (reregister_row dsn url now) (db_shards d)\<rparr>"
      using assms(1) row by (simp add: upsert_shard_def Let_def write_db_Some)
    then have "b = bump (upd (\<lambda>sh. sh_uuid sh = u) (reregister_row dsn url now) a)"
      using b ab(1) by (simp add: cluster_of_sql_update)
    then show ?thesis using as_reregister by blast
  next
    case None
    then have d': "d' = d\<lparr>db_shards := db_shards d @ [?row]\<rparr>" and ok: "db_constraints d'"
      using assms(1) row by (simp_all add: upsert_shard_def Let_def write_db_Some)
    have i: "sl_nextval sl \<notin> sh_id ` set (db_shards d)"
      using db_constraintsD(1) [OF ok] by (simp add: d' key_unique_def new_row_def)
    have "b = bump (put (sl_nextval sl) ?row a)"
      using b ab(1) i by (simp add: d' cluster_of_append new_row_def)
    moreover have rs: "role = RoleData \<and> st = StateStandby \<or> role = RoleError \<and> st = StateActive"
      using row assms(2,3) by (cases role) (auto simp: shard_row_ok_def new_row_def)
    moreover have "cl_shards a (sl_nextval sl) = None" using i ab(1) by (simp add: cluster_of_no_row)
    ultimately have "astep LRegister a b" using as_register [OF _ rs] by simp
    then show ?thesis by blast
  qed
qed

lemma register_commit:
  assumes "register_tx S u role dsn url st w = (Inr (Commit x), w')"
    and "role \<noteq> RoleError \<longrightarrow> st = StateStandby" and "role = RoleError \<longrightarrow> st = StateActive"
  shows "db_steps {LRegister, LReregister} (w_db w) (w_db w')"
proof -
  obtain sl i d' where "upsert_shard u role st dsn url sl (w_now w) (w_db w) = Some (i, d')"
    "db_constraints (d'\<lparr>db_config := map_option bump_config (db_config d')\<rparr>)"
    "w_db w' = d'\<lparr>db_config := map_option bump_config (db_config d')\<rparr>"
    using assms(1) unfolding register_tx_def Let_def
    by (cases "role = RoleError") (auto simp: tx_simps count_rows_def split: if_splits)
  then show ?thesis using upsert_steps assms(2,3) by metis
qed

lemma bootstrap_commit:
  assumes "bootstrap_tx S cfg w = (Inr (Commit x), w')"
  shows "db_steps {LBootstrap} (w_db w) (w_db w')"
proof -
  obtain js where js: "db_config (w_db w) = None" "db_constraints (w_db w')"
    "w_db w' = (w_db w)\<lparr>db_config := Some \<lparr>cr_mode = cc_mode cfg, cr_axis = axis_string (cc_axis cfg),
       cr_spec = js, cr_max_bytes = cc_max_bytes cfg, cr_retention = cc_retention cfg,
       cr_future = cc_future cfg, cr_version = 1\<rparr>\<rparr>"
    using assms unfolding bootstrap_tx_def
    by (auto simp: tx_simps insert_config_def config_exists_def write_db_Some
        split: if_splits sum.splits option.splits)
  show ?thesis
  proof (rule db_stepsI [OF _ js(2)])
    fix a b assume "a = cluster_of (w_db w)" "b = cluster_of (w_db w')"
    then show "\<exists>l \<in> {LBootstrap}. astep l a b"
      using js(1) as_bootstrap [of a "\<lparr>cr_mode = cc_mode cfg, cr_axis = axis_string (cc_axis cfg),
       cr_spec = js, cr_max_bytes = cc_max_bytes cfg, cr_retention = cc_retention cfg,
       cr_future = cc_future cfg, cr_version = 1\<rparr>"] by (simp add: js(3) cluster_of_def)
  qed
qed

lemma pool_upd:
  assumes "update_shards P f sl now d = Some (x, d')" and "\<And>now r. sh_id (f now r) = sh_id r"
    and "\<And>c now. astep l c (upd P (f now) c)"
  shows "db_steps {l} d d'"
proof (rule db_stepsI)
  fix a b assume "a = cluster_of d" "b = cluster_of d'"
  then show "\<exists>l' \<in> {l}. astep l' a b" using assms by (simp add: update_shards_Some cluster_of_sql_update)
qed (use assms(1) in \<open>simp add: update_shards_Some\<close>)

lemma pool_bump: "bump_stmt sl now d = Some (x, d') \<Longrightarrow> db_steps {LBump} d d'"
  by (rule db_stepsI) (auto simp: bump_stmt_Some cluster_of_bump intro: as_bump)

section \<open>Every operation of the store\<close>

lemma keeps_query_row [io_rules]: "keeps (db_steps L) (pool_stmt S args (select_row P))"
  by (rule contract.keeps_query) (simp add: select_row_def)

lemma keeps_query_rows [io_rules]: "keeps (db_steps L) (pool_stmt S args (select_rows P))"
  by (rule contract.keeps_query) (simp add: select_rows_def)

lemma keeps_query_sorted [io_rules]: "keeps (db_steps L) (pool_stmt S args (select_by_id P))"
  by (rule contract.keeps_query) (simp add: select_by_id_def)

lemma keeps_query_count [io_rules]: "keeps (db_steps L) (pool_stmt S args (count_rows P))"
  by (rule contract.keeps_query) (simp add: count_rows_def)

lemma keeps_query_config [io_rules]: "keeps (db_steps L) (pool_stmt S args select_config)"
  by (rule contract.keeps_query) (simp add: select_config_def)

lemma keeps_query_buckets [io_rules]: "keeps (db_steps L) (pool_stmt S args distinct_buckets)"
  by (rule contract.keeps_query) (simp add: distinct_buckets_def)

lemma keeps_row_or_not_found [io_rules]: "keeps (db_steps L) (row_or_not_found r)"
  unfolding row_or_not_found_def by (simp add: contract.keeps_return contract.keeps_fail split: option.split)

lemmas [io_rules] = contract.keeps_return contract.keeps_fail contract.keeps_cache contract.keeps_bind
  contract.keeps_catch

end
