(* ===== verification/Routing.thy ===== *)
theory Routing
  imports Bucket
begin

text \<open>
  \<^verbatim>\<open>internal/bucket/routing.go\<close>: the decision between a data bucket and the error shard for
  a key, the buckets that retention has to clean, and the checks on a bootstrap request. The
  abstract contract is a window of bucket numbers around the current one; the lemmas of the
  interface \<open>time_buckets\<close> reduce the decision on identifiers to that window.
\<close>

section \<open>Routes\<close>

datatype RouteKind = RouteBucket | RouteError

datatype RouteReason =
    ReasonNone | ReasonFutureDisallowed | ReasonFutureTooFar | ReasonEvicted | ReasonInvalidKey

record WriteRoute =
  wr_kind :: RouteKind
  wr_bucket :: string
  wr_reason :: RouteReason

definition bucket_route :: "string \<Rightarrow> WriteRoute" where
  "bucket_route b = \<lparr>wr_kind = RouteBucket, wr_bucket = b, wr_reason = ReasonNone\<rparr>"

definition error_route :: "RouteReason \<Rightarrow> WriteRoute" where
  "error_route r = \<lparr>wr_kind = RouteError, wr_bucket = ErrorBucketID, wr_reason = r\<rparr>"

text \<open>The comparison of the target bucket with the window, at the end of \<open>ClassifyWrite\<close>.\<close>

definition route_by_index :: "string \<Rightarrow> int \<Rightarrow> int \<Rightarrow> int \<Rightarrow> int \<Rightarrow> WriteRoute" where
  "route_by_index targetID targetIdx currentIdx retentionDepth maxFuture =
    (let oldestIdx = wrap64 (wrap64 (currentIdx - retentionDepth) + 1) in
     if targetIdx < oldestIdx then error_route ReasonEvicted
     else if targetIdx \<le> currentIdx then bucket_route targetID
     else if maxFuture = 0 then error_route ReasonFutureDisallowed
     else if targetIdx \<le> wrap64 (currentIdx + maxFuture) then bucket_route targetID
     else error_route ReasonFutureTooFar)"

definition ClassifyWrite :: "golib \<Rightarrow> Spec \<Rightarrow> gtime \<Rightarrow> shard_key \<Rightarrow> int \<Rightarrow> int \<Rightarrow> WriteRoute res" where
  "ClassifyWrite L spec now shardKey retentionDepth maxFuture =
    (if sp_axis spec \<noteq> AxisTime then
       (case ID L spec shardKey of
          Inl ErrPanic \<Rightarrow> Inl ErrPanic
        | Inl _ \<Rightarrow> Inr (error_route ReasonInvalidKey)
        | Inr bid \<Rightarrow> Inr (bucket_route bid))
     else
       (case ID L spec shardKey of
          Inl _ \<Rightarrow> Inr (error_route ReasonInvalidKey)
        | Inr targetID \<Rightarrow>
       (case CurrentID spec now of
          Inl e \<Rightarrow> Inl e
        | Inr currentID \<Rightarrow>
       (case Index spec targetID of
          Inl _ \<Rightarrow> Inr (error_route ReasonInvalidKey)
        | Inr targetIdx \<Rightarrow>
       (case Index spec currentID of
          Inl e \<Rightarrow> Inl e
        | Inr currentIdx \<Rightarrow>
            Inr (route_by_index targetID targetIdx currentIdx retentionDepth maxFuture))))))"

definition ClassifyRead :: "golib \<Rightarrow> Spec \<Rightarrow> gtime \<Rightarrow> shard_key \<Rightarrow> int \<Rightarrow> int \<Rightarrow> WriteRoute res" where
  "ClassifyRead L spec now shardKey retentionDepth maxFuture =
     ClassifyWrite L spec now shardKey retentionDepth maxFuture"

definition outside_retention :: "Spec \<Rightarrow> int \<Rightarrow> string \<Rightarrow> bool" where
  "outside_retention spec oldestIdx bid =
    (if bid = [] \<or> bid = ErrorBucketID then False
     else case Index spec bid of Inl _ \<Rightarrow> False | Inr idx \<Rightarrow> idx < oldestIdx)"

definition BucketsOutsideRetention :: "Spec \<Rightarrow> gtime \<Rightarrow> int \<Rightarrow> string list \<Rightarrow> string list res" where
  "BucketsOutsideRetention spec now retentionDepth known =
    (if sp_axis spec \<noteq> AxisTime then Inr []
     else case CurrentID spec now of Inl e \<Rightarrow> Inl e
     | Inr currentID \<Rightarrow>
       (case Index spec currentID of Inl e \<Rightarrow> Inl e
        | Inr currentIdx \<Rightarrow>
            Inr (filter (outside_retention spec (wrap64 (wrap64 (currentIdx - retentionDepth) + 1))) known)))"

definition ModeRange :: string where "ModeRange = ''range''"
definition ModeHash :: string where "ModeHash = ''hash''"

definition ValidateBootstrap :: "string \<Rightarrow> Axis \<Rightarrow> int option \<Rightarrow> int option \<Rightarrow> unit res" where
  "ValidateBootstrap mode axis retentionDepth maxFuture =
    (if mode \<noteq> ModeRange \<and> mode \<noteq> ModeHash \<and> mode \<noteq> [] then Inl (ErrMsg ''unsupported mode'')
     else if mode = ModeHash \<or> axis = AxisHash then
       (if mode \<noteq> ModeHash \<and> mode \<noteq> [] then Inl (ErrMsg ''hash axis requires mode=hash'')
        else if axis \<noteq> AxisHash then Inl (ErrMsg ''mode=hash requires bucket_axis=hash'')
        else Inr ())
     else if axis = AxisTime \<and> (case retentionDepth of None \<Rightarrow> True | Some rd \<Rightarrow> rd < 1) then
       Inl (ErrMsg ''retention_depth must be >= 1 for time axis'')
     else if axis = AxisTime \<and> (case maxFuture of None \<Rightarrow> True | Some mf \<Rightarrow> mf < 0) then
       Inl (ErrMsg ''max_future_buckets must be >= 0 for time axis'')
     else if axis \<noteq> AxisTime \<and> axis \<noteq> AxisNumeric then Inl (ErrMsg ''unsupported axis for mode=range'')
     else Inr ())"

section \<open>The window of live buckets\<close>

text \<open>The contract: bucket numbers from \<open>current - depth + 1\<close> to \<open>current + future\<close> are live.\<close>

definition live_window :: "int \<Rightarrow> int \<Rightarrow> int \<Rightarrow> int set" where
  "live_window cur depth future = {cur - depth + 1 .. cur + future}"

definition window_ok :: "int \<Rightarrow> int \<Rightarrow> int \<Rightarrow> bool" where
  "window_ok cur depth future \<longleftrightarrow>
     1 \<le> depth \<and> depth < 2 ^ 31 \<and> 0 \<le> future \<and> future < 2 ^ 31 \<and> - (2 ^ 62) \<le> cur \<and> cur \<le> 2 ^ 62"

lemma window_bounds [go_arith]:
  assumes "window_ok cur depth future"
  shows "wrap64 (wrap64 (cur - depth) + 1) = cur - depth + 1" and "wrap64 (cur + future) = cur + future"
proof -
  have a: "int64_ok (cur - depth)" "int64_ok (cur - depth + 1)" "int64_ok (cur + future)"
    using assms by (simp_all add: window_ok_def int64_ok_def)
  show "wrap64 (wrap64 (cur - depth) + 1) = cur - depth + 1" "wrap64 (cur + future) = cur + future"
    by (simp_all only: wrap64_id [OF a(1)] wrap64_id [OF a(2)] wrap64_id [OF a(3)])
qed

lemma route_by_index_window:
  assumes "window_ok cur depth future"
  shows "route_by_index b tgt cur depth future =
    (if tgt \<in> live_window cur depth future then bucket_route b
     else if tgt < cur - depth + 1 then error_route ReasonEvicted
     else if future = 0 then error_route ReasonFutureDisallowed else error_route ReasonFutureTooFar)"
  using assms unfolding route_by_index_def Let_def window_bounds [OF assms] live_window_def window_ok_def
  by auto

lemma card_live_window: "window_ok cur depth future \<Longrightarrow> card (live_window cur depth future) = nat (depth + future)"
  by (simp add: live_window_def window_ok_def)

context time_buckets
begin

text \<open>The decision on two supported instants, and what it says about their order.\<close>

lemma route_of_instants:
  assumes "window_ok (num now) depth future"
  shows "wr_kind (route_by_index (tid t) (num t) (num now) depth future) = RouteBucket
      \<longleftrightarrow> num now - depth < num t \<and> num t \<le> num now + future"
  using assms by (auto simp: route_by_index_window live_window_def bucket_route_def error_route_def)

lemma route_now:
  assumes "window_ok (num now) depth future"
  shows "route_by_index (tid now) (num now) (num now) depth future = bucket_route (tid now)"
  using assms by (auto simp: route_by_index_window live_window_def window_ok_def)

end

lemma unit_index_bounds:
  assumes "time_supported s t"
  shows "- 17268672 \<le> unit_index (sp_unit s) t" and "unit_index (sp_unit s) t < 70389528"
proof -
  have y: "year4 (time_year t)" using assms by (simp add: time_supported_def)
  have "- 17268672 \<le> unit_index (sp_unit s) t \<and> unit_index (sp_unit s) t < 70389528"
  proof (cases "sp_unit s")
    case UnitHour
    then show ?thesis using Unix_hour_bounds [OF y] by (simp add: unit_index_def)
  next
    case UnitMonth
    then show ?thesis
      using y time_field_bounds(1,2) [of t] by (simp add: unit_index_def year4_def)
  qed (use time_days_year4 [OF y] in \<open>simp_all add: unit_index_def\<close>)
  then show "- 17268672 \<le> unit_index (sp_unit s) t" and "unit_index (sp_unit s) t < 70389528" by simp_all
qed

lemma window_ok_supported:
  assumes "time_supported s now" and "1 \<le> depth" "depth < 2 ^ 31" "0 \<le> future" "future < 2 ^ 31"
  shows "window_ok (unit_index (sp_unit s) now) depth future"
  using unit_index_bounds [OF assms(1)] assms(2-) unfolding window_ok_def by simp

lemma ClassifyWrite_instants:
  assumes "time_supported s now" and "parseTimeKey L k = Inr t" and "time_supported s t"
  shows "ClassifyWrite L s now k depth future = Inr (route_by_index (timeID s t)
    (unit_index (sp_unit s) t) (unit_index (sp_unit s) now) depth future)"
  using assms by (simp add: ClassifyWrite_def ID_def CurrentID_def Index_timeID time_supported_def)

section \<open>Properties of routing\<close>

lemma time_supported_parsed:
  "ParseSpec AxisTime raw = Inr s \<Longrightarrow> year4 (time_year t) \<Longrightarrow> time_supported s t"
  using ParseSpec_spec_wf ParseSpec_axis by (auto simp: time_supported_def)

text \<open>
  C8: for an accepted specification of the time axis, \<open>ClassifyWrite\<close> sends a key to the bucket of
  its instant exactly when the number of that bucket lies in the live window around now; a key
  before the window goes to the error shard as evicted, a key after it as disallowed or too far.
\<close>

theorem classify_write_window:
  assumes "ParseSpec AxisTime raw = Inr s" and "year4 (time_year now)"
    and "parseTimeKey L k = Inr t" and "year4 (time_year t)"
    and "1 \<le> depth" and "depth < 2 ^ 31" and "0 \<le> future" and "future < 2 ^ 31"
  shows "ClassifyWrite L s now k depth future = Inr (
    let tgt = unit_index (sp_unit s) t; cur = unit_index (sp_unit s) now in
    if tgt \<in> live_window cur depth future then bucket_route (timeID s t)
    else if tgt < cur - depth + 1 then error_route ReasonEvicted
    else if future = 0 then error_route ReasonFutureDisallowed else error_route ReasonFutureTooFar)"
proof -
  have sup: "time_supported s now" "time_supported s t" using assms time_supported_parsed by blast+
  show ?thesis
    unfolding ClassifyWrite_instants [OF sup(1) assms(3) sup(2)]
      route_by_index_window [OF window_ok_supported [OF sup(1) assms(5-8)]] Let_def ..
qed

theorem classify_write_window_witness:
  "ClassifyWrite demo_lib demo_month (time_Unix 1786017600 0) (KString ''2026-10-01'') 3 1
     = Inr (error_route ReasonFutureTooFar) \<and>
   ClassifyWrite demo_lib demo_month (time_Unix 1786017600 0) (KString ''2026-09-01'') 3 1
     = Inr (bucket_route ''2026-09'')"
proof -
  let ?now = "time_Unix 1786017600 0" and ?t = "time_Unix 1790812800 0" and ?t' = "time_Unix 1788220800 0"
  have now: "year4 (time_year ?now)" "unit_index (sp_unit demo_month) ?now = 24319" by code_simp+
  have t: "parseTimeKey demo_lib (KString ''2026-10-01'') = Inr ?t" "year4 (time_year ?t)"
    "unit_index (sp_unit demo_month) ?t = 24321" by code_simp+
  have t': "parseTimeKey demo_lib (KString ''2026-09-01'') = Inr ?t'" "year4 (time_year ?t')"
    "unit_index (sp_unit demo_month) ?t' = 24320" "timeID demo_month ?t' = ''2026-09''" by code_simp+
  show ?thesis
    using classify_write_window [OF demo_month_parse now(1) t(1,2), of 3 1]
      classify_write_window [OF demo_month_parse now(1) t'(1,2), of 3 1]
    unfolding now t t' by (simp add: live_window_def)
qed

lemma Index_no_bucket:
  assumes "spec_wf s" and "sp_axis s = AxisTime"
  shows "\<exists>e. Index s [] = Inl e" and "\<exists>e. Index s ErrorBucketID = Inl e"
proof -
  have u: "sp_unit s \<in> {UnitHour, UnitDay, UnitMonth}" using assms by (simp add: spec_wf_def)
  have e: "time_Parse layout_hour [] = None" "time_Parse layout_day [] = None"
    "time_Parse layout_hour ErrorBucketID = None" "time_Parse layout_day ErrorBucketID = None"
    "Split CHR ''-'' ErrorBucketID = [ErrorBucketID]"
    by code_simp+
  show "\<exists>e. Index s [] = Inl e" "\<exists>e. Index s ErrorBucketID = Inl e"
    using u assms(2) e by (auto simp: Index_def)
qed

lemma outside_retention_instant:
  assumes "time_supported s t"
  shows "outside_retention s oldest (timeID s t) \<longleftrightarrow> unit_index (sp_unit s) t < oldest"
proof -
  have "timeID s t \<noteq> []" "timeID s t \<noteq> ErrorBucketID"
    using Index_timeID [OF assms] Index_no_bucket [of s] assms by (auto simp: time_supported_def)
  then show ?thesis by (simp add: outside_retention_def Index_timeID [OF assms])
qed

lemma BucketsOutsideRetention_eq:
  assumes "time_supported s now" and "1 \<le> depth" and "depth < 2 ^ 31"
  shows "BucketsOutsideRetention s now depth known =
    Inr (filter (outside_retention s (unit_index (sp_unit s) now - depth + 1)) known)"
proof -
  have "window_ok (unit_index (sp_unit s) now) depth 0"
    using assms by (intro window_ok_supported) auto
  note w = window_bounds(1) [OF this]
  show ?thesis
    using assms(1) by (simp add: BucketsOutsideRetention_def CurrentID_def Index_timeID w time_supported_def)
qed

lemma route_by_index_bucket:
  assumes "window_ok cur depth future"
  shows "route_by_index b tgt cur depth future = bucket_route b' \<longleftrightarrow>
    b' = b \<and> tgt \<in> live_window cur depth future"
  unfolding route_by_index_window [OF assms] by (auto simp: bucket_route_def error_route_def)

lemma route_by_index_evicted:
  assumes "window_ok cur depth future"
  shows "route_by_index b tgt cur depth future = error_route ReasonEvicted \<longleftrightarrow> tgt < cur - depth + 1"
  using assms unfolding route_by_index_window [OF assms]
  by (simp add: bucket_route_def error_route_def live_window_def window_ok_def)

text \<open>
  C25: routing and retention agree. At one instant, a bucket that \<open>ClassifyWrite\<close> hands out for
  writing is never among the buckets that retention cleans, and a known bucket whose keys are
  refused as evicted is always among them.
\<close>

theorem retention_agrees_with_routing:
  assumes "ParseSpec AxisTime raw = Inr s" and "year4 (time_year now)"
    and "parseTimeKey L k = Inr t" and "year4 (time_year t)"
    and "1 \<le> depth" and "depth < 2 ^ 31" and "0 \<le> future" and "future < 2 ^ 31"
  shows "\<exists>out. BucketsOutsideRetention s now depth known = Inr out \<and>
    (ClassifyWrite L s now k depth future = Inr (bucket_route b) \<longrightarrow> b \<notin> set out) \<and>
    (ClassifyWrite L s now k depth future = Inr (error_route ReasonEvicted) \<longrightarrow>
       timeID s t \<in> set known \<longrightarrow> timeID s t \<in> set out)"
proof -
  have sup: "time_supported s now" "time_supported s t" using assms time_supported_parsed by blast+
  define tgt cur where "tgt = unit_index (sp_unit s) t" and "cur = unit_index (sp_unit s) now"
  have cw: "ClassifyWrite L s now k depth future = Inr (route_by_index (timeID s t) tgt cur depth future)"
    unfolding tgt_def cur_def by (rule ClassifyWrite_instants [OF sup(1) assms(3) sup(2)])
  have w: "window_ok cur depth future"
    unfolding cur_def by (rule window_ok_supported [OF sup(1) assms(5-8)])
  have old: "outside_retention s (cur - depth + 1) (timeID s t) \<longleftrightarrow> tgt < cur - depth + 1"
    unfolding tgt_def by (rule outside_retention_instant [OF sup(2)])
  have b: "b = timeID s t \<and> \<not> tgt < cur - depth + 1"
    if "ClassifyWrite L s now k depth future = Inr (bucket_route b)"
    using that unfolding cw by (simp add: route_by_index_bucket [OF w] live_window_def)
  have e: "tgt < cur - depth + 1"
    if "ClassifyWrite L s now k depth future = Inr (error_route ReasonEvicted)"
    using that unfolding cw by (simp add: route_by_index_evicted [OF w])
  show ?thesis
    unfolding BucketsOutsideRetention_eq [OF sup(1) assms(5,6)] cur_def [symmetric]
    using b e old by auto
qed

theorem retention_agrees_with_routing_witness:
  "\<exists>out. BucketsOutsideRetention demo_month (time_Unix 1786017600 0) 3 [''2026-04'', ''2026-08''] = Inr out \<and>
     (ClassifyWrite demo_lib demo_month (time_Unix 1786017600 0) (KString ''2026-04-01'') 3 1
        = Inr (error_route ReasonEvicted) \<longrightarrow> ''2026-04'' \<in> set out)"
proof -
  let ?now = "time_Unix 1786017600 0" and ?t = "time_Unix 1775001600 0"
  have now: "year4 (time_year ?now)" by code_simp
  have t: "parseTimeKey demo_lib (KString ''2026-04-01'') = Inr ?t" "year4 (time_year ?t)"
    "timeID demo_month ?t = ''2026-04''" by code_simp+
  show ?thesis
    using retention_agrees_with_routing [OF demo_month_parse now t(1,2), of 3 1 "[''2026-04'', ''2026-08'']"]
    unfolding t by auto
qed

text \<open>
  Retention is monotone. A bucket that is outside retention at some instant is outside
  retention at every later one.
\<close>

lemma retention_monotone:
  assumes "ParseSpec AxisTime raw = Inr s" and "year4 (time_year now)" and "year4 (time_year now')"
    and "now \<le> now'" and "1 \<le> depth" and "depth < 2 ^ 31"
    and "BucketsOutsideRetention s now depth known = Inr out"
  shows "\<exists>out'. BucketsOutsideRetention s now' depth known = Inr out' \<and> set out \<subseteq> set out'"
proof -
  have sup: "time_supported s now" "time_supported s now'" using assms time_supported_parsed by blast+
  have le: "unit_index (sp_unit s) now \<le> unit_index (sp_unit s) now'"
    using assms(4) by (rule periods.num_mono)
  have "outside_retention s o1 b \<Longrightarrow> o1 \<le> o2 \<Longrightarrow> outside_retention s o2 b" for o1 o2 b
    by (auto simp: outside_retention_def split: if_splits sum.splits)
  then show ?thesis
    using assms(7) le unfolding BucketsOutsideRetention_eq [OF sup(1) assms(5,6)]
      BucketsOutsideRetention_eq [OF sup(2) assms(5,6)] by fastforce
qed

lemma retention_monotone_example:
  "\<exists>out'. BucketsOutsideRetention demo_month (time_Unix 1790812800 0) 3 [''2026-04'', ''2026-08''] = Inr out' \<and>
     set [''2026-04''] \<subseteq> set out'"
proof -
  have y: "year4 (time_year (time_Unix 1786017600 0))" "year4 (time_year (time_Unix 1790812800 0))"
    by code_simp+
  have le: "time_Unix 1786017600 0 \<le> time_Unix 1790812800 0" by (simp add: time_Unix_def second_ns_def)
  have out: "BucketsOutsideRetention demo_month (time_Unix 1786017600 0) 3 [''2026-04'', ''2026-08''] = Inr [''2026-04'']"
    by code_simp
  show ?thesis by (rule retention_monotone [OF demo_month_parse y le _ _ out]) simp_all
qed

text \<open>The buckets that some key of the years 0 to 9999 is written to at the instant \<open>now\<close>.\<close>

definition live_buckets :: "golib \<Rightarrow> Spec \<Rightarrow> gtime \<Rightarrow> int \<Rightarrow> int \<Rightarrow> string set" where
  "live_buckets L s now depth future = {b. \<exists>k t. parseTimeKey L k = Inr t \<and> year4 (time_year t) \<and>
     ClassifyWrite L s now k depth future = Inr (bucket_route b)}"

text \<open>
  At any instant the writes of a time-axis cluster go to at most \<open>retention_depth +
  max_future_buckets\<close> different buckets, two fewer than the shard count that \<open>MinShards\<close> asks for:
  one shard stays for the pool and one for the error role.
\<close>

lemma live_buckets_below_min_shards:
  assumes "ParseSpec AxisTime raw = Inr s" and "year4 (time_year now)"
    and "1 \<le> depth" and "depth < 2 ^ 31" and "0 \<le> future" and "future < 2 ^ 31"
  shows "finite (live_buckets L s now depth future) \<and>
    int (card (live_buckets L s now depth future)) + 2 \<le> MinShards depth future"
proof -
  define live where "live = live_buckets L s now depth future"
  have now: "time_supported s now" using assms time_supported_parsed by blast
  define cur where "cur = unit_index (sp_unit s) now"
  define name where "name i = timeID s (SOME t. unit_index (sp_unit s) t = i)" for i
  have w: "window_ok cur depth future"
    unfolding cur_def by (rule window_ok_supported [OF now assms(3-6)])
  have "live \<subseteq> name ` live_window cur depth future"
  proof
    fix b assume "b \<in> live"
    then obtain k t where t: "parseTimeKey L k = Inr t" "year4 (time_year t)"
      "ClassifyWrite L s now k depth future = Inr (bucket_route b)" by (auto simp: live_def live_buckets_def)
    have "time_supported s t" using assms(1) t(2) by (rule time_supported_parsed)
    note cw = ClassifyWrite_instants [OF now t(1) this]
    then have "b = timeID s t" "unit_index (sp_unit s) t \<in> live_window cur depth future"
      using t(3) by (simp_all add: route_by_index_bucket [OF w] cur_def [symmetric])
    moreover have "name (unit_index (sp_unit s) t) = timeID s t"
      unfolding name_def by (rule periods.tid_num) (rule someI, rule refl)
    ultimately show "b \<in> name ` live_window cur depth future" by (metis imageI)
  qed
  moreover have fin: "finite (live_window cur depth future)" by (simp add: live_window_def)
  ultimately have "finite live" "card live \<le> card (live_window cur depth future)"
    by (auto intro: finite_subset surj_card_le)
  moreover have "MinShards depth future = depth + 1 + future + 1"
    unfolding MinShards_def using assms(3-6) by (intro wrap64_id) (simp add: int64_ok_def)
  ultimately show ?thesis unfolding live_def using assms(3-6) by (simp add: card_live_window [OF w])
qed

lemma live_buckets_below_min_shards_example:
  "int (card (live_buckets demo_lib demo_month (time_Unix 1786017600 0) 3 1)) + 2 \<le> 6"
proof -
  have now: "year4 (time_year (time_Unix 1786017600 0))" and m: "MinShards 3 1 = 6" by code_simp+
  show ?thesis
    using live_buckets_below_min_shards [OF demo_month_parse now, of 3 1 demo_lib] unfolding m by simp
qed

lemma no_panic_keys:
  "parseTimeKey L k \<noteq> Inl ErrPanic" "parseNumericKey L k \<noteq> Inl ErrPanic" "stringifyKey L k \<noteq> Inl ErrPanic"
  by (cases k; auto split: option.splits prod.splits if_splits)+

lemma ID_no_panic: "spec_wf s \<Longrightarrow> ID L s k \<noteq> Inl ErrPanic"
  using no_panic_keys [of L k]
  by (auto simp: ID_def spec_wf_def hashKey_def split: Axis.splits sum.splits)

lemma ID_not_error_bucket:
  "spec_wf s \<Longrightarrow> sp_axis s \<noteq> AxisTime \<Longrightarrow> ID L s k = Inr b \<Longrightarrow> b \<noteq> ErrorBucketID"
  by (auto simp: ID_def ErrorBucketID_def hash_bucket_id_def split: Axis.splits sum.splits if_splits)

definition route_wf :: "WriteRoute \<Rightarrow> bool" where
  "route_wf r = (case wr_kind r of
     RouteBucket \<Rightarrow> wr_reason r = ReasonNone \<and> wr_bucket r \<noteq> ErrorBucketID
   | RouteError \<Rightarrow> wr_reason r \<noteq> ReasonNone \<and> wr_bucket r = ErrorBucketID)"

lemma route_wf_simps [simp]:
  "route_wf (bucket_route b) \<longleftrightarrow> b \<noteq> ErrorBucketID" "route_wf (error_route x) \<longleftrightarrow> x \<noteq> ReasonNone"
  by (simp_all add: route_wf_def bucket_route_def error_route_def)

lemma route_wf_route_by_index: "b \<noteq> ErrorBucketID \<Longrightarrow> route_wf (route_by_index b t c d f)"
  by (simp add: route_by_index_def Let_def)

text \<open>
  With an accepted specification of any axis the classification of a key never fails and
  never panics, whatever the key: it gives either a data bucket, which is never the reserved
  error bucket, or the error bucket together with a reason.
\<close>

lemma classify_write_total:
  assumes "ParseSpec axis raw = Inr s" and "axis = AxisTime \<longrightarrow> year4 (time_year now)"
  shows "\<exists>r. ClassifyWrite L s now k depth future = Inr r \<and> route_wf r"
proof (cases "sp_axis s = AxisTime")
  case True
  then have now: "time_supported s now"
    using assms ParseSpec_axis [OF assms(1)] time_supported_parsed by auto
  show ?thesis
  proof (cases "ID L s k")
    case (Inr b)
    show ?thesis
    proof (cases "Index s b")
      case idx: (Inr i)
      have "b \<noteq> ErrorBucketID"
        using idx Index_no_bucket(2) [OF _ True] now by (auto simp: time_supported_def)
      then show ?thesis
        using True Inr idx Index_timeID [OF now]
        by (simp add: ClassifyWrite_def CurrentID_def route_wf_route_by_index)
    qed (use True Inr in \<open>simp add: ClassifyWrite_def CurrentID_def\<close>)
  qed (use True in \<open>simp add: ClassifyWrite_def\<close>)
next
  case False
  have wf: "spec_wf s" using assms(1) by (rule ParseSpec_spec_wf)
  show ?thesis
    using False ID_no_panic [OF wf, of L k] ID_not_error_bucket [OF wf False, of L k]
    by (auto simp: ClassifyWrite_def split: sum.split goerr.split)
qed

lemma classify_write_total_example:
  "\<exists>r. ClassifyWrite demo_lib demo_hash 0 (KString ''abc'') 0 0 = Inr r \<and> route_wf r"
  using classify_write_total [OF demo_hash_parse, of 0 demo_lib "KString ''abc''" 0 0] by simp

end
