(* ===== verification/StoreOps.thy ===== *)
theory StoreOps
  imports Refine Routing
begin

text \<open>
  The operations of the store as one interface: which labels of the contract each of them may
  produce, the refinement of arbitrary sequences of operations interleaved with other sessions,
  and the properties of the store that follow.
\<close>

section \<open>Refinement of each operation\<close>

lemma keeps_commit:
  assumes "\<And>w x w'. body w = (Inr (Commit x), w') \<Longrightarrow> db_steps K (w_db w) (w_db w')"
    and "keeps_orc body" and "K \<subseteq> L"
  shows "keeps (db_steps L) (run_tx body)"
  using assms by (intro contract.keeps_tx) (auto intro: db_steps_mono)

lemma keeps_GetShardByID [io_rules]: "keeps (db_steps L) (GetShardByID S i)"
  unfolding GetShardByID_def by (intro io_rules)

lemma keeps_Bootstrap:
  assumes "LBootstrap \<in> L"
  shows "keeps (db_steps L) (Bootstrap S cfg)"
proof -
  have "keeps_orc (bootstrap_tx S cfg)"
    unfolding bootstrap_tx_def by (intro io_rules) (auto intro!: io_rules split: sum.split)
  then show ?thesis
    unfolding Bootstrap_def using assms by (intro io_rules keeps_commit [OF bootstrap_commit]) simp_all
qed

lemma keeps_loadConfigFromDB [io_rules]: "keeps (db_steps L) (loadConfigFromDB S)"
  unfolding loadConfigFromDB_def
  by (intro io_rules) (auto intro: io_rules split: option.split sum.split)

lemma keeps_GetConfig [io_rules]: "keeps (db_steps L) (GetConfig S)"
proof -
  have "keeps (db_steps L) (bind_io (loadConfigFromDB S) (\<lambda>cfg. cache_io cfg cfg))" by (intro io_rules)
  then show ?thesis by (simp add: keeps_def GetConfig_def contract.G_refl split: option.split)
qed

lemma keeps_RegisterShard:
  assumes "LRegister \<in> L" and "LReregister \<in> L"
  shows "keeps (db_steps L) (RegisterShard S u role dsn url st)"
proof (cases "StartupStateAllowed (startup_state role st) \<or> role = RoleError")
  case True
  let ?st = "startup_state role st"
  have st: "role \<noteq> RoleError \<longrightarrow> ?st = StateStandby" "role = RoleError \<longrightarrow> ?st = StateActive"
    using True by (auto simp: startup_state_def StartupStateAllowed_def split: if_splits)
  have "keeps_orc (register_tx S u role dsn url ?st)"
    unfolding register_tx_def Let_def by (auto intro!: io_rules)
  then have "keeps (db_steps L) (run_tx (register_tx S u role dsn url ?st))"
    using assms by (intro keeps_commit [OF register_commit [OF _ st]]) simp_all
  then show ?thesis using True unfolding RegisterShard_def Let_def by (auto intro!: io_rules)
qed (auto simp: RegisterShard_def Let_def intro: io_rules)

lemma keeps_orc_promote_tx: "keeps_orc (promote_tx S b)"
  unfolding promote_tx_def by (intro io_rules) (auto intro!: io_rules split: option.split)

lemma keeps_PromoteStandbyToActive:
  assumes "LPromote True \<in> L" and "LPromote False \<in> L"
  shows "keeps (db_steps L) (PromoteStandbyToActive S b)"
  unfolding PromoteStandbyToActive_def using assms keeps_orc_promote_tx
  by (intro io_rules keeps_commit [OF promote_commit]) simp_all

lemma keeps_AutoPromoteIfNoActive:
  assumes "LPromote True \<in> L" and "LPromote False \<in> L"
  shows "keeps (db_steps L) (AutoPromoteIfNoActive S b)"
  unfolding AutoPromoteIfNoActive_def ActiveForBucket_def HasActiveInBucket_def StaleActiveForBucket_def
  by (auto intro!: io_rules keeps_PromoteStandbyToActive assms)

lemma keeps_orc_seal_tx: "keeps_orc (seal_tx S from seal event b)"
  unfolding seal_tx_def by (intro io_rules) (auto intro!: io_rules split: option.split)

lemma keeps_SealRotate: "LSeal \<in> L \<Longrightarrow> keeps (db_steps L) (SealRotate S b)"
  unfolding SealRotate_def
  by (rule keeps_commit [OF seal_commit [OF _ _ _ as_seal as_seal_rotate]])
    (simp_all add: seal_row_not_pool keeps_orc_seal_tx)

lemma keeps_CompleteDrainSeal: "LDrainSeal \<in> L \<Longrightarrow> keeps (db_steps L) (CompleteDrainSeal S b)"
  unfolding CompleteDrainSeal_def
  by (rule keeps_commit [OF seal_commit [OF _ _ _ as_drain_seal as_drain_seal_rotate]])
    (simp_all add: seal_row_not_pool keeps_orc_seal_tx)

lemma keeps_PatchState: "LPatch \<in> L \<Longrightarrow> keeps (db_steps L) (PatchState S i st)"
proof -
  have "keeps_orc (patch_tx S i st)"
    unfolding patch_tx_def by (intro io_rules) (auto intro!: io_rules split: option.split sum.split)
  then show "LPatch \<in> L \<Longrightarrow> ?thesis" unfolding PatchState_def by (intro keeps_commit [OF patch_commit]) simp_all
qed

lemma keeps_MarkBucketCleaning: "LClean \<in> L \<Longrightarrow> keeps (db_steps L) (MarkBucketCleaning S b)"
proof -
  have "keeps_orc (clean_tx S b)" unfolding clean_tx_def by (auto intro!: io_rules)
  then show "LClean \<in> L \<Longrightarrow> ?thesis" unfolding MarkBucketCleaning_def by (intro keeps_commit [OF clean_commit]) simp_all
qed

lemma keeps_FinishCleaning: "LFinish \<in> L \<Longrightarrow> keeps (db_steps L) (FinishCleaning S u)"
proof -
  have "keeps_orc (finish_tx S u)" unfolding finish_tx_def by (auto intro!: io_rules)
  then show "LFinish \<in> L \<Longrightarrow> ?thesis" unfolding FinishCleaning_def by (intro keeps_commit [OF finish_commit]) simp_all
qed

lemma keeps_BeginDrain: "LDrain \<in> L \<Longrightarrow> keeps (db_steps L) (BeginDrain S b)"
proof -
  have "keeps_orc (drain_tx S b)" unfolding drain_tx_def by (auto intro!: io_rules)
  then show "LDrain \<in> L \<Longrightarrow> ?thesis" unfolding BeginDrain_def by (intro keeps_commit [OF drain_commit]) simp_all
qed

lemma keeps_pool_upd:
  assumes "\<And>now r. sh_id (f now r) = sh_id r" and "\<And>c now. astep l c (upd P (f now) c)" and "l \<in> L"
  shows "keeps (db_steps L) (pool_stmt S args (update_shards P f))"
proof (rule contract.keeps_pool)
  fix sl now d x d' assume "update_shards P f sl now d = Some (x, d')"
  then have "db_steps {l} d d'" using pool_upd assms(1,2) by blast
  then show "db_steps L d d'" using assms(3) by (simp add: db_steps_mono)
qed

lemma keeps_SetLastSeenAt: "LSeen \<in> L \<Longrightarrow> keeps (db_steps L) (SetLastSeenAt S u t)"
  unfolding SetLastSeenAt_def by (intro io_rules keeps_pool_upd [OF _ as_seen]) simp_all

lemma keeps_UpdateStats: "LStats \<in> L \<Longrightarrow> keeps (db_steps L) (UpdateStats S u n)"
  unfolding UpdateStats_def by (auto intro!: io_rules keeps_pool_upd [OF _ as_stats])

lemma keeps_MarkDrainReady: "LReady \<in> L \<Longrightarrow> keeps (db_steps L) (MarkDrainReady S u)"
  unfolding MarkDrainReady_def by (auto intro!: io_rules keeps_pool_upd [OF _ as_ready])

lemma keeps_BumpTopologyVersion: "LBump \<in> L \<Longrightarrow> keeps (db_steps L) (BumpTopologyVersion S)"
  unfolding BumpTopologyVersion_def
  by (intro contract.keeps_pool) (auto dest!: pool_bump intro: db_steps_mono)

section \<open>Sequences of operations\<close>

datatype store_op =
    OpBootstrap ClusterConfig | OpGetConfig | OpInvalidate | OpListShards
  | OpRegister uuid Role string string State | OpGetByID int | OpGetByUUID uuid | OpGetError
  | OpActive string | OpStaleActive string | OpListStale | OpBucketRead string | OpStandbyPool
  | OpPromote string | OpSealRotate string | OpSetLastSeen uuid gtime | OpStats uuid int
  | OpPatch int State | OpClean string | OpHasActive string | OpFinish uuid | OpDistinct
  | OpNeedSeal int | OpCountPool | OpAutoPromote string | OpTopologyVersion | OpBump
  | OpDrain string | OpReady uuid | OpDraining | OpCompleteDrain string

fun run_op :: "Store \<Rightarrow> store_op \<Rightarrow> world \<Rightarrow> world" where
  "run_op S (OpBootstrap cfg) w = snd (Bootstrap S cfg w)"
| "run_op S OpGetConfig w = snd (GetConfig S w)"
| "run_op S OpInvalidate w = InvalidateConfigCache w"
| "run_op S OpListShards w = snd (ListShards S w)"
| "run_op S (OpRegister u role dsn url st) w = snd (RegisterShard S u role dsn url st w)"
| "run_op S (OpGetByID i) w = snd (GetShardByID S i w)"
| "run_op S (OpGetByUUID u) w = snd (GetShardByUUID S u w)"
| "run_op S OpGetError w = snd (GetErrorShard S w)"
| "run_op S (OpActive b) w = snd (ActiveForBucket S b w)"
| "run_op S (OpStaleActive b) w = snd (StaleActiveForBucket S b w)"
| "run_op S OpListStale w = snd (ListStaleActives S w)"
| "run_op S (OpBucketRead b) w = snd (ShardsForBucketRead S b w)"
| "run_op S OpStandbyPool w = snd (StandbyPool S w)"
| "run_op S (OpPromote b) w = snd (PromoteStandbyToActive S b w)"
| "run_op S (OpSealRotate b) w = snd (SealRotate S b w)"
| "run_op S (OpSetLastSeen u t) w = snd (SetLastSeenAt S u t w)"
| "run_op S (OpStats u n) w = snd (UpdateStats S u n w)"
| "run_op S (OpPatch i st) w = snd (PatchState S i st w)"
| "run_op S (OpClean b) w = snd (MarkBucketCleaning S b w)"
| "run_op S (OpHasActive b) w = snd (HasActiveInBucket S b w)"
| "run_op S (OpFinish u) w = snd (FinishCleaning S u w)"
| "run_op S OpDistinct w = snd (DistinctBucketIDs S w)"
| "run_op S (OpNeedSeal m) w = snd (ShardsNeedingSeal S m w)"
| "run_op S OpCountPool w = snd (CountStandbyPool S w)"
| "run_op S (OpAutoPromote b) w = snd (AutoPromoteIfNoActive S b w)"
| "run_op S OpTopologyVersion w = snd (GetTopologyVersion S w)"
| "run_op S OpBump w = snd (BumpTopologyVersion S w)"
| "run_op S (OpDrain b) w = snd (BeginDrain S b w)"
| "run_op S (OpReady u) w = snd (MarkDrainReady S u w)"
| "run_op S OpDraining w = snd (ShardsDraining S w)"
| "run_op S (OpCompleteDrain b) w = snd (CompleteDrainSeal S b w)"

definition run_ops :: "Store \<Rightarrow> store_op list \<Rightarrow> world \<Rightarrow> world" where
  "run_ops S ops w = fold (run_op S) ops w"

fun op_labels :: "store_op \<Rightarrow> label set" where
  "op_labels (OpBootstrap _) = {LBootstrap}"
| "op_labels (OpRegister _ _ _ _ _) = {LRegister, LReregister}"
| "op_labels (OpPromote _) = {LPromote True, LPromote False}"
| "op_labels (OpAutoPromote _) = {LPromote True, LPromote False}"
| "op_labels (OpSealRotate _) = {LSeal}"
| "op_labels (OpSetLastSeen _ _) = {LSeen}"
| "op_labels (OpStats _ _) = {LStats}"
| "op_labels (OpPatch _ _) = {LPatch}"
| "op_labels (OpClean _) = {LClean}"
| "op_labels (OpFinish _) = {LFinish}"
| "op_labels OpBump = {LBump}"
| "op_labels (OpDrain _) = {LDrain}"
| "op_labels (OpReady _) = {LReady}"
| "op_labels (OpCompleteDrain _) = {LDrainSeal}"
| "op_labels _ = {}"

definition moves :: "label set \<Rightarrow> world \<Rightarrow> world \<Rightarrow> bool" where
  "moves L w w' \<longleftrightarrow> db_steps L (w_db w) (w_db w') \<and> w_orc w' = w_orc w"

lemma keepsD: "keeps (db_steps L) m \<Longrightarrow> rely (db_steps L) (w_orc w) \<Longrightarrow> moves L w (snd (m w))"
  by (simp add: keeps_def moves_def)

lemmas query_ops = ListShards_def GetShardByUUID_def GetErrorShard_def ActiveForBucket_def
  StaleActiveForBucket_def ListStaleActives_def ShardsForBucketRead_def StandbyPool_def HasActiveInBucket_def
  DistinctBucketIDs_def ShardsNeedingSeal_def CountStandbyPool_def ShardsDraining_def

lemma keeps_queries [io_rules]:
  "keeps (db_steps L) (ListShards S)" "keeps (db_steps L) (GetShardByUUID S u)"
  "keeps (db_steps L) (GetErrorShard S)" "keeps (db_steps L) (ActiveForBucket S b)"
  "keeps (db_steps L) (StaleActiveForBucket S b)" "keeps (db_steps L) (ListStaleActives S)"
  "keeps (db_steps L) (ShardsForBucketRead S b)" "keeps (db_steps L) (StandbyPool S)"
  "keeps (db_steps L) (HasActiveInBucket S b)" "keeps (db_steps L) (DistinctBucketIDs S)"
  "keeps (db_steps L) (ShardsNeedingSeal S m)" "keeps (db_steps L) (CountStandbyPool S)"
  "keeps (db_steps L) (ShardsDraining S)"
  unfolding query_ops by (intro io_rules)+

lemma keeps_GetTopologyVersion [io_rules]: "keeps (db_steps L) (GetTopologyVersion S)"
  unfolding GetTopologyVersion_def by (intro io_rules) (auto intro: io_rules split: option.split)

lemmas op_rules = io_rules keeps_Bootstrap keeps_RegisterShard keeps_PromoteStandbyToActive
  keeps_AutoPromoteIfNoActive keeps_SealRotate keeps_CompleteDrainSeal keeps_PatchState
  keeps_MarkBucketCleaning keeps_FinishCleaning keeps_BeginDrain keeps_SetLastSeenAt keeps_UpdateStats
  keeps_MarkDrainReady keeps_BumpTopologyVersion

lemma moves_InvalidateConfigCache: "moves L w (InvalidateConfigCache w)"
  by (simp add: moves_def InvalidateConfigCache_def contract.G_refl)

lemma run_op_moves:
  assumes "rely (db_steps L) (w_orc w)" and "op_labels op \<subseteq> L"
  shows "moves L w (run_op S op w)"
  using assms
  by (cases op) (auto intro!: keepsD op_rules moves_InvalidateConfigCache)

lemma run_ops_moves:
  assumes "rely (db_steps L) (w_orc w)" and "\<And>op. op \<in> set ops \<Longrightarrow> op_labels op \<subseteq> L"
  shows "moves L w (run_ops S ops w)"
  using assms
proof (induction ops arbitrary: w)
  case Nil
  then show ?case by (simp add: run_ops_def moves_def contract.G_refl)
next
  case (Cons op ops)
  have 1: "moves L w (run_op S op w)" using Cons.prems by (intro run_op_moves) simp_all
  then have "moves L (run_op S op w) (run_ops S ops (run_op S op w))"
    using Cons.prems by (intro Cons.IH) (simp_all add: moves_def)
  then show ?case using 1 contract.G_trans by (auto simp: run_ops_def moves_def)
qed

end
