(* ===== verification/StoreProps.thy ===== *)
theory StoreProps
  imports StoreOps
begin

text \<open>
  Properties of the store: what holds after any sequence of its operations interleaved with other
  sessions (refinement of the contract, life cycle, transition table, topology version), what
  holds when operations run one after the other (one writer per bucket), and the behaviour of single
  operations on their success and error branches.
\<close>

section \<open>A database without surprises\<close>

definition quiet :: "(nat \<Rightarrow> slot) \<Rightarrow> bool" where
  "quiet orc \<longleftrightarrow> (\<forall>n d. sl_other (orc n) d = d)"

lemma quiet_rely: "quiet orc \<Longrightarrow> rely (db_steps L) orc"
  by (simp add: quiet_def rely_def contract.G_refl)

definition demo_pg :: pglib where
  "demo_pg = \<lparr>pg_interval = (\<lambda>d. d), pg_jsonb = Some, pg_text_ok = (\<lambda>_. True), pg_ts = (\<lambda>t. t)\<rparr>"

definition demo_store :: Store where
  "demo_store = New 0 demo_pg"

definition demo_slot :: "nat \<Rightarrow> slot" where
  "demo_slot n = \<lparr>sl_other = (\<lambda>d. d), sl_fault = NoFault, sl_now = 1000 * second_ns,
     sl_locked = (\<lambda>_. False), sl_nextval = int n\<rparr>"

definition demo_world :: "db \<Rightarrow> world" where
  "demo_world d = \<lparr>w_db = d, w_cache = None, w_orc = demo_slot, w_pc = 0, w_aborted = False, w_now = 0\<rparr>"

lemma demo_world_simps [simp]:
  "w_db (demo_world d) = d" "w_orc (demo_world d) = demo_slot" "quiet demo_slot"
  by (simp_all add: demo_world_def quiet_def demo_slot_def)

lemma db_constraints_empty [simp]: "db_constraints empty_db"
  by (simp add: db_constraints_def empty_db_def key_unique_def at_most_one_def sql_count_def)

definition demo_shard :: "int \<Rightarrow> State \<Rightarrow> string option \<Rightarrow> Shard" where
  "demo_shard i st b = (new_row i [char_of i] RoleData st ''dsn'' [] (1000 * second_ns))\<lparr>sh_bucket := b\<rparr>"

definition demo_ops :: "store_op list" where
  "demo_ops = [OpRegister ''u1'' RoleData ''dsn1'' [] (StateOther []), OpAutoPromote ''b'']"

section \<open>Any interleaving\<close>

lemma rows_cluster_of:
  "db_constraints d \<Longrightarrow> all_rows P (cluster_of d) \<longleftrightarrow> (\<forall>sh \<in> set (db_shards d). P sh)"
  by (auto simp: all_rows_def cluster_of_lookup)

text \<open>
  C7: every sequence of store operations, whatever calls fail and whatever other sessions commit in
  between within the contract, keeps the constraints of the schema and moves the cluster by
  steps of the contract whose labels the operations may produce.
\<close>

theorem store_refines_contract:
  assumes "rely (db_steps L) (w_orc w)" and "db_constraints (w_db w)"
    and "\<forall>op \<in> set ops. op_labels op \<subseteq> L"
  shows "db_constraints (w_db (run_ops S ops w)) \<and>
    csteps L (cluster_of (w_db w)) (cluster_of (w_db (run_ops S ops w)))"
  using run_ops_moves [OF assms(1), of ops S] assms(2,3) by (simp add: moves_def db_steps_def)

theorem store_refines_contract_witness:
  "csteps UNIV (cluster_of empty_db) (cluster_of (w_db (run_ops demo_store demo_ops (demo_world empty_db)))) \<and>
   map sh_state (db_shards (w_db (run_ops demo_store demo_ops (demo_world empty_db)))) = [StateActive]"
proof -
  have "map sh_state (db_shards (w_db (run_ops demo_store demo_ops (demo_world empty_db)))) = [StateActive]"
    by code_simp
  then show ?thesis
    using store_refines_contract [of UNIV "demo_world empty_db" demo_ops demo_store] quiet_rely by simp
qed

text \<open>
  C22: in every database that the operations other than the manual state patch can produce from an
  empty one, the columns of a shard agree with its state: a data shard has a bucket exactly when it
  is not standby, a draining shard has a start time, a sealed or cleaning one a seal time, only a
  draining shard is drain-ready, and the error shard is active and outside every bucket.
\<close>

theorem lifecycle_columns_agree:
  assumes "rely (db_steps (- {LPatch})) (w_orc w)" and "w_db w = empty_db"
    and "\<forall>op \<in> set ops. LPatch \<notin> op_labels op" and "sh \<in> set (db_shards (w_db (run_ops S ops w)))"
  shows "life_ok sh"
proof -
  let ?d = "w_db (run_ops S ops w)"
  have "db_steps (- {LPatch}) empty_db ?d"
    using run_ops_moves [OF assms(1), of ops S] assms(2,3) by (auto simp: moves_def)
  then have ok: "db_constraints ?d" and st: "csteps (- {LPatch}) (cluster_of empty_db) (cluster_of ?d)"
    by (simp_all add: db_steps_def)
  have "all_rows life_ok (cluster_of ?d)"
    by (rule all_rows_csteps [OF st _ life_ok_new life_ok_step])
      (auto simp: rows_cluster_of empty_db_def all_rows_def cluster_of_def)
  then show ?thesis using assms(4) by (simp add: rows_cluster_of [OF ok])
qed

theorem lifecycle_columns_agree_witness:
  "list_all life_ok (db_shards (w_db (run_ops demo_store demo_ops (demo_world empty_db))))"
  using lifecycle_columns_agree [of "demo_world empty_db" demo_ops _ demo_store] quiet_rely
  by (simp add: demo_ops_def list_all_iff)


definition demo_db :: db where
  "demo_db = \<lparr>db_config = Some \<lparr>cr_mode = ''range'', cr_axis = ''numeric'', cr_spec = json_obj1 ''width'' ''1000'',
      cr_max_bytes = 100, cr_retention = None, cr_future = None, cr_version = 7\<rparr>,
    db_shards = [demo_shard 1 StateActive (Some ''n0''), demo_shard 2 StateStandby None],
    db_events = []\<rparr>"

lemma demo_db_constraints: "db_constraints demo_db"
  by code_simp


text \<open>
  C5: the topology version is a sound cache key. Once the cluster is bootstrapped its configuration
  never changes and its topology version never decreases, and as long as the version is the same,
  every shard has the same UUID, role, bucket, state and addresses, over any run.
\<close>

theorem topology_version_sound:
  assumes "rely (db_steps L) (w_orc w)" and "db_constraints (w_db w)"
    and "\<forall>op \<in> set ops. op_labels op \<subseteq> L" and "db_config (w_db w) = Some r"
  shows "\<exists>r'. db_config (w_db (run_ops S ops w)) = Some r' \<and>
    r'\<lparr>cr_version := 0\<rparr> = r\<lparr>cr_version := 0\<rparr> \<and> cr_version r \<le> cr_version r' \<and>
    (cr_version r' = cr_version r \<longrightarrow>
       cl_view (cluster_of (w_db (run_ops S ops w))) = cl_view (cluster_of (w_db w)))"
proof -
  have "csteps L (cluster_of (w_db w)) (cluster_of (w_db (run_ops S ops w)))"
    using run_ops_moves [OF assms(1), of ops S] assms(2,3) by (auto simp: moves_def db_steps_def)
  then show ?thesis
    using csteps_config [of L "cluster_of (w_db w)" "cluster_of (w_db (run_ops S ops w))" r] assms(4)
    by (auto simp: config_follows_def)
qed

theorem topology_version_sound_witness:
  "\<exists>r'. db_config (w_db (run_ops demo_store [OpSealRotate ''n0''] (demo_world demo_db))) = Some r' \<and>
     7 \<le> cr_version r'"
proof -
  define r where "r = the (db_config demo_db)"
  have r: "db_config demo_db = Some r" "cr_version r = 7" by (simp_all add: r_def demo_db_def)
  show ?thesis
    using topology_version_sound [of UNIV "demo_world demo_db" "[OpSealRotate ''n0'']" r demo_store] r
    by (auto simp: quiet_rely demo_db_constraints)
qed

section \<open>One operation at a time\<close>

text \<open>What a call does when no other session interferes.\<close>

lemma pool_query_quiet:
  assumes "quiet (w_orc w)" and "\<And>sl now d. \<exists>x. f sl now d = Some (x, d)"
  shows "w_db (snd (pool_stmt S args f w)) = w_db w" and "w_orc (snd (pool_stmt S args f w)) = w_orc w"
    and "fst (pool_stmt S args f w) = Inr x \<Longrightarrow>
      f (w_orc w (w_pc w)) (sl_now (w_orc w (w_pc w))) (w_db w) = Some (x, w_db w)"
proof -
  obtain y where y: "f (w_orc w (w_pc w)) (sl_now (w_orc w (w_pc w))) (w_db w) = Some (y, w_db w)"
    using assms(2) by blast
  have "sl_other (w_orc w (w_pc w)) (w_db w) = w_db w" using assms(1) by (simp add: quiet_def)
  then show "w_db (snd (pool_stmt S args f w)) = w_db w" "w_orc (snd (pool_stmt S args f w)) = w_orc w"
    "fst (pool_stmt S args f w) = Inr x \<Longrightarrow>
      f (w_orc w (w_pc w)) (sl_now (w_orc w (w_pc w))) (w_db w) = Some (x, w_db w)"
    by (auto simp: pool_stmt_def run_stmt_def Let_def y split: if_splits)
qed

text \<open>A call that leaves the tables alone when nobody else writes.\<close>

definition reads_only :: "'a io \<Rightarrow> bool" where
  "reads_only m \<longleftrightarrow> (\<forall>w. quiet (w_orc w) \<longrightarrow> w_db (snd (m w)) = w_db w \<and> w_orc (snd (m w)) = w_orc w)"

named_theorems read_rules \<open>calls that only read\<close>

lemma reads_only_return [read_rules]: "reads_only (return_io x)" "reads_only (fail_io e)" "reads_only (cache_io cfg x)"
  by (simp_all add: reads_only_def return_io_def fail_io_def cache_io_def storeConfigCache_def)

lemma reads_only_catch [read_rules]:
  assumes "reads_only m" and "\<And>e. reads_only (h e)" and "\<And>x. reads_only (k x)"
  shows "reads_only (catch_io m h k)"
  unfolding reads_only_def
proof (intro allI impI)
  fix w :: world assume q: "quiet (w_orc w)"
  obtain r w1 where m: "m w = (r, w1)" by fastforce
  have 1: "w_db w1 = w_db w" "w_orc w1 = w_orc w" using assms(1) q m unfolding reads_only_def by (metis snd_conv)+
  then show "w_db (snd (catch_io m h k w)) = w_db w \<and> w_orc (snd (catch_io m h k w)) = w_orc w"
    using assms(2,3) q unfolding reads_only_def by (cases r) (simp_all add: catch_io_def m)
qed

lemma reads_only_bind [read_rules]: "reads_only m \<Longrightarrow> (\<And>x. reads_only (k x)) \<Longrightarrow> reads_only (bind_io m k)"
  unfolding bind_io_def by (intro read_rules)

lemma reads_only_query [read_rules]:
  "reads_only (pool_stmt S args (select_row P))" "reads_only (pool_stmt S args (select_rows P))"
  "reads_only (pool_stmt S args (select_by_id P))" "reads_only (pool_stmt S args (count_rows Q))"
  "reads_only (pool_stmt S args select_config)" "reads_only (pool_stmt S args distinct_buckets)"
  unfolding reads_only_def
  by (intro allI impI conjI; rule pool_query_quiet, assumption,
      simp add: select_row_def select_rows_def select_by_id_def count_rows_def select_config_def distinct_buckets_def)+

lemma reads_only_row_or_not_found [read_rules]: "reads_only (row_or_not_found r)"
  by (cases r) (simp_all add: row_or_not_found_def read_rules)

lemma reads_only_GetShardByID [read_rules]: "reads_only (GetShardByID S i)"
  unfolding GetShardByID_def by (intro read_rules)

lemma reads_only_queries [read_rules]:
  "reads_only (ListShards S)" "reads_only (GetShardByUUID S u)" "reads_only (GetErrorShard S)"
  "reads_only (ActiveForBucket S b)" "reads_only (StaleActiveForBucket S b)" "reads_only (ListStaleActives S)"
  "reads_only (ShardsForBucketRead S b)" "reads_only (StandbyPool S)" "reads_only (HasActiveInBucket S b)"
  "reads_only (DistinctBucketIDs S)" "reads_only (ShardsNeedingSeal S m)" "reads_only (CountStandbyPool S)"
  "reads_only (ShardsDraining S)"
  unfolding query_ops by (intro read_rules)+

lemma reads_onlyD:
  "reads_only m \<Longrightarrow> quiet (w_orc w) \<Longrightarrow> m w = (r, w') \<Longrightarrow> w_db w' = w_db w \<and> w_orc w' = w_orc w"
  unfolding reads_only_def by (metis snd_conv)

lemma HasActive_quiet:
  assumes "quiet (w_orc w)" and "HasActiveInBucket S b w = (Inr busy, w')"
  shows "busy \<longleftrightarrow> (\<exists>sh \<in> set (db_shards (w_db w)). writes_to b sh)"
proof -
  let ?P = "\<lambda>sh. data_in StateActive b sh \<or> data_in StateDraining b sh"
  obtain n where n: "fst (pool_stmt S [b] (count_rows ?P) w) = Inr n" "busy \<longleftrightarrow> 0 < n"
    using assms(2) unfolding HasActiveInBucket_def by (force simp: bind_io_Inr)
  have "count_rows ?P (w_orc w (w_pc w)) (sl_now (w_orc w (w_pc w))) (w_db w) = Some (n, w_db w)"
    by (rule pool_query_quiet(3) [OF assms(1) _ n(1)]) (simp add: count_rows_def)
  then have "n = int (sql_count ?P (db_shards (w_db w)))" by (simp add: count_rows_def)
  then show ?thesis using n(2) sql_count_0 [of ?P "db_shards (w_db w)"] by (auto simp: writes_to_def)
qed

lemma promote_quiet:
  assumes "quiet (w_orc w)" and "\<not> some_row (data_in StateDraining b) (cluster_of (w_db w))"
  shows "db_steps {LPromote False} (w_db w) (w_db (snd (PromoteStandbyToActive S b w)))"
proof -
  define w0 where "w0 = w\<lparr>w_pc := Suc (w_pc w), w_aborted := False, w_now := sl_now (w_orc w (w_pc w))\<rparr>"
  have eq: "w\<lparr>w_pc := Suc (w_pc w), w_db := sl_other (w_orc w (w_pc w)) (w_db w), w_aborted := False,
      w_now := sl_now (w_orc w (w_pc w))\<rparr> = w0"
    using assms(1) by (simp add: w0_def quiet_def)
  have d: "w_db w0 = w_db w" "w_orc w0 = w_orc w" by (simp_all add: w0_def)
  obtain r w1 where p: "promote_tx S b w0 = (r, w1)" by fastforce
  have o: "w_orc w1 = w_orc w"
    using p keeps_orc_promote_tx d(2) unfolding keeps_orc_def by (metis snd_conv)
  have c: "db_steps {LPromote False} (w_db w) (w_db w1)" if "r = Inr (Commit x)" for x
    using promote_commit_label [of S b w0 x w1] p that assms(2) by (simp add: d)
  obtain r2 w2 where t: "run_tx (promote_tx S b) w = (r2, w2)" by fastforce
  have 2: "db_steps {LPromote False} (w_db w) (w_db w2)" "w_orc w2 = w_orc w"
    using t o c d p by (auto simp: run_tx_def Let_def eq contract.G_refl split: sum.splits tx_end.splits if_splits)
  have "w_db (snd (PromoteStandbyToActive S b w)) = w_db w2"
  proof (cases r2)
    case (Inr i)
    then have "PromoteStandbyToActive S b w = GetShardByID S i w2"
      using t by (simp add: PromoteStandbyToActive_def bind_io_def catch_io_def)
    then show ?thesis using reads_only_GetShardByID [of S i] 2(2) assms(1) by (simp add: reads_only_def)
  qed (use t in \<open>simp add: PromoteStandbyToActive_def bind_io_def catch_io_def fail_io_def\<close>)
  then show ?thesis using 2(1) by simp
qed

lemma no_writer_no_draining:
  "\<not> (\<exists>sh \<in> set (db_shards d). writes_to b sh) \<Longrightarrow> \<not> some_row (data_in StateDraining b) (cluster_of d)"
  by (auto simp: some_row_def cluster_of_def writes_to_def dest!: map_of_SomeD)

lemma catch_io_cases:
  obtains e w' where "m w = (Inl e, w')" and "catch_io m h k w = h e w'"
  | x w' where "m w = (Inr x, w')" and "catch_io m h k w = k x w'"
  by (cases "m w"; cases "fst (m w)") (auto simp: catch_io_def)

lemma bind_io_cases:
  obtains e w' where "m w = (Inl e, w')" and "bind_io m k w = (Inl e, w')"
  | x w' where "m w = (Inr x, w')" and "bind_io m k w = k x w'"
  by (cases "m w"; cases "fst (m w)") (auto simp: bind_io_def catch_io_def fail_io_def)

lemma reads_only_moves: "reads_only m \<Longrightarrow> quiet (w_orc w) \<Longrightarrow> moves L w (snd (m w))"
  by (simp add: reads_only_def moves_def contract.G_refl)

lemma moves_trans: "moves L a b \<Longrightarrow> moves L b c \<Longrightarrow> moves L a c"
  unfolding moves_def using contract.G_trans by metis

definition promote_if_free :: "Store \<Rightarrow> string \<Rightarrow> bool \<Rightarrow> (Shard option) io" where
  "promote_if_free S b busy =
    (if busy then fail_io ErrNotFound
     else catch_io (StaleActiveForBucket S b)
       (\<lambda>e. if e \<noteq> ErrNotFound then fail_io e
         else bind_io (PromoteStandbyToActive S b) (\<lambda>sh. return_io (Some sh)))
       (\<lambda>_. fail_io ErrNotFound))"

lemma promote_if_free_quiet:
  assumes "quiet (w_orc w)" and "\<not> busy \<Longrightarrow> \<not> some_row (data_in StateDraining b) (cluster_of (w_db w))"
  shows "moves {LPromote False} w (snd (promote_if_free S b busy w))"
proof (cases busy)
  case False
  let ?k = "bind_io (PromoteStandbyToActive S b) (\<lambda>sh. return_io (Some sh))"
  have p: "moves {LPromote False} w' (snd (?k w'))" if "w_db w' = w_db w" "w_orc w' = w_orc w" for w'
  proof -
    have "snd (?k w') = snd (PromoteStandbyToActive S b w')"
      by (rule bind_io_cases [of "PromoteStandbyToActive S b" w' "\<lambda>sh. return_io (Some sh)"])
        (simp_all add: return_io_def)
    moreover have "w_orc (snd (PromoteStandbyToActive S b w')) = w_orc w'"
      using keepsD [OF keeps_PromoteStandbyToActive, of UNIV w' S b] quiet_rely assms(1) that
      by (simp add: moves_def)
    ultimately show ?thesis using promote_quiet [of w' b S] assms that False by (simp add: moves_def)
  qed
  show ?thesis
  proof (rule catch_io_cases [of "StaleActiveForBucket S b" w])
    fix e w' assume s: "StaleActiveForBucket S b w = (Inl e, w')"
    then have "w_db w' = w_db w" "w_orc w' = w_orc w"
      using reads_onlyD [OF reads_only_queries(5) assms(1)] by blast+
    then show ?thesis
      using p [of w'] s False by (auto simp: promote_if_free_def catch_io_def fail_io_def moves_def contract.G_refl)
  next
    fix x w' assume s: "StaleActiveForBucket S b w = (Inr x, w')"
    then have "w_db w' = w_db w" "w_orc w' = w_orc w"
      using reads_onlyD [OF reads_only_queries(5) assms(1)] by blast+
    then show ?thesis
      using s False by (auto simp: promote_if_free_def catch_io_def fail_io_def moves_def contract.G_refl)
  qed
qed (simp add: promote_if_free_def fail_io_def moves_def contract.G_refl)

lemma auto_promote_quiet:
  assumes q: "quiet (w_orc w)"
  shows "moves {LPromote False} w (snd (AutoPromoteIfNoActive S b w))"
proof -
  let ?m = "{LPromote False}"
  have eq: "AutoPromoteIfNoActive S b = catch_io (ActiveForBucket S b)
      (\<lambda>e. if e \<noteq> ErrNotFound then fail_io e else bind_io (HasActiveInBucket S b) (promote_if_free S b))
      (\<lambda>_. return_io None)"
    unfolding AutoPromoteIfNoActive_def promote_if_free_def [abs_def] by (rule refl)
  have h: "moves ?m w1 (snd (bind_io (HasActiveInBucket S b) (promote_if_free S b) w1))"
    if "w_orc w1 = w_orc w" for w1
  proof (rule bind_io_cases [of "HasActiveInBucket S b" w1 "promote_if_free S b"])
    fix e w' assume s: "HasActiveInBucket S b w1 = (Inl e, w')"
      and "bind_io (HasActiveInBucket S b) (promote_if_free S b) w1 = (Inl e, w')"
    then show ?thesis using reads_only_moves [OF reads_only_queries(9), of w1 ?m S b] q that by simp
  next
    fix busy w' assume s: "HasActiveInBucket S b w1 = (Inr busy, w')"
      and r: "bind_io (HasActiveInBucket S b) (promote_if_free S b) w1 = promote_if_free S b busy w'"
    have w': "w_db w' = w_db w1" "w_orc w' = w_orc w1"
      using reads_onlyD [OF reads_only_queries(9) _ s] q that by auto
    have "moves ?m w' (snd (promote_if_free S b busy w'))"
      using HasActive_quiet [OF _ s] no_writer_no_draining [of "w_db w1" b] q that w'
      by (intro promote_if_free_quiet) auto
    then show ?thesis using r w' by (simp add: moves_def)
  qed
  obtain r w1 where a: "ActiveForBucket S b w = (r, w1)" by fastforce
  have w1: "w_db w1 = w_db w" "w_orc w1 = w_orc w"
    using reads_onlyD [OF reads_only_queries(4) q a] by auto
  show ?thesis
    using h [of w1] w1 a unfolding eq
    by (cases r) (auto simp: catch_io_def fail_io_def return_io_def moves_def contract.G_refl)
qed

lemma run_op_serial:
  assumes "quiet (w_orc w)" and "\<And>i st. op \<noteq> OpPatch i st" and "\<And>b. op \<noteq> OpPromote b"
  shows "moves (- {LPatch, LPromote True}) w (run_op S op w)"
proof (cases "\<exists>b. op = OpAutoPromote b")
  case True
  then obtain b where "op = OpAutoPromote b" by blast
  then show ?thesis
    using auto_promote_quiet [OF assms(1), of S b] by (auto simp: moves_def intro: db_steps_mono)
next
  case False
  then have "op_labels op \<subseteq> - {LPatch, LPromote True}" using assms(2,3) by (cases op) auto
  then show ?thesis by (intro run_op_moves quiet_rely assms(1))
qed

lemma run_ops_serial:
  assumes "quiet (w_orc w)" and "\<And>op i st. op \<in> set ops \<Longrightarrow> op \<noteq> OpPatch i st"
    and "\<And>op b. op \<in> set ops \<Longrightarrow> op \<noteq> OpPromote b"
  shows "moves (- {LPatch, LPromote True}) w (run_ops S ops w)"
  using assms
proof (induction ops arbitrary: w)
  case Nil
  then show ?case by (simp add: run_ops_def moves_def contract.G_refl)
next
  case (Cons op ops)
  have 1: "moves (- {LPatch, LPromote True}) w (run_op S op w)"
    using Cons.prems by (intro run_op_serial) auto
  then have "moves (- {LPatch, LPromote True}) (run_op S op w) (run_ops S ops (run_op S op w))"
    using Cons.prems by (intro Cons.IH) (auto simp: moves_def)
  then show ?case using moves_trans [OF 1] by (simp add: run_ops_def)
qed

text \<open>
  C2: when operations run one after the other, with any faults, every bucket has at most one shard
  that is active or draining, in every database that the operations without manual patches and
  without a bare promotion can produce from an empty one.
\<close>

theorem one_writer_per_bucket:
  assumes "quiet (w_orc w)" and "w_db w = empty_db"
    and "\<forall>op \<in> set ops. (\<forall>i st. op \<noteq> OpPatch i st) \<and> (\<forall>b. op \<noteq> OpPromote b)"
    and "sh \<in> set (db_shards (w_db (run_ops S ops w)))" and "writes_to b sh"
    and "sh' \<in> set (db_shards (w_db (run_ops S ops w)))" and "writes_to b sh'"
  shows "sh = sh'"
proof -
  let ?d = "w_db (run_ops S ops w)"
  have "moves (- {LPatch, LPromote True}) w (run_ops S ops w)"
    using assms(1,3) by (intro run_ops_serial) auto
  then have ok: "db_constraints ?d"
    and st: "csteps (- {LPatch, LPromote True}) (cluster_of empty_db) (cluster_of ?d)"
    using assms(2) by (simp_all add: moves_def db_steps_def)
  have "one_writer (cluster_of ?d)"
    by (rule one_writer_csteps [OF st])
      (simp_all add: one_writer_def cl_unique_def cluster_of_def empty_db_def)
  then have "sh_id sh = sh_id sh'"
    using assms(4-7) cl_uniqueD [of "\<lambda>x y. writes_to b x \<and> writes_to b y" "cluster_of ?d" "sh_id sh" sh "sh_id sh'" sh']
    by (simp add: one_writer_def cluster_of_lookup [OF ok])
  then show ?thesis using key_unique_eq [OF db_constraintsD(1) [OF ok] assms(4,6)] by simp
qed

definition demo_two_ops :: "store_op list" where
  "demo_two_ops = [OpRegister ''u1'' RoleData ''dsn1'' [] (StateOther []), OpRegister ''u2'' RoleData ''dsn2'' [] (StateOther []),
     OpAutoPromote ''b'', OpDrain ''b'', OpAutoPromote ''b'', OpCompleteDrain ''b'']"

theorem one_writer_per_bucket_witness:
  "filter (writes_to ''b'') (db_shards (w_db (run_ops demo_store demo_two_ops (demo_world empty_db)))) \<noteq> [] \<and>
   card (set (filter (writes_to ''b'') (db_shards (w_db (run_ops demo_store demo_two_ops (demo_world empty_db)))))) \<le> 1"
proof -
  let ?ws = "filter (writes_to ''b'') (db_shards (w_db (run_ops demo_store demo_two_ops (demo_world empty_db))))"
  have "x = y" if "x \<in> set ?ws" "y \<in> set ?ws" for x y
    using that one_writer_per_bucket [of "demo_world empty_db" demo_two_ops x demo_store "''b''" y]
    by (simp add: demo_two_ops_def)
  then have "card (set ?ws) \<le> Suc 0" by (meson card_le_Suc0_iff_eq finite_set)
  moreover have "?ws \<noteq> []" by code_simp
  ultimately show ?thesis by simp
qed

definition race_slot :: "nat \<Rightarrow> slot" where
  "race_slot n = (if n = 3 then (demo_slot n)\<lparr>sl_other := (\<lambda>d. w_db (run_ops demo_store
     [OpAutoPromote ''b'', OpDrain ''b''] (demo_world d)))\<rparr> else demo_slot n)"

definition race_db :: db where
  "race_db = empty_db\<lparr>db_shards := [demo_shard 1 StateStandby None, demo_shard 2 StateStandby None]\<rparr>"

definition race_world :: world where
  "race_world = (demo_world race_db)\<lparr>w_orc := race_slot\<rparr>"


section \<open>Failed transactions\<close>

lemma run_tx_error:
  assumes "run_tx body w = (Inl e, w')" and "\<And>n. sl_fault (w_orc w n) \<noteq> FailAfter" and "keeps_orc body"
  shows "w_db w' = sl_other (w_orc w (w_pc w)) (w_db w)"
proof -
  define w0 where "w0 = w\<lparr>w_pc := Suc (w_pc w), w_db := sl_other (w_orc w (w_pc w)) (w_db w), w_aborted := False,
      w_now := sl_now (w_orc w (w_pc w))\<rparr>"
  obtain r w1 where b: "body w0 = (r, w1)" by fastforce
  have "w_orc w0 = w_orc w" by (simp add: w0_def)
  then have "w_orc w1 = w_orc w" using b assms(3) unfolding keeps_orc_def by (metis snd_conv)
  then show ?thesis
    using assms(1,2) b by (auto simp: run_tx_def Let_def w0_def [symmetric]
        split: sum.splits tx_end.splits if_splits) (auto simp: w0_def)
qed

lemma keeps_orc_bodies:
  "keeps_orc (patch_tx S i st)" "keeps_orc (clean_tx S b)" "keeps_orc (finish_tx S u)" "keeps_orc (drain_tx S b)"
proof -
  show "keeps_orc (patch_tx S i st)"
    unfolding patch_tx_def by (intro io_rules) (auto intro!: io_rules split: option.split sum.split)
qed (auto simp: clean_tx_def finish_tx_def drain_tx_def intro!: io_rules)


definition event_fault_slot :: "nat \<Rightarrow> slot" where
  "event_fault_slot n = (if n = 5 then (demo_slot n)\<lparr>sl_fault := FailBefore\<rparr> else demo_slot n)"

lemma event_fault_run:
  "fst (SealRotate demo_store ''n0'' ((demo_world demo_db)\<lparr>w_orc := event_fault_slot\<rparr>)) = Inl ErrDB"
  by code_simp


text \<open>
  The audit row of a rotation is not optional, although its error is dropped. When only the
  insert of the event fails, the rotation that would have sealed the full shard and promoted its
  replacement reports an error instead, because the failed statement aborts the transaction.
\<close>

lemma event_failure_aborts_rotation:
  "fst (SealRotate demo_store ''n0'' (demo_world demo_db)) = Inr () \<and>
   map sh_state (db_shards (w_db (snd (SealRotate demo_store ''n0'' (demo_world demo_db))))) =
     [StateSealed, StateActive] \<and>
   fst (SealRotate demo_store ''n0'' ((demo_world demo_db)\<lparr>w_orc := event_fault_slot\<rparr>)) = Inl ErrDB \<and>
   map sh_state (db_shards (w_db (snd (SealRotate demo_store ''n0''
     ((demo_world demo_db)\<lparr>w_orc := event_fault_slot\<rparr>))))) = [StateActive, StateStandby]"
proof (intro conjI)
  show "fst (SealRotate demo_store ''n0'' (demo_world demo_db)) = Inr ()" by code_simp
  show "map sh_state (db_shards (w_db (snd (SealRotate demo_store ''n0'' (demo_world demo_db))))) =
     [StateSealed, StateActive]" by code_simp
  show "map sh_state (db_shards (w_db (snd (SealRotate demo_store ''n0''
     ((demo_world demo_db)\<lparr>w_orc := event_fault_slot\<rparr>))))) = [StateActive, StateStandby]" by code_simp
qed (rule event_fault_run)

end
