(* ===== verification/StoreLive.thy ===== *)
theory StoreLive
  imports StoreProps
begin

text \<open>
  Progress of the store: when the database answers, the schema accepts what the operations write,
  so they do not only fail safely but succeed, with the effect their callers count on. The bounds are
  the columns' own: versions below the largest 64-bit integer.
\<close>

section \<open>Writes the schema accepts\<close>

lemma key_unique_filter:
  assumes "distinct rows"
  shows "key_unique k (filter Q rows) \<longleftrightarrow>
    (\<forall>a \<in> set rows. \<forall>b \<in> set rows. Q a \<longrightarrow> Q b \<longrightarrow> k a = k b \<longrightarrow> a = b)"
  using assms by (auto simp: key_unique_def distinct_map inj_on_def)

lemma at_most_one_distinct:
  assumes "distinct rows" and "\<And>a b. a \<in> set rows \<Longrightarrow> b \<in> set rows \<Longrightarrow> Q a \<Longrightarrow> Q b \<Longrightarrow> a = b"
  shows "at_most_one Q rows"
proof -
  have "card (set (filter Q rows)) \<le> Suc 0" using assms(2) by (intro card_le_Suc0_iff_eq [THEN iffD2]) auto
  moreover have "card (set (filter Q rows)) = length (filter Q rows)"
    using assms(1) by (intro distinct_card) simp
  ultimately show ?thesis by (simp add: at_most_one_def sql_count_def)
qed

lemma distinct_rows: "key_unique k rows \<Longrightarrow> distinct rows"
  by (simp add: key_unique_def distinct_map)

text \<open>
  An update that keeps identity and role is accepted when the changed rows pass their checks and no
  two active rows of one bucket result.
\<close>

lemma db_constraints_update:
  assumes d: "db_constraints d"
    and keep: "\<And>r. P r \<Longrightarrow> sh_id (f r) = sh_id r \<and> sh_uuid (f r) = sh_uuid r \<and> sh_role (f r) = sh_role r"
    and ok: "\<And>r. r \<in> set (db_shards d) \<Longrightarrow> P r \<Longrightarrow> shard_row_ok (f r)"
    and act: "\<And>r r'. r \<in> set (db_shards d) \<Longrightarrow> r' \<in> set (db_shards d) \<Longrightarrow> P r \<Longrightarrow> active_row (f r) \<Longrightarrow>
      active_row (if P r' then f r' else r') \<Longrightarrow> sh_bucket (f r) = sh_bucket (if P r' then f r' else r') \<Longrightarrow>
      sh_id r = sh_id r'"
  shows "db_constraints (d\<lparr>db_shards := sql_update P f (db_shards d)\<rparr>)"
proof -
  let ?rows = "db_shards d" and ?g = "\<lambda>r. if P r then f r else r"
  note u = db_constraintsD [OF d]
  have k: "key_unique sh_id (sql_update P f ?rows)" "key_unique sh_uuid (sql_update P f ?rows)"
    using u(1,2) keep by (simp_all add: key_unique_update)
  have s: "set (sql_update P f ?rows) = ?g ` set ?rows" by (rule set_sql_update)
  have inj: "r = r'" if "r \<in> set ?rows" "r' \<in> set ?rows" "sh_id r = sh_id r'" for r r'
    using key_unique_eq [OF u(1)] that by blast
  have a: "?g r = ?g r'" if "r \<in> set ?rows" "r' \<in> set ?rows" "active_row (?g r)" "active_row (?g r')"
    "sh_bucket (?g r) = sh_bucket (?g r')" for r r'
  proof -
    have "sh_id r = sh_id r'"
    proof (cases "P r \<or> P r'")
      case True
      then show ?thesis using act [of r r'] act [of r' r] that by (auto split: if_splits)
    next
      case False
      then show ?thesis
        using that key_unique_eq [OF u(3), of r r'] by auto
    qed
    then show ?thesis using inj that by blast
  qed
  have act': "key_unique sh_bucket (filter active_row (sql_update P f ?rows))"
    unfolding key_unique_filter [OF distinct_rows [OF k(1)]] s using a by blast
  have err: "at_most_one (\<lambda>sh. sh_role sh = RoleError) (sql_update P f ?rows)"
  proof (rule at_most_one_distinct [OF distinct_rows [OF k(1)]])
    fix x y assume "x \<in> set (sql_update P f ?rows)" "y \<in> set (sql_update P f ?rows)"
      and e: "sh_role x = RoleError" "sh_role y = RoleError"
    then obtain r r' where r: "r \<in> set ?rows" "r' \<in> set ?rows" "x = ?g r" "y = ?g r'" unfolding s by blast
    then have "r = r'" using at_most_one_eq [OF u(4) r(1,2)] e keep by (auto split: if_splits)
    then show "x = y" using r by simp
  qed
  have "list_all shard_row_ok (sql_update P f ?rows)" using u(5) ok by (auto simp: list_all_iff s)
  moreover have "sh_id ` set (sql_update P f ?rows) = sh_id ` set ?rows"
    unfolding s image_image by (intro image_cong) (simp_all add: keep)
  ultimately show ?thesis using d k act' err by (simp add: db_constraints_def)
qed

text \<open>Room for one more version of every row and of the topology.\<close>

definition db_room :: "db \<Rightarrow> bool" where
  "db_room d \<longleftrightarrow> list_all (\<lambda>sh. int64_ok (sh_version sh + 1)) (db_shards d) \<and>
     (case db_config d of None \<Rightarrow> True | Some c \<Rightarrow> int64_ok (cr_version c + 1))"

lemma db_constraints_bump:
  assumes "db_constraints d" and "case db_config d of None \<Rightarrow> True | Some c \<Rightarrow> int64_ok (cr_version c + 1)"
  shows "db_constraints (d\<lparr>db_config := map_option bump_config (db_config d)\<rparr>)"
  using assms by (auto simp: db_constraints_def config_row_ok_def bump_config_def split: option.splits)

text \<open>A database that answers every call, with no other session, no lock and no refused text.\<close>

definition healthy :: "Store \<Rightarrow> (nat \<Rightarrow> slot) \<Rightarrow> bool" where
  "healthy S orc \<longleftrightarrow> (\<forall>n d i. sl_other (orc n) d = d \<and> sl_fault (orc n) = NoFault \<and> \<not> sl_locked (orc n) i) \<and>
     (\<forall>s. pg_text_ok (st_pg S) s)"

lemma healthyD:
  assumes "healthy S orc"
  shows "quiet orc" and "sl_fault (orc n) = NoFault" and "\<not> sl_locked (orc n) i" and "pg_text_ok (st_pg S) s"
    and "sl_other (orc n) d = d"
  using assms by (simp_all add: healthy_def quiet_def)

lemma tx_stmt_healthy:
  assumes "healthy S (w_orc w)" and "\<not> w_aborted w"
  shows "tx_stmt S args f w = (case f (w_orc w (w_pc w)) (w_now w) (w_db w) of
      None \<Rightarrow> (Inl ErrDB, w\<lparr>w_pc := Suc (w_pc w), w_aborted := True\<rparr>)
    | Some (x, d') \<Rightarrow> (Inr x, w\<lparr>w_pc := Suc (w_pc w), w_db := d'\<rparr>))"
  using healthyD [OF assms(1)] assms(2) by (simp add: tx_stmt_def run_stmt_def Let_def list_all_iff)

lemma pool_stmt_healthy:
  assumes "healthy S (w_orc w)"
  shows "pool_stmt S args f w = (case f (w_orc w (w_pc w)) (sl_now (w_orc w (w_pc w))) (w_db w) of
      None \<Rightarrow> (Inl ErrDB, w\<lparr>w_pc := Suc (w_pc w)\<rparr>)
    | Some (x, d') \<Rightarrow> (Inr x, w\<lparr>w_pc := Suc (w_pc w), w_db := d'\<rparr>))"
  using healthyD [OF assms] by (simp add: pool_stmt_def run_stmt_def Let_def list_all_iff split: option.split)

section \<open>Rotation succeeds\<close>

lemma filter_sql_update:
  assumes "\<And>r. r \<in> set rows \<Longrightarrow> P r \<Longrightarrow> \<not> Q r \<and> \<not> Q (f r)"
  shows "filter Q (sql_update P f rows) = filter Q rows"
  using assms by (induction rows) auto

lemma sql_update_cong:
  "(\<And>r. r \<in> set rows \<Longrightarrow> P r \<longleftrightarrow> P' r) \<Longrightarrow> sql_update P f rows = sql_update P' f rows"
  by (induction rows) auto

lemma ids_sql_update:
  "(\<And>r. sh_id (f r) = sh_id r) \<Longrightarrow> sh_id ` set (sql_update P f rows) = sh_id ` set rows"
  unfolding set_sql_update image_image by (intro image_cong) simp_all

lemma sql_count_pos: "r \<in> set rows \<Longrightarrow> P r \<Longrightarrow> int (sql_count P rows) \<noteq> 0"
  using sql_count_0 [of P rows] by auto

text \<open>The rows after a rotation: the row \<open>i\<close> sealed, the row \<open>j\<close>, if any, promoted.\<close>

definition rotated :: "(gtime \<Rightarrow> Shard \<Rightarrow> Shard) \<Rightarrow> string \<Rightarrow> gtime \<Rightarrow> int \<Rightarrow> int option \<Rightarrow> Shard \<Rightarrow> Shard" where
  "rotated seal b now i j r =
     (if sh_id r = i then seal now r else if j = Some (sh_id r) then promote_row b now r else r)"

definition next_standby :: "Shard list \<Rightarrow> Shard option" where
  "next_standby rows = first_row (sort_key sh_id (filter pool_row rows))"

lemma next_standby_Some: "next_standby rows = Some sb \<Longrightarrow> sb \<in> set rows \<and> pool_row sb"
  by (auto simp: next_standby_def dest!: first_row_Some)

text \<open>What a kind of seal has to satisfy: \<open>SealRotate\<close> and \<open>CompleteDrainSeal\<close> each provide it.\<close>

locale sealing =
  fixes seal :: "gtime \<Rightarrow> Shard \<Rightarrow> Shard" and st0 :: State and event :: string
  assumes seal_keeps: "sh_id (seal now r) = sh_id r" "sh_uuid (seal now r) = sh_uuid r"
      "sh_role (seal now r) = sh_role r" "sh_bucket (seal now r) = sh_bucket r"
      "sh_version (seal now r) = sh_version r + 1"
    and seal_state: "sh_state (seal now r) = StateSealed"
    and st0_not_pool: "st0 \<noteq> StateStandby"
begin

lemma seal_step:
  assumes d: "db_constraints d" "db_room d" and cur: "cur \<in> set (db_shards d)"
  defines "P \<equiv> \<lambda>r. sh_id r = sh_id cur \<and> sh_version r = sh_version cur"
  shows "db_constraints (d\<lparr>db_shards := sql_update P (seal now) (db_shards d)\<rparr>)"
    and "sql_update P (seal now) (db_shards d) = sql_update (\<lambda>r. sh_id r = sh_id cur) (seal now) (db_shards d)"
proof -
  show "db_constraints (d\<lparr>db_shards := sql_update P (seal now) (db_shards d)\<rparr>)"
  proof (rule db_constraints_update [OF d(1)])
    fix r assume "r \<in> set (db_shards d)"
    then show "shard_row_ok (seal now r)"
      using db_constraintsD(5) [OF d(1)] d(2)
      by (auto simp: shard_row_ok_def seal_keeps seal_state db_room_def list_all_iff)
  qed (auto simp: seal_keeps seal_state active_row_def)
  have "r = cur" if "r \<in> set (db_shards d)" "sh_id r = sh_id cur" for r
    using key_unique_eq [OF db_constraintsD(1) [OF d(1)] that(1) cur that(2)] .
  then show "sql_update P (seal now) (db_shards d) = sql_update (\<lambda>r. sh_id r = sh_id cur) (seal now) (db_shards d)"
    by (intro sql_update_cong) (auto simp: P_def)
qed

lemma seal_pool:
  assumes "db_constraints d" and "cur \<in> set (db_shards d)" and "\<not> pool_row cur"
  shows "filter pool_row (sql_update (\<lambda>r. sh_id r = sh_id cur) (seal now) (db_shards d)) =
    filter pool_row (db_shards d)"
proof (rule filter_sql_update)
  fix r assume "r \<in> set (db_shards d)" "sh_id r = sh_id cur"
  then have "r = cur" using key_unique_eq [OF db_constraintsD(1) [OF assms(1)] _ assms(2)] by blast
  then show "\<not> pool_row r \<and> \<not> pool_row (seal now r)" using assms(3) by (simp add: pool_row_def seal_state)
qed

lemma promote_step:
  assumes d: "db_constraints d" "db_room d" and cur: "cur \<in> set (db_shards d)"
    and act: "\<And>r. r \<in> set (db_shards d) \<Longrightarrow> data_in StateActive b r \<Longrightarrow> r = cur"
    and len: "char_len b \<le> 64" and sb: "sb \<in> set (db_shards d)" "sh_id sb \<noteq> sh_id cur"
    and d1_def: "d1 = d\<lparr>db_shards := sql_update (\<lambda>r. sh_id r = sh_id cur) (seal now) (db_shards d)\<rparr>"
    and d1: "db_constraints d1"
  shows "db_constraints (d1\<lparr>db_shards := sql_update (\<lambda>r. sh_id r = sh_id sb) (promote_row b now) (db_shards d1)\<rparr>)"
proof (rule db_constraints_update [OF d1])
  fix r assume r: "r \<in> set (db_shards d1)" "sh_id r = sh_id sb"
  then have "r \<in> set (db_shards d)" using sb(2) by (auto simp: d1_def set_sql_update seal_keeps split: if_splits)
  then show "shard_row_ok (promote_row b now r)"
    using db_constraintsD(5) [OF d(1)] d(2) len
    by (auto simp: shard_row_ok_def promote_row_def db_room_def list_all_iff)
next
  fix r r' let ?g = "\<lambda>r. if sh_id r = sh_id sb then promote_row b now r else r"
  assume r: "r' \<in> set (db_shards d1)" "sh_id r = sh_id sb" "active_row (promote_row b now r)"
    "active_row (?g r')" "sh_bucket (promote_row b now r) = sh_bucket (?g r')"
  show "sh_id r = sh_id r'"
  proof (cases "sh_id r' = sh_id sb")
    case False
    then have a: "data_in StateActive b r'" using r by (auto simp: active_row_def data_in_def promote_row_def)
    then obtain q where q: "q \<in> set (db_shards d)" "r' = (if sh_id q = sh_id cur then seal now q else q)"
      using r(1) by (auto simp: d1_def set_sql_update)
    have "sh_id q \<noteq> sh_id cur" using a q(2) by (auto simp: data_in_def seal_state)
    then show ?thesis using act [OF q(1)] a q(2) by simp
  qed (use r(2) in simp)
qed (simp_all add: promote_row_def)

lemma rotated_rows:
  assumes "db_constraints d" and "cur \<in> set (db_shards d)" and "j \<noteq> Some (sh_id cur)"
  shows "map (rotated seal b now (sh_id cur) j) (db_shards d) =
    (case j of None \<Rightarrow> sql_update (\<lambda>r. sh_id r = sh_id cur) (seal now) (db_shards d)
     | Some k \<Rightarrow> sql_update (\<lambda>r. sh_id r = k) (promote_row b now)
         (sql_update (\<lambda>r. sh_id r = sh_id cur) (seal now) (db_shards d)))"
  using assms(3) by (cases j) (auto simp: rotated_def sql_update_def seal_keeps)

text \<open>The transaction commits, with exactly the rotated rows.\<close>

lemma seal_tx_commits:
  assumes h: "healthy S (w_orc w)" "\<not> w_aborted w" and d: "db_constraints (w_db w)" "db_room (w_db w)"
    and cur: "first_row (filter (data_in st0 b) (db_shards (w_db w))) = Some cur"
    and act: "\<And>r. r \<in> set (db_shards (w_db w)) \<Longrightarrow> data_in StateActive b r \<Longrightarrow> r = cur"
  shows "\<exists>w'. seal_tx S st0 seal event b w = (Inr (Commit ()), w') \<and> \<not> w_aborted w' \<and> w_orc w' = w_orc w \<and>
    db_shards (w_db w') = map (rotated seal b (w_now w) (sh_id cur)
      (map_option sh_id (next_standby (db_shards (w_db w))))) (db_shards (w_db w))"
proof -
  let ?d = "w_db w" and ?P = "\<lambda>r. sh_id r = sh_id cur \<and> sh_version r = sh_version cur"
  have c: "cur \<in> set (db_shards ?d)" "data_in st0 b cur" using first_row_Some [OF cur] by simp_all
  have np: "\<not> pool_row cur" using c(2) st0_not_pool by (auto simp: pool_row_def data_in_def)
  have len: "char_len b \<le> 64"
    using db_constraintsD(5) [OF d(1) c(1)] c(2) by (simp add: shard_row_ok_def data_in_def)
  define d1 where "d1 = ?d\<lparr>db_shards := sql_update (\<lambda>r. sh_id r = sh_id cur) (seal (w_now w)) (db_shards ?d)\<rparr>"
  have d1: "db_constraints d1" "?d\<lparr>db_shards := sql_update ?P (seal (w_now w)) (db_shards ?d)\<rparr> = d1"
    using seal_step [OF d c(1), of "w_now w"] by (simp_all add: d1_def)
  have sb: "select_standby (w_orc w n) now d1 = Some (next_standby (db_shards ?d), d1)" for n now
    using seal_pool [OF d(1) c(1) np] healthyD(3) [OF h(1)]
    by (simp add: select_standby_def next_standby_def d1_def)
  have room: "case db_config ?d of None \<Rightarrow> True | Some c \<Rightarrow> int64_ok (cr_version c + 1)"
    using d(2) by (simp add: db_room_def)
  show ?thesis
  proof (cases "next_standby (db_shards ?d)")
    case None
    have "db_constraints (d1\<lparr>db_config := map_option bump_config (db_config d1)\<rparr>)"
      using room by (intro db_constraints_bump [OF d1(1)]) (simp add: d1_def)
    then show ?thesis
      using None h d1 sb cur sql_count_pos [OF c(1), of ?P] rotated_rows [OF d(1) c(1), of None b "w_now w"]
      by (simp add: seal_tx_def bind_io_def catch_io_def return_io_def bumpTopologyVersionTx_def tx_stmt_healthy
          select_row_def update_shards_def write_db_def bump_stmt_def) (simp add: d1_def)
  next
    case (Some sbr)
    then have s: "sbr \<in> set (db_shards ?d)" "pool_row sbr" using next_standby_Some by auto
    have ne: "sh_id sbr \<noteq> sh_id cur"
      using key_unique_eq [OF db_constraintsD(1) [OF d(1)] s(1) c(1)] s(2) np by blast
    define d2 where "d2 = d1\<lparr>db_shards := sql_update (\<lambda>r. sh_id r = sh_id sbr) (promote_row b (w_now w)) (db_shards d1)\<rparr>"
    have d2: "db_constraints d2"
      unfolding d2_def by (rule promote_step [OF d c(1) act len s(1) ne d1_def d1(1)])
    define d3 where "d3 = d2\<lparr>db_events := db_events d2 @ [\<lparr>ev_shard = sh_id cur, ev_bucket = b, ev_type = event\<rparr>]\<rparr>"
    have "sh_id cur \<in> sh_id ` set (db_shards d2)"
      using c(1) by (simp add: d2_def d1_def ids_sql_update seal_keeps)
    then have d3: "db_constraints d3" using d2 len by (simp add: d3_def db_constraints_def)
    have "db_constraints (d3\<lparr>db_config := map_option bump_config (db_config d3)\<rparr>)"
      using room by (intro db_constraints_bump [OF d3]) (simp add: d3_def d2_def d1_def)
    then show ?thesis
      using Some h d1 d2 d3 sb cur sql_count_pos [OF c(1), of ?P] ne
        rotated_rows [OF d(1) c(1), of "Some (sh_id sbr)" b "w_now w"]
      by (simp add: seal_tx_def bind_io_def catch_io_def return_io_def ignore_io_def bumpTopologyVersionTx_def
          tx_stmt_healthy select_row_def update_shards_def write_db_def bump_stmt_def insert_event_def
          d2_def [symmetric] d3_def [symmetric])
        (simp add: d3_def d2_def d1_def)
  qed
qed

end

interpretation active_seal: sealing seal_row StateActive "''seal_rotate''"
  by unfold_locales (simp_all add: seal_row_def)

interpretation drain_seal: sealing drain_seal_row StateDraining "''drain_seal''"
  by unfold_locales (simp_all add: drain_seal_row_def)

lemma run_tx_healthy:
  assumes "healthy S (w_orc w)"
    and "body (w\<lparr>w_pc := Suc (w_pc w), w_aborted := False, w_now := sl_now (w_orc w (w_pc w))\<rparr>) = (Inr (Commit x), w1)"
    and "\<not> w_aborted w1" and "w_orc w1 = w_orc w"
  shows "run_tx body w = (Inr x, w1\<lparr>w_pc := Suc (w_pc w1)\<rparr>)"
proof -
  have "w\<lparr>w_pc := Suc (w_pc w), w_db := sl_other (w_orc w (w_pc w)) (w_db w), w_aborted := False,
      w_now := sl_now (w_orc w (w_pc w))\<rparr> = w\<lparr>w_pc := Suc (w_pc w), w_aborted := False, w_now := sl_now (w_orc w (w_pc w))\<rparr>"
    using healthyD(5) [OF assms(1)] by simp
  then show ?thesis
    using assms(2-4) healthyD(2) [OF assms(1)] by (simp add: run_tx_def Let_def)
qed

lemma active_unique:
  assumes "db_constraints d" and "r \<in> set (db_shards d)" and "r' \<in> set (db_shards d)"
    and "data_in StateActive b r" and "data_in StateActive b r'"
  shows "r = r'"
  by (rule key_unique_eq [OF db_constraintsD(3) [OF assms(1)]])
    (use assms(2-5) in \<open>auto simp: active_row_def data_in_def\<close>)

lemma first_row_unique:
  assumes "x \<in> set xs" and "Q x" and "\<And>y. y \<in> set xs \<Longrightarrow> Q y \<Longrightarrow> y = x"
  shows "first_row (filter Q xs) = Some x"
proof (cases "first_row (filter Q xs)")
  case None
  then show ?thesis using assms(1,2) by (auto simp: filter_empty_conv)
next
  case (Some y)
  then show ?thesis using first_row_Some [OF Some] assms(3) by auto
qed

lemma SealRotate_healthy:
  assumes "healthy S (w_orc w)" and "db_constraints (w_db w)" and "db_room (w_db w)"
    and "cur \<in> set (db_shards (w_db w))" and "data_in StateActive b cur"
  shows "\<exists>w'. SealRotate S b w = (Inr (), w') \<and> w_orc w' = w_orc w \<and>
    db_shards (w_db w') = map (rotated seal_row b (sl_now (w_orc w (w_pc w))) (sh_id cur)
      (map_option sh_id (next_standby (db_shards (w_db w))))) (db_shards (w_db w))"
proof -
  define w0 where "w0 = w\<lparr>w_pc := Suc (w_pc w), w_aborted := False, w_now := sl_now (w_orc w (w_pc w))\<rparr>"
  have w0: "w_db w0 = w_db w" "w_orc w0 = w_orc w" "w_now w0 = sl_now (w_orc w (w_pc w))" "\<not> w_aborted w0"
    by (simp_all add: w0_def)
  have act: "r = cur" if "r \<in> set (db_shards (w_db w))" "data_in StateActive b r" for r
    using active_unique [OF assms(2) that(1) assms(4) that(2) assms(5)] .
  then have "first_row (filter (data_in StateActive b) (db_shards (w_db w0))) = Some cur"
    unfolding w0 using assms(4,5) by (intro first_row_unique)
  then obtain w1 where w1: "seal_tx S StateActive seal_row ''seal_rotate'' b w0 = (Inr (Commit ()), w1)"
      "\<not> w_aborted w1" "w_orc w1 = w_orc w"
      "db_shards (w_db w1) = map (rotated seal_row b (sl_now (w_orc w (w_pc w))) (sh_id cur)
        (map_option sh_id (next_standby (db_shards (w_db w))))) (db_shards (w_db w))"
    using active_seal.seal_tx_commits [of S w0 b cur] assms(1-3) act w0(4) unfolding w0(1-3) by auto
  then show ?thesis
    using run_tx_healthy [of S w "seal_tx S StateActive seal_row ''seal_rotate'' b", OF assms(1) w1(1) [unfolded w0_def] w1(2,3)]
    by (simp add: SealRotate_def)
qed

text \<open>
  When the database answers, a rotation of a bucket with an active shard succeeds and does
  exactly this: the active shard becomes sealed, the standby shard with the smallest identifier,
  if there is one, becomes active in the bucket, and every other row stays.
\<close>

lemma seal_rotate_succeeds:
  assumes "healthy S (w_orc w)" and "db_constraints (w_db w)" and "db_room (w_db w)"
    and "cur \<in> set (db_shards (w_db w))" and "data_in StateActive b cur"
  shows "\<exists>w'. SealRotate S b w = (Inr (), w') \<and>
    db_shards (w_db w') = map (rotated seal_row b (sl_now (w_orc w (w_pc w))) (sh_id cur)
      (map_option sh_id (next_standby (db_shards (w_db w))))) (db_shards (w_db w))"
  using SealRotate_healthy [OF assms] by blast

lemma demo_healthy: "healthy demo_store demo_slot"
  by (simp add: healthy_def demo_slot_def demo_store_def New_def demo_pg_def)

lemma demo_db_room: "db_room demo_db"
  by code_simp

lemma seal_rotate_succeeds_example:
  "\<exists>w'. SealRotate demo_store ''n0'' (demo_world demo_db) = (Inr (), w') \<and>
     map sh_state (db_shards (w_db w')) = [StateSealed, StateActive]"
proof -
  let ?cur = "demo_shard 1 StateActive (Some ''n0'')"
  have cur: "?cur \<in> set (db_shards demo_db)" "data_in StateActive ''n0'' ?cur"
    by (simp_all add: demo_db_def data_in_def demo_shard_def new_row_def)
  have "map sh_state (map (rotated seal_row ''n0'' (sl_now (demo_slot (w_pc (demo_world demo_db)))) (sh_id ?cur)
      (map_option sh_id (next_standby (db_shards demo_db)))) (db_shards demo_db)) = [StateSealed, StateActive]"
    by code_simp
  then show ?thesis
    using seal_rotate_succeeds [of demo_store "demo_world demo_db" ?cur "''n0''"] cur
    by (auto simp: demo_healthy demo_db_constraints demo_db_room)
qed

lemma CompleteDrainSeal_healthy:
  assumes "healthy S (w_orc w)" and "db_constraints (w_db w)" and "db_room (w_db w)"
    and "cur \<in> set (db_shards (w_db w))" and "data_in StateDraining b cur"
    and "\<forall>r \<in> set (db_shards (w_db w)). writes_to b r \<longrightarrow> r = cur"
  shows "\<exists>w'. CompleteDrainSeal S b w = (Inr (), w') \<and> w_orc w' = w_orc w \<and>
    db_shards (w_db w') = map (rotated drain_seal_row b (sl_now (w_orc w (w_pc w))) (sh_id cur)
      (map_option sh_id (next_standby (db_shards (w_db w))))) (db_shards (w_db w))"
proof -
  define w0 where "w0 = w\<lparr>w_pc := Suc (w_pc w), w_aborted := False, w_now := sl_now (w_orc w (w_pc w))\<rparr>"
  have w0: "w_db w0 = w_db w" "w_orc w0 = w_orc w" "w_now w0 = sl_now (w_orc w (w_pc w))" "\<not> w_aborted w0"
    by (simp_all add: w0_def)
  have only: "r = cur" if "r \<in> set (db_shards (w_db w))" "data_in StateDraining b r \<or> data_in StateActive b r" for r
    using assms(6) that unfolding writes_to_def by blast
  have "first_row (filter (data_in StateDraining b) (db_shards (w_db w0))) = Some cur"
    unfolding w0 using assms(4,5) only by (intro first_row_unique) blast+
  then obtain w1 where w1: "seal_tx S StateDraining drain_seal_row ''drain_seal'' b w0 = (Inr (Commit ()), w1)"
      "\<not> w_aborted w1" "w_orc w1 = w_orc w"
      "db_shards (w_db w1) = map (rotated drain_seal_row b (sl_now (w_orc w (w_pc w))) (sh_id cur)
        (map_option sh_id (next_standby (db_shards (w_db w))))) (db_shards (w_db w))"
    using drain_seal.seal_tx_commits [of S w0 b cur] assms(1-3) only w0(4) unfolding w0(1-3) by blast
  then show ?thesis
    using run_tx_healthy [of S w "seal_tx S StateDraining drain_seal_row ''drain_seal'' b", OF assms(1) w1(1) [unfolded w0_def] w1(2,3)]
    by (simp add: CompleteDrainSeal_def)
qed

text \<open>
  When the database answers and the draining shard is the only writer of its bucket, completing
  the drain succeeds with the same effect: sealed, and replaced by the first standby shard.
\<close>

lemma complete_drain_succeeds:
  assumes "healthy S (w_orc w)" and "db_constraints (w_db w)" and "db_room (w_db w)"
    and "cur \<in> set (db_shards (w_db w))" and "data_in StateDraining b cur"
    and "\<forall>r \<in> set (db_shards (w_db w)). writes_to b r \<longrightarrow> r = cur"
  shows "\<exists>w'. CompleteDrainSeal S b w = (Inr (), w') \<and>
    db_shards (w_db w') = map (rotated drain_seal_row b (sl_now (w_orc w (w_pc w))) (sh_id cur)
      (map_option sh_id (next_standby (db_shards (w_db w))))) (db_shards (w_db w))"
  using CompleteDrainSeal_healthy [OF assms] by blast

definition drain_db :: db where
  "drain_db = demo_db\<lparr>db_shards := [demo_shard 1 StateDraining (Some ''n0''), demo_shard 2 StateStandby None]\<rparr>"

lemma complete_drain_succeeds_example:
  "\<exists>w'. CompleteDrainSeal demo_store ''n0'' (demo_world drain_db) = (Inr (), w') \<and>
     map sh_state (db_shards (w_db w')) = [StateSealed, StateActive]"
proof -
  let ?cur = "demo_shard 1 StateDraining (Some ''n0'')"
  have ok: "db_constraints drain_db" "db_room drain_db" by code_simp+
  have cur: "?cur \<in> set (db_shards drain_db)" "data_in StateDraining ''n0'' ?cur"
    "\<forall>r \<in> set (db_shards drain_db). writes_to ''n0'' r \<longrightarrow> r = ?cur"
    by (simp_all add: drain_db_def writes_to_def data_in_def demo_shard_def new_row_def)
  have "map sh_state (map (rotated drain_seal_row ''n0'' (sl_now (demo_slot (w_pc (demo_world drain_db)))) (sh_id ?cur)
      (map_option sh_id (next_standby (db_shards drain_db)))) (db_shards drain_db)) = [StateSealed, StateActive]"
    by code_simp
  moreover obtain w' where "CompleteDrainSeal demo_store ''n0'' (demo_world drain_db) = (Inr (), w')"
      "db_shards (w_db w') = map (rotated drain_seal_row ''n0'' (sl_now (demo_slot (w_pc (demo_world drain_db)))) (sh_id ?cur)
        (map_option sh_id (next_standby (db_shards drain_db)))) (db_shards drain_db)"
    using complete_drain_succeeds [of demo_store "demo_world drain_db" ?cur "''n0''"] cur ok demo_healthy
    unfolding demo_world_simps by blast
  ultimately show ?thesis by metis
qed

section \<open>Promotion and recycling succeed\<close>

lemma no_row_healthy:
  assumes "healthy S (w_orc w)" and "\<And>r now. r \<in> set (db_shards (w_db w)) \<Longrightarrow> \<not> P now r"
  shows "bind_io (pool_stmt S args (select_row P)) row_or_not_found w = (Inl ErrNotFound, w\<lparr>w_pc := Suc (w_pc w)\<rparr>)"
  using assms by (simp add: bind_io_def catch_io_def pool_stmt_healthy select_row_def row_or_not_found_def fail_io_def
      filter_False)

lemma HasActive_healthy:
  assumes "healthy S (w_orc w)" and "\<And>r. r \<in> set (db_shards (w_db w)) \<Longrightarrow> \<not> writes_to b r"
  shows "HasActiveInBucket S b w = (Inr False, w\<lparr>w_pc := Suc (w_pc w)\<rparr>)"
proof -
  have "sql_count (\<lambda>sh. data_in StateActive b sh \<or> data_in StateDraining b sh) (db_shards (w_db w)) = 0"
    using assms(2) by (simp add: sql_count_0 writes_to_def)
  then show ?thesis
    using assms(1) by (simp add: HasActiveInBucket_def bind_io_def catch_io_def pool_stmt_healthy count_rows_def return_io_def)
qed

lemma promote_constraints:
  assumes d: "db_constraints d" "db_room d" and "char_len b \<le> 64"
    and free: "\<And>r. r \<in> set (db_shards d) \<Longrightarrow> \<not> data_in StateActive b r"
  shows "db_constraints (d\<lparr>db_shards := sql_update (\<lambda>r. sh_id r = i) (promote_row b now) (db_shards d)\<rparr>)"
proof (rule db_constraints_update [OF d(1)])
  fix r assume "r \<in> set (db_shards d)"
  then show "shard_row_ok (promote_row b now r)"
    using db_constraintsD(5) [OF d(1)] d(2) assms(3) by (auto simp: shard_row_ok_def promote_row_def db_room_def list_all_iff)
next
  fix r r' let ?g = "\<lambda>r. if sh_id r = i then promote_row b now r else r"
  assume r: "r' \<in> set (db_shards d)" "sh_id r = i" "active_row (?g r')" "sh_bucket (promote_row b now r) = sh_bucket (?g r')"
  then have "sh_id r' \<noteq> i \<Longrightarrow> data_in StateActive b r'" by (auto simp: active_row_def data_in_def promote_row_def)
  then show "sh_id r = sh_id r'" using free [OF r(1)] r(2) by metis
qed (simp_all add: promote_row_def)

lemma promote_tx_commits:
  assumes h: "healthy S (w_orc w)" "\<not> w_aborted w" and d: "db_constraints (w_db w)" "db_room (w_db w)"
    and "char_len b \<le> 64" and free: "\<And>r. r \<in> set (db_shards (w_db w)) \<Longrightarrow> \<not> data_in StateActive b r"
    and sb: "next_standby (db_shards (w_db w)) = Some sb"
  shows "\<exists>w'. promote_tx S b w = (Inr (Commit (sh_id sb)), w') \<and> \<not> w_aborted w' \<and> w_orc w' = w_orc w \<and>
    w_pc w' = w_pc w + 3 \<and> db_constraints (w_db w') \<and>
    db_shards (w_db w') = sql_update (\<lambda>r. sh_id r = sh_id sb) (promote_row b (w_now w)) (db_shards (w_db w))"
proof -
  let ?d = "w_db w"
  define d1 where "d1 = ?d\<lparr>db_shards := sql_update (\<lambda>r. sh_id r = sh_id sb) (promote_row b (w_now w)) (db_shards ?d)\<rparr>"
  have d1: "db_constraints d1" unfolding d1_def by (rule promote_constraints [OF d assms(5) free])
  have d2: "db_constraints (d1\<lparr>db_config := map_option bump_config (db_config d1)\<rparr>)"
    using d(2) by (intro db_constraints_bump [OF d1]) (simp add: d1_def db_room_def)
  have s: "select_standby (w_orc w n) now ?d = Some (Some sb, ?d)" for n now
    using sb healthyD(3) [OF h(1)] by (simp add: select_standby_def next_standby_def)
  show ?thesis
    using h s d1 d2
    by (simp add: promote_tx_def bind_io_def catch_io_def return_io_def bumpTopologyVersionTx_def tx_stmt_healthy
        update_shards_def write_db_def bump_stmt_def d1_def [symmetric]) (simp add: d1_def)
qed

lemma GetShardByID_healthy:
  assumes "healthy S (w_orc w)" and "db_constraints (w_db w)" and "sh \<in> set (db_shards (w_db w))"
  shows "GetShardByID S (sh_id sh) w = (Inr sh, w\<lparr>w_pc := Suc (w_pc w)\<rparr>)"
proof -
  have "first_row (filter (\<lambda>r. sh_id r = sh_id sh) (db_shards (w_db w))) = Some sh"
    using key_unique_eq [OF db_constraintsD(1) [OF assms(2)] _ assms(3)] assms(3) by (intro first_row_unique) auto
  then show ?thesis
    using assms(1) by (simp add: GetShardByID_def bind_io_def catch_io_def pool_stmt_healthy select_row_def
        row_or_not_found_def return_io_def)
qed

lemma PromoteStandbyToActive_healthy:
  assumes h: "healthy S (w_orc w)" and d: "db_constraints (w_db w)" "db_room (w_db w)" and len: "char_len b \<le> 64"
    and free: "\<And>r. r \<in> set (db_shards (w_db w)) \<Longrightarrow> \<not> data_in StateActive b r"
    and sb: "next_standby (db_shards (w_db w)) = Some sb"
  defines "now \<equiv> sl_now (w_orc w (w_pc w))"
  shows "\<exists>w'. PromoteStandbyToActive S b w = (Inr (promote_row b now sb), w') \<and>
    db_shards (w_db w') = sql_update (\<lambda>r. sh_id r = sh_id sb) (promote_row b now) (db_shards (w_db w))"
proof -
  define w0 where "w0 = w\<lparr>w_pc := Suc (w_pc w), w_aborted := False, w_now := now\<rparr>"
  obtain w1 where w1: "promote_tx S b w0 = (Inr (Commit (sh_id sb)), w1)" "\<not> w_aborted w1" "w_orc w1 = w_orc w"
      "db_constraints (w_db w1)"
      "db_shards (w_db w1) = sql_update (\<lambda>r. sh_id r = sh_id sb) (promote_row b now) (db_shards (w_db w))"
    using promote_tx_commits [of S w0 b sb] h d len free sb by (auto simp: w0_def)
  define w2 where "w2 = w1\<lparr>w_pc := Suc (w_pc w1)\<rparr>"
  have tx: "run_tx (promote_tx S b) w = (Inr (sh_id sb), w2)"
    unfolding w2_def
    by (rule run_tx_healthy [OF h _ w1(2,3)]) (use w1(1) in \<open>simp add: w0_def now_def\<close>)
  have "promote_row b now sb \<in> set (db_shards (w_db w2))"
    using next_standby_Some [OF sb] by (auto simp: w2_def w1(5) set_sql_update)
  moreover have "sh_id (promote_row b now sb) = sh_id sb" by simp
  ultimately have "GetShardByID S (sh_id sb) w2 = (Inr (promote_row b now sb), w2\<lparr>w_pc := Suc (w_pc w2)\<rparr>)"
    using GetShardByID_healthy [of S w2 "promote_row b now sb"] h w1(3,4) by (simp add: w2_def)
  then show ?thesis
    using tx w1(5) by (simp add: PromoteStandbyToActive_def bind_io_def catch_io_def w2_def)
qed

text \<open>
  When the database answers, a bucket without a writer gets one: \<open>AutoPromoteIfNoActive\<close> takes the
  standby shard with the smallest identifier, makes it active in the bucket with a fresh heartbeat
  and returns that row; no other row changes.
\<close>

lemma auto_promote_succeeds:
  assumes "healthy S (w_orc w)" and "db_constraints (w_db w)" and "db_room (w_db w)" and "char_len b \<le> 64"
    and "\<forall>r \<in> set (db_shards (w_db w)). \<not> writes_to b r" and "next_standby (db_shards (w_db w)) = Some sb"
    and "now = sl_now (w_orc w (w_pc w + 3))"
  shows "\<exists>w'. AutoPromoteIfNoActive S b w = (Inr (Some (promote_row b now sb)), w') \<and>
    db_shards (w_db w') = sql_update (\<lambda>r. sh_id r = sh_id sb) (promote_row b now) (db_shards (w_db w))"
proof -
  define w1 where "w1 = w\<lparr>w_pc := w_pc w + 1\<rparr>"
  define w2 where "w2 = w\<lparr>w_pc := w_pc w + 2\<rparr>"
  define w3 where "w3 = w\<lparr>w_pc := w_pc w + 3\<rparr>"
  have free: "\<not> data_in StateActive b r" if "r \<in> set (db_shards (w_db w))" for r
    using assms(5) that by (auto simp: writes_to_def)
  have 1: "ActiveForBucket S b w = (Inl ErrNotFound, w1)"
    unfolding ActiveForBucket_def w1_def using assms(1) free by (subst no_row_healthy) auto
  have 2: "HasActiveInBucket S b w1 = (Inr False, w2)"
    using HasActive_healthy [of S w1 b] assms(1,5) by (simp add: w1_def w2_def)
  have 3: "StaleActiveForBucket S b w2 = (Inl ErrNotFound, w3)"
    unfolding StaleActiveForBucket_def w2_def w3_def using assms(1) free by (subst no_row_healthy) auto
  have "\<exists>w'. PromoteStandbyToActive S b w3 = (Inr (promote_row b now sb), w') \<and>
      db_shards (w_db w') = sql_update (\<lambda>r. sh_id r = sh_id sb) (promote_row b now) (db_shards (w_db w))"
    using PromoteStandbyToActive_healthy [of S w3 b sb] assms(1-4,6,7) free by (simp add: w3_def)
  then show ?thesis
    using 1 2 3 by (auto simp: AutoPromoteIfNoActive_def catch_io_def bind_io_def return_io_def)
qed

lemma auto_promote_succeeds_example:
  "\<exists>w' sh. AutoPromoteIfNoActive demo_store ''n7'' (demo_world demo_db) = (Inr (Some sh), w') \<and>
     sh_id sh = 2 \<and> sh_state sh = StateActive \<and> sh_bucket sh = Some ''n7''"
proof -
  let ?sb = "demo_shard 2 StateStandby None"
  have sb: "next_standby (db_shards demo_db) = Some ?sb" by code_simp
  have free: "\<forall>r \<in> set (db_shards demo_db). \<not> writes_to ''n7'' r"
    by (simp add: demo_db_def writes_to_def data_in_def demo_shard_def new_row_def)
  have len: "char_len ''n7'' \<le> 64" by code_simp
  show ?thesis
    using auto_promote_succeeds [of demo_store "demo_world demo_db" "''n7''" ?sb, OF _ _ _ len] sb free
    by (auto simp: demo_healthy demo_db_constraints demo_db_room promote_row_def demo_shard_def new_row_def)
qed

lemma finish_constraints:
  assumes "db_constraints d" and "db_room d"
  shows "db_constraints (d\<lparr>db_shards := sql_update P (finish_row now) (db_shards d)\<rparr>)"
proof (rule db_constraints_update [OF assms(1)])
  fix r assume "r \<in> set (db_shards d)"
  then show "shard_row_ok (finish_row now r)"
    using db_constraintsD(5) [OF assms(1)] assms(2)
    by (auto simp: shard_row_ok_def finish_row_def db_room_def list_all_iff)
qed (auto simp: finish_row_def active_row_def)

lemma FinishCleaning_healthy:
  assumes "healthy S (w_orc w)" and "db_constraints (w_db w)" and "db_room (w_db w)"
    and "sh \<in> set (db_shards (w_db w))" and "sh_state sh = StateCleaning"
  obtains w' now where "FinishCleaning S (sh_uuid sh) w = (Inr (), w')" and "w_orc w' = w_orc w"
    and "db_shards (w_db w') = sql_update (\<lambda>r. sh_uuid r = sh_uuid sh \<and> sh_state r = StateCleaning) (finish_row now) (db_shards (w_db w))"
proof -
  let ?P = "\<lambda>r. sh_uuid r = sh_uuid sh \<and> sh_state r = StateCleaning" and ?now = "sl_now (w_orc w (w_pc w))"
  define w0 where "w0 = w\<lparr>w_pc := Suc (w_pc w), w_aborted := False, w_now := ?now\<rparr>"
  define d1 where "d1 = (w_db w)\<lparr>db_shards := sql_update ?P (finish_row ?now) (db_shards (w_db w))\<rparr>"
  have d1: "db_constraints d1" unfolding d1_def by (rule finish_constraints [OF assms(2,3)])
  have d2: "db_constraints (d1\<lparr>db_config := map_option bump_config (db_config d1)\<rparr>)"
    using assms(3) by (intro db_constraints_bump [OF d1]) (simp add: d1_def db_room_def)
  have n: "int (sql_count ?P (db_shards (w_db w))) \<noteq> 0" using assms(4,5) by (intro sql_count_pos) auto
  obtain w1 where w1: "finish_tx S (sh_uuid sh) w0 = (Inr (Commit ()), w1)" "\<not> w_aborted w1" "w_orc w1 = w_orc w"
      "db_shards (w_db w1) = db_shards d1"
    using assms(1) d1 d2 n
    by (simp add: finish_tx_def bind_io_def catch_io_def return_io_def bumpTopologyVersionTx_def tx_stmt_healthy
        update_shards_def write_db_def bump_stmt_def w0_def d1_def [symmetric])
  have "FinishCleaning S (sh_uuid sh) w = (Inr (), w1\<lparr>w_pc := Suc (w_pc w1)\<rparr>)"
    unfolding FinishCleaning_def
    by (rule run_tx_healthy [OF assms(1) _ w1(2,3)]) (use w1(1) in \<open>simp add: w0_def\<close>)
  then show thesis using w1(3,4) by (intro that [of "w1\<lparr>w_pc := Suc (w_pc w1)\<rparr>"]) (simp_all add: d1_def)
qed

text \<open>
  A cleaned shard is back in the pool. When the database answers, \<open>FinishCleaning\<close> on a data
  shard in the cleaning state succeeds and leaves it standby without bucket, with no reported bytes
  and no seal or drain marks, so that the next promotion can use it.
\<close>

lemma finish_cleaning_returns_to_pool:
  assumes "healthy S (w_orc w)" and "db_constraints (w_db w)" and "db_room (w_db w)"
    and "sh \<in> set (db_shards (w_db w))" and "sh_role sh = RoleData" and "sh_state sh = StateCleaning"
  shows "\<exists>w' sh'. FinishCleaning S (sh_uuid sh) w = (Inr (), w') \<and> sh' \<in> set (db_shards (w_db w')) \<and>
    sh_id sh' = sh_id sh \<and> pool_row sh' \<and> sh_reported sh' = 0 \<and> sh_sealed_at sh' = None \<and>
    sh_drain_started sh' = None \<and> \<not> sh_drain_ready sh'"
proof -
  obtain w' now where w': "FinishCleaning S (sh_uuid sh) w = (Inr (), w')"
      "db_shards (w_db w') = sql_update (\<lambda>r. sh_uuid r = sh_uuid sh \<and> sh_state r = StateCleaning) (finish_row now) (db_shards (w_db w))"
    using FinishCleaning_healthy [OF assms(1-4,6)] by metis
  then have "finish_row now sh \<in> set (db_shards (w_db w'))"
    using assms(4,6) by (auto simp: set_sql_update intro: rev_image_eqI)
  then show ?thesis using w'(1) assms(5) by (auto simp: pool_row_def finish_row_def intro!: bexI)
qed

definition clean_db :: db where
  "clean_db = demo_db\<lparr>db_shards := [demo_shard 1 StateCleaning (Some ''n0'')]\<rparr>"

lemma finish_cleaning_returns_to_pool_example:
  "\<exists>w' sh'. FinishCleaning demo_store (sh_uuid (demo_shard 1 StateCleaning (Some ''n0''))) (demo_world clean_db) = (Inr (), w') \<and>
     sh' \<in> set (db_shards (w_db w')) \<and> sh_id sh' = 1 \<and> pool_row sh'"
proof -
  let ?sh = "demo_shard 1 StateCleaning (Some ''n0'')"
  have ok: "db_constraints clean_db" "db_room clean_db" by code_simp+
  have sh: "?sh \<in> set (db_shards clean_db)" "sh_role ?sh = RoleData" "sh_state ?sh = StateCleaning" "sh_id ?sh = 1"
    by (simp_all add: clean_db_def demo_shard_def new_row_def)
  show ?thesis
    using finish_cleaning_returns_to_pool [of demo_store "demo_world clean_db" ?sh] ok sh demo_healthy
    unfolding demo_world_simps by metis
qed

section \<open>Where manual patches and registration go wrong\<close>

lemma run_tx_Inr:
  assumes "run_tx body w = (Inr x, w')"
  obtains w0 w1 where "w_db w0 = sl_other (w_orc w (w_pc w)) (w_db w)" and "w_orc w0 = w_orc w"
    and "body w0 = (Inr (Commit x), w1)" and "w_db w' = w_db w1" and "w_orc w' = w_orc w1"
  | w0 w1 where "w_db w0 = sl_other (w_orc w (w_pc w)) (w_db w)" and "body w0 = (Inr (NoCommit x), w1)"
    and "w_db w' = w_db w0"
proof -
  define w0 where "w0 = w\<lparr>w_pc := Suc (w_pc w), w_db := sl_other (w_orc w (w_pc w)) (w_db w), w_aborted := False,
      w_now := sl_now (w_orc w (w_pc w))\<rparr>"
  have d: "w_db w0 = sl_other (w_orc w (w_pc w)) (w_db w)" "w_orc w0 = w_orc w" by (simp_all add: w0_def)
  show thesis
    using assms that d by (auto simp: run_tx_def Let_def w0_def [symmetric] split: sum.splits tx_end.splits if_splits prod.splits)
qed

text \<open>
  C35: a manual state patch does not touch the bucket column. A cleaned shard that is patched back
  to standby keeps its old bucket and is not in the standby pool, so no promotion ever takes
  it; a standby shard that is patched to active has no bucket, so no key is ever routed to it.
\<close>

theorem patch_strands_shards:
  assumes "PatchState S (sh_id sh) st w = (Inr (), w')" and "db_constraints (sl_other (w_orc w (w_pc w)) (w_db w))"
    and "sh \<in> set (db_shards (sl_other (w_orc w (w_pc w)) (w_db w)))" and "life_ok sh" and "sh_role sh = RoleData"
  shows "\<exists>sh' \<in> set (db_shards (w_db w')). sh_id sh' = sh_id sh \<and> sh_state sh' = st \<and> sh_bucket sh' = sh_bucket sh \<and>
    (st = StateStandby \<longrightarrow> \<not> pool_row sh') \<and> (st = StateActive \<longrightarrow> \<not> active_row sh')"
proof -
  let ?d = "sl_other (w_orc w (w_pc w)) (w_db w)"
  have "patch_tx S (sh_id sh) st w0 \<noteq> (Inr (NoCommit ()), w1)" for w0 w1
    by (auto simp: patch_tx_def tx_simps split: option.splits sum.splits if_splits)
  then obtain w0 w1 where w0: "w_db w0 = ?d" "patch_tx S (sh_id sh) st w0 = (Inr (Commit ()), w1)" "w_db w' = w_db w1"
    using assms(1) unfolding PatchState_def by (elim run_tx_Inr) auto
  have cur: "first_row (filter (\<lambda>r. sh_id r = sh_id sh) (db_shards ?d)) = Some sh"
    using key_unique_eq [OF db_constraintsD(1) [OF assms(2)] _ assms(3)] assms(3) by (intro first_row_unique) auto
  have t: "CanTransition (sh_role sh) (sh_state sh) st"
    and rows: "db_shards (w_db w1) = sql_update (\<lambda>r. sh_id r = sh_id sh \<and> sh_version r = sh_version sh)
      (patch_row st (w_now w0)) (db_shards ?d)"
    using w0(2) cur unfolding patch_tx_def ValidateTransition_def
    by (auto simp: tx_simps w0(1) split: option.splits sum.splits if_splits)
  have "patch_row st (w_now w0) sh \<in> set (db_shards (w_db w'))"
    using assms(3) by (auto simp: w0(3) rows set_sql_update intro: rev_image_eqI)
  moreover have "sh_bucket sh \<noteq> None" if "st = StateStandby"
    using t assms(4,5) that by (auto simp: life_ok_def CanTransition_data)
  moreover have "sh_bucket sh = None" if "st = StateActive"
    using t assms(4,5) that by (auto simp: life_ok_def CanTransition_data)
  ultimately show ?thesis
    by (intro bexI [of _ "patch_row st (w_now w0) sh"]) (auto simp: patch_row_def pool_row_def active_row_def)
qed

definition clean_shard :: Shard where
  "clean_shard = (demo_shard 1 StateCleaning (Some ''n0''))\<lparr>sh_sealed_at := Some 0\<rparr>"

theorem patch_strands_shards_witness:
  "\<exists>w' sh'. PatchState demo_store 1 StateStandby (demo_world (demo_db\<lparr>db_shards := [clean_shard]\<rparr>)) = (Inr (), w') \<and>
     sh' \<in> set (db_shards (w_db w')) \<and> sh_state sh' = StateStandby \<and> \<not> pool_row sh'"
proof -
  let ?d = "demo_db\<lparr>db_shards := [clean_shard]\<rparr>" and ?p = "PatchState demo_store 1 StateStandby"
  have ok: "db_constraints ?d" by code_simp
  have "fst (?p (demo_world ?d)) = Inr ()" by code_simp
  then obtain w' where w': "?p (demo_world ?d) = (Inr (), w')" by (metis prod.collapse)
  have other: "sl_other (w_orc (demo_world ?d) (w_pc (demo_world ?d))) (w_db (demo_world ?d)) = ?d"
    by (simp add: demo_world_def demo_slot_def)
  have sh: "sh_id clean_shard = 1" "clean_shard \<in> set (db_shards ?d)" "life_ok clean_shard" "sh_role clean_shard = RoleData"
    by (simp_all add: clean_shard_def demo_shard_def new_row_def life_ok_def role_ok_def)
  show ?thesis
    using patch_strands_shards [of demo_store clean_shard StateStandby "demo_world ?d" w'] w' ok sh
    unfolding other by auto
qed

end
