(* ===== verification/StoreConfig.thy ===== *)
theory StoreConfig
  imports StoreLive
begin

text \<open>
  The cluster configuration in its two places, the table and the cache of the process, and the
  registration of the error shard.
\<close>

section \<open>The configuration cache\<close>

text \<open>
  The cached configuration is one that \<open>ParseSpec\<close> accepted and agrees with the stored row on every
  column but the specification, whose text the database may print differently.
\<close>

definition cache_ok :: "world \<Rightarrow> bool" where
  "cache_ok w \<longleftrightarrow> (case w_cache w of None \<Rightarrow> True | Some cfg \<Rightarrow>
     ParseSpec (cc_axis cfg) (cc_raw cfg) = Inr (cc_spec cfg) \<and>
     (\<exists>r. db_config (w_db w) = Some r \<and> cr_mode r = cc_mode cfg \<and> cr_axis r = axis_string (cc_axis cfg) \<and>
        cr_max_bytes r = cc_max_bytes cfg \<and> cr_retention r = cc_retention cfg \<and> cr_future r = cc_future cfg))"

definition same_cache :: "'a io \<Rightarrow> bool" where
  "same_cache m \<longleftrightarrow> (\<forall>w. w_cache (snd (m w)) = w_cache w)"

named_theorems cache_rules \<open>calls that leave the cache alone\<close>

lemma same_cache_basic [cache_rules]:
  "same_cache (return_io x)" "same_cache (fail_io e)" "same_cache (tx_stmt S args f)" "same_cache (pool_stmt S args f)"
  by (simp_all add: same_cache_def return_io_def fail_io_def tx_stmt_def pool_stmt_def Let_def split: option.split)

lemma same_cache_catch [cache_rules]:
  "same_cache m \<Longrightarrow> (\<And>e. same_cache (h e)) \<Longrightarrow> (\<And>x. same_cache (k x)) \<Longrightarrow> same_cache (catch_io m h k)"
  unfolding same_cache_def catch_io_def by (simp split: prod.split sum.split) (metis snd_conv)

lemma same_cache_bind [cache_rules]: "same_cache m \<Longrightarrow> (\<And>x. same_cache (k x)) \<Longrightarrow> same_cache (bind_io m k)"
  unfolding bind_io_def by (intro cache_rules)

lemma same_cache_ignore [cache_rules]: "same_cache m \<Longrightarrow> same_cache (ignore_io m)"
  unfolding ignore_io_def by (intro cache_rules)

lemma same_cache_bump [cache_rules]: "same_cache (bumpTopologyVersionTx S)"
  unfolding bumpTopologyVersionTx_def by (rule cache_rules)

lemma same_cache_run_tx [cache_rules]:
  assumes "same_cache body"
  shows "same_cache (run_tx body)"
  unfolding same_cache_def
proof
  fix w :: world
  define w0 where "w0 = w\<lparr>w_pc := Suc (w_pc w), w_db := sl_other (w_orc w (w_pc w)) (w_db w), w_aborted := False,
      w_now := sl_now (w_orc w (w_pc w))\<rparr>"
  obtain r w1 where b: "body w0 = (r, w1)" by fastforce
  have "w_cache w0 = w_cache w" by (simp add: w0_def)
  then have "w_cache w1 = w_cache w" using assms b unfolding same_cache_def by (metis snd_conv)
  then show "w_cache (snd (run_tx body w)) = w_cache w"
    using \<open>w_cache w0 = w_cache w\<close> b
    by (auto simp: run_tx_def Let_def w0_def [symmetric] split: sum.split tx_end.split)
qed

lemma same_cache_row [cache_rules]: "same_cache (row_or_not_found r)"
  by (cases r) (simp_all add: row_or_not_found_def cache_rules)

lemma same_cache_bodies [cache_rules]:
  "same_cache (bootstrap_tx S cfg)" "same_cache (register_tx S u role dsn url st)" "same_cache (promote_tx S b)"
  "same_cache (seal_tx S fr seal event b)" "same_cache (patch_tx S i st)" "same_cache (clean_tx S b)"
  "same_cache (finish_tx S u)" "same_cache (drain_tx S b)"
  unfolding bootstrap_tx_def register_tx_def promote_tx_def seal_tx_def patch_tx_def clean_tx_def finish_tx_def drain_tx_def Let_def
  by (auto intro!: cache_rules split: sum.split option.split)

lemma same_cache_load [cache_rules]: "same_cache (loadConfigFromDB S)"
  unfolding loadConfigFromDB_def by (auto intro!: cache_rules split: sum.split option.split)

lemma run_op_cache:
  assumes "\<And>cfg. op \<noteq> OpBootstrap cfg" and "op \<noteq> OpGetConfig" and "op \<noteq> OpInvalidate"
  shows "w_cache (run_op S op w) = w_cache w"
proof -
  note defs = query_ops GetShardByID_def RegisterShard_def PromoteStandbyToActive_def AutoPromoteIfNoActive_def
    SealRotate_def CompleteDrainSeal_def PatchState_def MarkBucketCleaning_def FinishCleaning_def BeginDrain_def
    SetLastSeenAt_def UpdateStats_def MarkDrainReady_def BumpTopologyVersion_def GetTopologyVersion_def Let_def
  have "same_cache (RegisterShard S u role dsn url st)" for u role dsn url st
    unfolding defs by (auto intro!: cache_rules)
  moreover have "same_cache (AutoPromoteIfNoActive S b)" for b unfolding defs by (auto intro!: cache_rules)
  moreover have "same_cache (GetTopologyVersion S)" unfolding defs by (auto intro!: cache_rules split: option.split)
  moreover have "same_cache (UpdateStats S u n)" "same_cache (MarkDrainReady S u)" "same_cache (SetLastSeenAt S u t)" for u n t
    unfolding defs by (auto intro!: cache_rules)
  ultimately show ?thesis
    using assms unfolding same_cache_def
    by (cases op; simp; unfold defs; intro same_cache_def [THEN iffD1, rule_format] cache_rules)
qed

lemma moves_config:
  assumes "moves L w w'" and "db_constraints (w_db w)" and "db_config (w_db w) = Some r"
  shows "\<exists>r'. db_config (w_db w') = Some r' \<and> r'\<lparr>cr_version := 0\<rparr> = r\<lparr>cr_version := 0\<rparr>"
  using assms csteps_config [of L "cluster_of (w_db w)" "cluster_of (w_db w')" r]
  by (auto simp: moves_def db_steps_def config_follows_def)

lemma config_columns:
  assumes "r'\<lparr>cr_version := 0\<rparr> = r\<lparr>cr_version := 0\<rparr>"
  shows "cr_mode r' = cr_mode r" and "cr_axis r' = cr_axis r" and "cr_max_bytes r' = cr_max_bytes r"
    and "cr_retention r' = cr_retention r" and "cr_future r' = cr_future r"
  using arg_cong [OF assms, of cr_mode] arg_cong [OF assms, of cr_axis] arg_cong [OF assms, of cr_max_bytes]
    arg_cong [OF assms, of cr_retention] arg_cong [OF assms, of cr_future] by simp_all

lemma cache_ok_moves:
  assumes "moves L w w'" and "db_constraints (w_db w)" and "cache_ok w" and "w_cache w' = w_cache w"
  shows "cache_ok w'"
proof (cases "w_cache w")
  case (Some cfg)
  then obtain r where r: "ParseSpec (cc_axis cfg) (cc_raw cfg) = Inr (cc_spec cfg)" "db_config (w_db w) = Some r"
      "cr_mode r = cc_mode cfg" "cr_axis r = axis_string (cc_axis cfg)" "cr_max_bytes r = cc_max_bytes cfg"
      "cr_retention r = cc_retention cfg" "cr_future r = cc_future cfg"
    using assms(3) by (auto simp: cache_ok_def)
  obtain r' where "db_config (w_db w') = Some r'" "r'\<lparr>cr_version := 0\<rparr> = r\<lparr>cr_version := 0\<rparr>"
    using moves_config [OF assms(1,2) r(2)] by blast
  then show ?thesis using Some assms(4) r config_columns [of r' r] by (simp add: cache_ok_def)
qed (use assms(4) in \<open>simp add: cache_ok_def\<close>)

lemma cache_ok_Bootstrap:
  assumes "rely (db_steps UNIV) (w_orc w)" and "db_constraints (w_db w)" and "cache_ok w"
  shows "cache_ok (snd (Bootstrap S cfg w))"
proof -
  obtain x w1 where t: "run_tx (bootstrap_tx S cfg) w = (x, w1)" by fastforce
  show ?thesis
  proof (cases x)
    case (Inl e)
    then have "snd (Bootstrap S cfg w) = w1"
      using t by (simp add: Bootstrap_def bind_io_def catch_io_def fail_io_def)
    moreover have "w_cache w1 = w_cache w"
      using t same_cache_run_tx [OF same_cache_bodies(1), of S cfg] unfolding same_cache_def by (metis snd_conv)
    moreover have "moves UNIV w (snd (Bootstrap S cfg w))" using assms(1) by (intro keepsD keeps_Bootstrap) auto
    ultimately show ?thesis using cache_ok_moves [OF _ assms(2,3)] by simp
  next
    case (Inr cfg')
    have no: "bootstrap_tx S cfg w0 \<noteq> (Inr (NoCommit cfg'), w2)" for w0 w2
      by (auto simp: bootstrap_tx_def tx_simps split: sum.splits if_splits)
    obtain w0 w2 where c: "bootstrap_tx S cfg w0 = (Inr (Commit cfg'), w2)" "w_db w1 = w_db w2"
      using no t unfolding Inr by (auto elim: run_tx_Inr)
    have "ParseSpec (cc_axis cfg') (cc_raw cfg') = Inr (cc_spec cfg') \<and>
      (\<exists>r. db_config (w_db w1) = Some r \<and> cr_mode r = cc_mode cfg' \<and> cr_axis r = axis_string (cc_axis cfg') \<and>
        cr_max_bytes r = cc_max_bytes cfg' \<and> cr_retention r = cc_retention cfg' \<and> cr_future r = cc_future cfg')"
      using c unfolding bootstrap_tx_def
      by (auto simp: tx_simps insert_config_def config_exists_def write_db_Some split: if_splits sum.splits option.splits)
    then show ?thesis
      using t Inr by (simp add: Bootstrap_def bind_io_def catch_io_def cache_io_def storeConfigCache_def cache_ok_def)
  qed
qed

lemma config_of_row_columns:
  assumes "config_of_row c = Inr cfg"
  shows "ParseSpec (cc_axis cfg) (cc_raw cfg) = Inr (cc_spec cfg)" and "cr_mode c = cc_mode cfg"
    and "cr_axis c = axis_string (cc_axis cfg)" and "cr_max_bytes c = cc_max_bytes cfg"
    and "cr_retention c = cc_retention cfg" and "cr_future c = cc_future cfg"
  using assms by (auto simp: config_of_row_def Let_def split: sum.splits)

lemma load_Inr:
  assumes "loadConfigFromDB S w = (Inr cfg, w')"
  shows "\<exists>c. db_config (w_db w') = Some c \<and> config_of_row c = Inr cfg"
proof -
  obtain row w1 where p: "pool_stmt S [] select_config w = (Inr row, w1)"
    and k: "(case row of None \<Rightarrow> fail_io ErrNotBootstrapped
      | Some c \<Rightarrow> (case config_of_row c of Inl e \<Rightarrow> fail_io e | Inr cfg \<Rightarrow> return_io cfg)) w1 = (Inr cfg, w')"
    using assms unfolding loadConfigFromDB_def bind_io_Inr by blast
  have "db_config (w_db w1) = row"
    using p by (auto simp: pool_stmt_def run_stmt_def select_config_def Let_def split: if_splits)
  then show ?thesis using k by (cases row) (auto split: sum.splits)
qed

lemma cache_ok_GetConfig:
  assumes "rely (db_steps UNIV) (w_orc w)" and "db_constraints (w_db w)" and "cache_ok w"
  shows "cache_ok (snd (GetConfig S w))"
proof (cases "w_cache w")
  case None
  obtain x w1 where l: "loadConfigFromDB S w = (x, w1)" by fastforce
  show ?thesis
  proof (cases x)
    case (Inl e)
    have "w_cache w1 = w_cache w" using l same_cache_load [of S] unfolding same_cache_def by (metis snd_conv)
    then show ?thesis using None l Inl
      by (simp add: GetConfig_def bind_io_def catch_io_def fail_io_def cache_ok_def)
  next
    case (Inr cfg)
    then obtain c where "db_config (w_db w1) = Some c" "config_of_row c = Inr cfg" using load_Inr l by blast
    then show ?thesis using None l Inr config_of_row_columns [of c cfg]
      by (simp add: GetConfig_def bind_io_def catch_io_def cache_io_def storeConfigCache_def cache_ok_def)
  qed
qed (use assms(3) in \<open>simp add: GetConfig_def\<close>)

lemma cache_ok_run_op:
  assumes "rely (db_steps UNIV) (w_orc w)" and "db_constraints (w_db w)" and "cache_ok w"
  shows "cache_ok (run_op S op w)"
proof (cases "(\<exists>cfg. op = OpBootstrap cfg) \<or> op = OpGetConfig \<or> op = OpInvalidate")
  case True
  moreover have "cache_ok (InvalidateConfigCache w)" by (simp add: InvalidateConfigCache_def cache_ok_def)
  ultimately show ?thesis
    using cache_ok_Bootstrap [OF assms] cache_ok_GetConfig [OF assms] by auto
next
  case False
  then show ?thesis
    using cache_ok_moves [OF run_op_moves [OF assms(1)] assms(2,3)] run_op_cache [of op S w] by simp
qed


definition demo_config :: ClusterConfig where
  "demo_config = \<lparr>cc_mode = ''range'', cc_axis = AxisNumeric, cc_spec = demo_numeric,
     cc_raw = json_obj1 ''width'' ''1000'', cc_max_bytes = 100, cc_retention = None, cc_future = None\<rparr>"


section \<open>The error shard\<close>

text \<open>
  Once the cluster has an error shard, no registration with the error role succeeds, not even
  the error shard's own repeated registration after a restart, which for a data shard refreshes the
  row; the tables stay as they are.
\<close>

lemma error_shard_cannot_reregister:
  assumes "quiet (w_orc w)" and "\<forall>n. sl_fault (w_orc w n) \<noteq> FailAfter"
    and "sh \<in> set (db_shards (w_db w))" and "sh_role sh = RoleError"
  shows "\<exists>e w'. RegisterShard S u RoleError dsn url st w = (Inl e, w') \<and> w_db w' = w_db w"
proof -
  let ?b = "register_tx S u RoleError dsn url StateActive"
  have n: "0 < int (sql_count (\<lambda>sh. sh_role sh = RoleError) (db_shards (w_db w)))"
    using sql_count_pos [OF assms(3), of "\<lambda>sh. sh_role sh = RoleError"] assms(4) by simp
  have no: "\<not> (\<exists>x w1. ?b w0 = (Inr x, w1))" if "w_db w0 = w_db w" for w0
    using n that by (auto simp: register_tx_def Let_def bind_io_Inr tx_stmt_Inr count_rows_def split: if_splits)
  have o: "keeps_orc ?b" unfolding register_tx_def Let_def by (auto intro!: io_rules)
  obtain x w1 where t: "run_tx ?b w = (x, w1)" by fastforce
  have "\<exists>e. x = Inl e"
  proof (cases x)
    case (Inr y)
    then show ?thesis
      using t no assms(1) by (auto simp: quiet_def elim!: run_tx_Inr)
  qed simp
  then obtain e where e: "x = Inl e" by blast
  have "w_db w1 = w_db w"
    using run_tx_error [OF t [unfolded e] _ o] assms(1,2) by (simp add: quiet_def)
  moreover have "RegisterShard S u RoleError dsn url st w = (Inl e, w1)"
    using t e by (simp add: RegisterShard_def startup_state_def Let_def bind_io_def catch_io_def fail_io_def)
  ultimately show ?thesis by blast
qed

definition error_db :: db where
  "error_db = empty_db\<lparr>db_shards := [new_row 1 ''u1'' RoleError StateActive ''dsn1'' [] 0]\<rparr>"

lemma error_shard_cannot_reregister_example:
  "\<exists>e w'. RegisterShard demo_store ''u1'' RoleError ''dsn2'' [] (StateOther []) (demo_world error_db) = (Inl e, w') \<and>
     w_db w' = error_db"
  using error_shard_cannot_reregister [of "demo_world error_db" "new_row 1 ''u1'' RoleError StateActive ''dsn1'' [] 0"
      demo_store "''u1''" "''dsn2''" "[]" "StateOther []"]
  by (simp add: error_db_def new_row_def demo_slot_def)

end
