(* ===== verification/Resolve.thy ===== *)
theory Resolve
  imports StoreConfig
begin

text \<open>
  \<^verbatim>\<open>internal/resolve/resolve.go\<close>: resolution of a shard key to the shard that takes a write and to
  the shards that answer a read, with failover of a stale active shard and promotion from the pool.
  The clock reading is an argument; parsing and printing of UUIDs, a third-party package, is the
  record \<open>uuidlib\<close>.
\<close>

record uuidlib =
  uuid_Parse :: "string \<Rightarrow> uuid option"
  uuid_String :: "uuid \<Rightarrow> string"

record WriteResult =
  wres_routing :: RouteKind
  wres_bucket :: string
  wres_reason :: RouteReason
  wres_shard :: int
  wres_uuid :: string
  wres_endpoint :: string
  wres_state :: State

record ReadShard =
  rs_shard :: int
  rs_uuid :: string
  rs_endpoint :: string
  rs_state :: State

record ReadResult =
  rres_routing :: RouteKind
  rres_bucket :: string
  rres_reason :: RouteReason
  rres_shards :: "ReadShard list"

definition opt_int :: "int option \<Rightarrow> int" where
  "opt_int v = (case v of None \<Rightarrow> 0 | Some x \<Rightarrow> x)"

definition write_result :: "uuidlib \<Rightarrow> RouteKind \<Rightarrow> string \<Rightarrow> RouteReason \<Rightarrow> Shard \<Rightarrow> WriteResult" where
  "write_result U kind b reason sh =
    \<lparr>wres_routing = kind, wres_bucket = b, wres_reason = reason, wres_shard = sh_id sh,
     wres_uuid = uuid_String U (sh_uuid sh), wres_endpoint = Endpoint sh, wres_state = sh_state sh\<rparr>"

definition read_shard :: "uuidlib \<Rightarrow> Shard \<Rightarrow> ReadShard" where
  "read_shard U sh = \<lparr>rs_shard = sh_id sh, rs_uuid = uuid_String U (sh_uuid sh), rs_endpoint = Endpoint sh,
     rs_state = sh_state sh\<rparr>"

definition failoverStaleActive :: "Store \<Rightarrow> string \<Rightarrow> unit io" where
  "failoverStaleActive S b =
    catch_io (StaleActiveForBucket S b)
      (\<lambda>e. if e = ErrNotFound then return_io () else fail_io e)
      (\<lambda>_. catch_io (SealRotate S b)
        (\<lambda>e. if e = ErrNotFound \<or> e = ErrConflict then return_io () else fail_io e)
        return_io)"

definition ensureActive :: "Store \<Rightarrow> string \<Rightarrow> Shard io" where
  "ensureActive S b =
    catch_io (ActiveForBucket S b)
      (\<lambda>e. if e \<noteq> ErrNotFound then fail_io e
        else bind_io (failoverStaleActive S b) (\<lambda>_.
          catch_io (ActiveForBucket S b)
            (\<lambda>e. if e \<noteq> ErrNotFound then fail_io e
              else bind_io (AutoPromoteIfNoActive S b) (\<lambda>promoted. case promoted of
                Some sh \<Rightarrow> return_io sh
              | None \<Rightarrow> ActiveForBucket S b))
            return_io))
      return_io"

definition ResolveWrite :: "golib \<Rightarrow> uuidlib \<Rightarrow> Store \<Rightarrow> gtime \<Rightarrow> shard_key \<Rightarrow> WriteResult io" where
  "ResolveWrite L U S now shardKey =
    bind_io (GetConfig S) (\<lambda>cfg.
      case ClassifyWrite L (cc_spec cfg) now shardKey (opt_int (cc_retention cfg)) (opt_int (cc_future cfg)) of
        Inl e \<Rightarrow> fail_io e
      | Inr route \<Rightarrow>
          if wr_kind route = RouteError then
            bind_io (GetErrorShard S) (\<lambda>sh.
              return_io (write_result U RouteError ErrorBucketID (wr_reason route) sh))
          else
            bind_io (ensureActive S (wr_bucket route)) (\<lambda>sh.
              return_io (write_result U RouteBucket (wr_bucket route) ReasonNone sh)))"

definition ResolveRead :: "golib \<Rightarrow> uuidlib \<Rightarrow> Store \<Rightarrow> gtime \<Rightarrow> shard_key \<Rightarrow> ReadResult io" where
  "ResolveRead L U S now shardKey =
    bind_io (GetConfig S) (\<lambda>cfg.
      case ClassifyRead L (cc_spec cfg) now shardKey (opt_int (cc_retention cfg)) (opt_int (cc_future cfg)) of
        Inl e \<Rightarrow> fail_io e
      | Inr route \<Rightarrow>
          if wr_kind route = RouteError then
            if wr_reason route = ReasonEvicted then
              return_io \<lparr>rres_routing = RouteError, rres_bucket = [], rres_reason = wr_reason route, rres_shards = []\<rparr>
            else
              bind_io (GetErrorShard S) (\<lambda>sh.
                return_io \<lparr>rres_routing = RouteError, rres_bucket = ErrorBucketID, rres_reason = wr_reason route,
                  rres_shards = [read_shard U sh]\<rparr>)
          else
            bind_io (ShardsForBucketRead S (wr_bucket route)) (\<lambda>shards.
            bind_io (if shards = [] then bind_io (ensureActive S (wr_bucket route)) (\<lambda>sh. return_io [sh])
                     else return_io shards) (\<lambda>shards'.
              return_io \<lparr>rres_routing = RouteBucket, rres_bucket = wr_bucket route, rres_reason = ReasonNone,
                rres_shards = map (read_shard U) shards'\<rparr>)))"

section \<open>Refinement of the contract\<close>

definition resolve_labels :: "label set" where
  "resolve_labels = {LSeal, LPromote True, LPromote False}"

lemma keeps_failoverStaleActive: "LSeal \<in> L \<Longrightarrow> keeps (db_steps L) (failoverStaleActive S b)"
  unfolding failoverStaleActive_def by (auto intro!: io_rules keeps_SealRotate)

lemma keeps_ensureActive: "resolve_labels \<subseteq> L \<Longrightarrow> keeps (db_steps L) (ensureActive S b)"
  unfolding ensureActive_def
  by (auto intro!: io_rules keeps_failoverStaleActive keeps_AutoPromoteIfNoActive simp: resolve_labels_def
      split: option.split)

lemma keeps_ResolveWrite: "resolve_labels \<subseteq> L \<Longrightarrow> keeps (db_steps L) (ResolveWrite L' U S now k)"
  unfolding ResolveWrite_def by (auto intro!: io_rules keeps_ensureActive split: sum.split)

lemma keeps_ResolveRead: "resolve_labels \<subseteq> L \<Longrightarrow> keeps (db_steps L) (ResolveRead L' U S now k)"
  unfolding ResolveRead_def by (auto intro!: io_rules keeps_ensureActive split: sum.split)

section \<open>What a resolution returns\<close>

text \<open>Calls that return a row give one that is stored when they end, if no other session writes.\<close>

definition returns_row :: "(Shard \<Rightarrow> bool) \<Rightarrow> Shard io \<Rightarrow> bool" where
  "returns_row P m \<longleftrightarrow> (\<forall>w sh w'. quiet (w_orc w) \<longrightarrow> db_constraints (w_db w) \<longrightarrow> m w = (Inr sh, w') \<longrightarrow>
     sh \<in> set (db_shards (w_db w')) \<and> P sh)"

lemma row_query_returns:
  assumes "\<And>now sh. Q now sh \<Longrightarrow> P sh"
  shows "returns_row P (bind_io (pool_stmt S args (select_row Q)) row_or_not_found)"
  unfolding returns_row_def
proof (intro allI impI)
  fix w sh w' assume q: "quiet (w_orc w)" and m: "bind_io (pool_stmt S args (select_row Q)) row_or_not_found w = (Inr sh, w')"
  then obtain r w1 where p: "pool_stmt S args (select_row Q) w = (Inr r, w1)" and k: "row_or_not_found r w1 = (Inr sh, w')"
    unfolding bind_io_Inr by blast
  have w1: "w_db w1 = w_db w" using reads_onlyD [OF reads_only_query(1) q p] by simp
  have r: "r = Some sh" "w1 = w'" using k by (auto simp: row_or_not_found_def split: option.splits)
  have "select_row Q (w_orc w (w_pc w)) (sl_now (w_orc w (w_pc w))) (w_db w) = Some (r, w_db w)"
  proof (rule pool_query_quiet(3) [OF q])
    show "\<exists>x. select_row Q sl now d = Some (x, d)" for sl now d by (simp add: select_row_def)
    show "fst (pool_stmt S args (select_row Q) w) = Inr r" using p by simp
  qed
  then have "sh \<in> set (filter (Q (sl_now (w_orc w (w_pc w)))) (db_shards (w_db w)))"
    unfolding select_row_def r by (intro first_row_Some) simp
  then show "sh \<in> set (db_shards (w_db w')) \<and> P sh" using assms w1 r by auto
qed

lemma ActiveForBucket_returns: "returns_row (data_in StateActive b) (ActiveForBucket S b)"
  unfolding ActiveForBucket_def by (rule row_query_returns) simp

lemma GetErrorShard_returns: "returns_row (\<lambda>sh. sh_role sh = RoleError) (GetErrorShard S)"
  unfolding GetErrorShard_def by (rule row_query_returns) simp

lemma GetShardByID_returns: "returns_row (\<lambda>sh. sh_id sh = i) (GetShardByID S i)"
  unfolding GetShardByID_def by (rule row_query_returns) simp

lemma promote_tx_rows:
  assumes "promote_tx S b w = (Inr (Commit i), w')"
  obtains sb where "sb \<in> set (db_shards (w_db w))" and "pool_row sb" and "i = sh_id sb" and "w_orc w' = w_orc w"
    and "db_constraints (w_db w')"
    and "db_shards (w_db w') = sql_update (\<lambda>r. sh_id r = sh_id sb) (promote_row b (w_now w)) (db_shards (w_db w))"
proof -
  let ?k = "\<lambda>sh. bind_io (tx_stmt S [b] (update_shards (\<lambda>r. sh_id r = sh_id sh) (promote_row b)))
    (\<lambda>_. bind_io (bumpTopologyVersionTx S) (\<lambda>_. return_io (Commit (sh_id sh))))"
  obtain r w1 where 1: "tx_stmt S [] select_standby w = (Inr r, w1)"
      and k: "(case r of None \<Rightarrow> fail_io ErrNotFound | Some sh \<Rightarrow> ?k sh) w1 = (Inr (Commit i), w')"
    using assms unfolding promote_tx_def bind_io_Inr [of "tx_stmt S [] select_standby"] by blast
  then obtain row where r: "r = Some row" by (cases r) auto
  have row: "row \<in> set (db_shards (w_db w))" "pool_row row" and w1: "w1 = w\<lparr>w_pc := Suc (w_pc w)\<rparr>"
    using 1 unfolding r tx_stmt_Inr by (auto dest!: select_standby_Some)
  have "?k row w1 = (Inr (Commit i), w')" using k unfolding r by simp
  then have "i = sh_id row" "w_orc w' = w_orc w" "db_constraints (w_db w')"
    "db_shards (w_db w') = sql_update (\<lambda>r. sh_id r = sh_id row) (promote_row b (w_now w)) (db_shards (w_db w))"
    unfolding w1 by (auto simp: tx_simps)
  then show thesis by (intro that [OF row])
qed

lemma returns_rowD:
  "returns_row P m \<Longrightarrow> quiet (w_orc w) \<Longrightarrow> db_constraints (w_db w) \<Longrightarrow> m w = (Inr sh, w') \<Longrightarrow>
    sh \<in> set (db_shards (w_db w')) \<and> P sh"
  unfolding returns_row_def by blast

lemma PromoteStandbyToActive_returns: "returns_row (data_in StateActive b) (PromoteStandbyToActive S b)"
  unfolding returns_row_def
proof (intro allI impI)
  fix w sh w' assume q: "quiet (w_orc w)" and ok: "db_constraints (w_db w)"
    and p: "PromoteStandbyToActive S b w = (Inr sh, w')"
  obtain i w1 where t: "run_tx (promote_tx S b) w = (Inr i, w1)" and g: "GetShardByID S i w1 = (Inr sh, w')"
    using p unfolding PromoteStandbyToActive_def bind_io_Inr by blast
  have no: "promote_tx S b w0 \<noteq> (Inr (NoCommit i), w2)" for w0 w2
    by (auto simp: promote_tx_def tx_simps split: option.splits)
  obtain w0 w2 where c: "w_db w0 = w_db w" "w_orc w0 = w_orc w" "promote_tx S b w0 = (Inr (Commit i), w2)"
      "w_db w1 = w_db w2" "w_orc w1 = w_orc w2"
    using t no q by (auto simp: quiet_def elim!: run_tx_Inr)
  obtain sb now where sb: "sb \<in> set (db_shards (w_db w))" "pool_row sb" "i = sh_id sb" "w_orc w2 = w_orc w"
      "db_constraints (w_db w2)"
      "db_shards (w_db w2) = sql_update (\<lambda>r. sh_id r = sh_id sb) (promote_row b now) (db_shards (w_db w))"
    by (rule promote_tx_rows [OF c(3)]) (unfold c(1,2), blast)
  have sh: "sh \<in> set (db_shards (w_db w'))" "sh_id sh = i"
    using returns_rowD [OF GetShardByID_returns _ _ g] q c sb(4,5) by auto
  have "w_db w' = w_db w1" using reads_onlyD [OF reads_only_GetShardByID _ g] q c sb(4) by auto
  then have "sh \<in> (\<lambda>r. if sh_id r = sh_id sb then promote_row b now r else r) ` set (db_shards (w_db w))"
    using sh(1) c(4) sb(6) by (simp add: set_sql_update)
  then obtain r where r: "r \<in> set (db_shards (w_db w))" "sh = (if sh_id r = sh_id sb then promote_row b now r else r)"
    by blast
  then have "sh_id r = sh_id sb" using sh(2) sb(3) by (auto split: if_splits)
  then have "r = sb" using key_unique_eq [OF db_constraintsD(1) [OF ok] r(1) sb(1)] by blast
  then show "sh \<in> set (db_shards (w_db w')) \<and> data_in StateActive b sh"
    using sh(1) r(2) sb(2) by (auto simp: data_in_def promote_row_def pool_row_def)
qed

text \<open>How \<open>AutoPromoteIfNoActive\<close> can return a shard: only through the promotion.\<close>

lemma quiet_moves_ok:
  "keeps (db_steps L) m \<Longrightarrow> quiet (w_orc w) \<Longrightarrow> db_constraints (w_db w) \<Longrightarrow> m w = (r, w') \<Longrightarrow>
    quiet (w_orc w') \<and> db_constraints (w_db w')"
  using keepsD [of L m w] quiet_rely by (fastforce simp: moves_def db_steps_def)

lemma AutoPromote_returns:
  assumes "quiet (w_orc w)" and "db_constraints (w_db w)" and "AutoPromoteIfNoActive S b w = (Inr (Some sh), w')"
  shows "sh \<in> set (db_shards (w_db w')) \<and> data_in StateActive b sh"
proof -
  obtain w1 where 1: "ActiveForBucket S b w = (Inl ErrNotFound, w1)"
      and 2: "bind_io (HasActiveInBucket S b) (promote_if_free S b) w1 = (Inr (Some sh), w')"
    using assms(3) unfolding AutoPromoteIfNoActive_def promote_if_free_def [abs_def]
    by (auto simp: catch_io_def return_io_def fail_io_def split: prod.splits sum.splits if_splits)
  note q1 = quiet_moves_ok [OF keeps_queries(4) assms(1,2) 1]
  obtain w2 where 3: "HasActiveInBucket S b w1 = (Inr False, w2)" and 4: "promote_if_free S b False w2 = (Inr (Some sh), w')"
    using 2 unfolding bind_io_Inr by (auto simp: promote_if_free_def split: if_splits)
  note q2 = quiet_moves_ok [OF keeps_queries(9) conjunct1 [OF q1] conjunct2 [OF q1] 3]
  obtain w3 where 5: "StaleActiveForBucket S b w2 = (Inl ErrNotFound, w3)"
      and 6: "PromoteStandbyToActive S b w3 = (Inr sh, w')"
    using 4 unfolding promote_if_free_def
    by (auto simp: catch_io_def fail_io_def bind_io_def return_io_def split: prod.splits sum.splits if_splits)
  note q3 = quiet_moves_ok [OF keeps_queries(5) conjunct1 [OF q2] conjunct2 [OF q2] 5]
  show ?thesis using returns_rowD [OF PromoteStandbyToActive_returns _ _ 6] q3 by blast
qed

lemma ensureActive_returns: "returns_row (data_in StateActive b) (ensureActive S b)"
  unfolding returns_row_def
proof (intro allI impI)
  fix w sh w' assume q: "quiet (w_orc w)" "db_constraints (w_db w)" and e: "ensureActive S b w = (Inr sh, w')"
  obtain r w1 where a: "ActiveForBucket S b w = (r, w1)" by fastforce
  note q1 = quiet_moves_ok [OF keeps_queries(4) q a]
  show "sh \<in> set (db_shards (w_db w')) \<and> data_in StateActive b sh"
  proof (cases r)
    case (Inr x)
    then show ?thesis
      using e a returns_rowD [OF ActiveForBucket_returns q] by (simp add: ensureActive_def catch_io_def)
  next
    case (Inl err)
    then obtain w2 where f: "failoverStaleActive S b w1 = (Inr (), w2)"
      and k: "catch_io (ActiveForBucket S b)
        (\<lambda>e. if e \<noteq> ErrNotFound then fail_io e
          else bind_io (AutoPromoteIfNoActive S b) (\<lambda>promoted. case promoted of
            Some sh \<Rightarrow> return_io sh | None \<Rightarrow> ActiveForBucket S b)) return_io w2 = (Inr sh, w')"
      using e a by (auto simp: ensureActive_def catch_io_def [of "ActiveForBucket S b" _ _ w] bind_io_Inr split: if_splits)
    note q2 = quiet_moves_ok [OF keeps_failoverStaleActive [of UNIV] conjunct1 [OF q1] conjunct2 [OF q1] f, simplified]
    obtain r2 w3 where a2: "ActiveForBucket S b w2 = (r2, w3)" by fastforce
    note q3 = quiet_moves_ok [OF keeps_queries(4) conjunct1 [OF q2] conjunct2 [OF q2] a2]
    show ?thesis
    proof (cases r2)
      case (Inr x)
      then show ?thesis
        using k a2 returns_rowD [OF ActiveForBucket_returns, of w2] q2 by (simp add: catch_io_def)
    next
      case (Inl err2)
      then obtain p w4 where p: "AutoPromoteIfNoActive S b w3 = (Inr p, w4)"
        and k2: "(case p of Some sh \<Rightarrow> return_io sh | None \<Rightarrow> ActiveForBucket S b) w4 = (Inr sh, w')"
        using k a2 by (auto simp: catch_io_def bind_io_Inr split: if_splits)
      note q4 = quiet_moves_ok [OF keeps_AutoPromoteIfNoActive [of UNIV] conjunct1 [OF q3] conjunct2 [OF q3] p, simplified]
      show ?thesis
        using k2 p AutoPromote_returns [of w3 S b] q3 returns_rowD [OF ActiveForBucket_returns, of w4 S b] q4
        by (cases p) auto
    qed
  qed
qed

lemma same_cache_ensureActive [cache_rules]: "same_cache (ensureActive S b)"
  unfolding ensureActive_def failoverStaleActive_def ActiveForBucket_def StaleActiveForBucket_def SealRotate_def
    AutoPromoteIfNoActive_def HasActiveInBucket_def PromoteStandbyToActive_def GetShardByID_def
  by (auto intro!: cache_rules split: option.split)

lemma same_cache_GetErrorShard [cache_rules]: "same_cache (GetErrorShard S)"
  unfolding GetErrorShard_def by (intro cache_rules)

lemma same_cacheD: "same_cache m \<Longrightarrow> m w = (r, w') \<Longrightarrow> w_cache w' = w_cache w"
  unfolding same_cache_def by (metis snd_conv)

lemma GetConfig_Inr: "GetConfig S w = (Inr cfg, w') \<Longrightarrow> w_cache w' = Some cfg"
  by (auto simp: GetConfig_def bind_io_Inr cache_io_def storeConfigCache_def split: option.splits)

text \<open>
  C3: a write is resolved to where it belongs. When no other session writes, the shard that
  \<open>ResolveWrite\<close> returns is stored when the call ends; for a key that the classification under the
  cached configuration sends to a bucket it is the active data shard of that bucket, and for
  every other key it is the error shard, together with the reason.
\<close>

theorem resolve_write_sound:
  assumes "quiet (w_orc w)" and "db_constraints (w_db w)" and "ResolveWrite L U S now k w = (Inr res, w')"
  shows "\<exists>cfg route sh. w_cache w' = Some cfg \<and> sh \<in> set (db_shards (w_db w')) \<and>
    ClassifyWrite L (cc_spec cfg) now k (opt_int (cc_retention cfg)) (opt_int (cc_future cfg)) = Inr route \<and>
    (if wr_kind route = RouteError
     then sh_role sh = RoleError \<and> res = write_result U RouteError ErrorBucketID (wr_reason route) sh
     else data_in StateActive (wr_bucket route) sh \<and> res = write_result U RouteBucket (wr_bucket route) ReasonNone sh)"
proof -
  obtain cfg w1 where c: "GetConfig S w = (Inr cfg, w1)"
    and k: "(case ClassifyWrite L (cc_spec cfg) now k (opt_int (cc_retention cfg)) (opt_int (cc_future cfg)) of
        Inl e \<Rightarrow> fail_io e
      | Inr route \<Rightarrow> if wr_kind route = RouteError
          then bind_io (GetErrorShard S) (\<lambda>sh. return_io (write_result U RouteError ErrorBucketID (wr_reason route) sh))
          else bind_io (ensureActive S (wr_bucket route)) (\<lambda>sh.
            return_io (write_result U RouteBucket (wr_bucket route) ReasonNone sh))) w1 = (Inr res, w')"
    using assms(3) unfolding ResolveWrite_def bind_io_Inr [of "GetConfig S"] by blast
  note q = quiet_moves_ok [OF keeps_GetConfig assms(1,2) c]
  obtain route where r: "ClassifyWrite L (cc_spec cfg) now k (opt_int (cc_retention cfg)) (opt_int (cc_future cfg)) = Inr route"
    using k by (auto split: sum.splits)
  show ?thesis
  proof (cases "wr_kind route = RouteError")
    case True
    then obtain sh where g: "GetErrorShard S w1 = (Inr sh, w')"
      and res: "res = write_result U RouteError ErrorBucketID (wr_reason route) sh"
      using k r by (auto simp: bind_io_Inr)
    show ?thesis
      using True r res returns_rowD [OF GetErrorShard_returns _ _ g] q GetConfig_Inr [OF c]
        same_cacheD [OF same_cache_GetErrorShard g] by auto
  next
    case False
    then obtain sh where g: "ensureActive S (wr_bucket route) w1 = (Inr sh, w')"
      and res: "res = write_result U RouteBucket (wr_bucket route) ReasonNone sh"
      using k r by (auto simp: bind_io_Inr)
    show ?thesis
      using False r res returns_rowD [OF ensureActive_returns _ _ g] q GetConfig_Inr [OF c]
        same_cacheD [OF same_cache_ensureActive g] by auto
  qed
qed

definition demo_uuid :: uuidlib where
  "demo_uuid = \<lparr>uuid_Parse = Some, uuid_String = (\<lambda>u. u)\<rparr>"

theorem resolve_write_sound_witness:
  "\<exists>sh res w'. ResolveWrite demo_lib demo_uuid demo_store 0 (KInt64 7) (demo_world demo_db) = (Inr res, w') \<and>
     sh \<in> set (db_shards (w_db w')) \<and> data_in StateActive ''n0'' sh \<and>
     res = write_result demo_uuid RouteBucket ''n0'' ReasonNone sh"
proof -
  let ?m = "ResolveWrite demo_lib demo_uuid demo_store 0 (KInt64 7) (demo_world demo_db)"
  have "is_ok (fst ?m)" by code_simp
  then obtain res w' where m: "?m = (Inr res, w')" by (cases ?m; cases "fst ?m") auto
  have "w_cache (snd ?m) = Some (demo_config\<lparr>cc_raw := cr_spec (the (db_config demo_db))\<rparr>)" by code_simp
  then have cache: "w_cache w' = Some (demo_config\<lparr>cc_raw := cr_spec (the (db_config demo_db))\<rparr>)" using m by simp
  have cl: "ClassifyWrite demo_lib demo_numeric 0 (KInt64 7) (opt_int None) (opt_int None) = Inr (bucket_route ''n0'')"
    by code_simp
  show ?thesis
    using resolve_write_sound [of "demo_world demo_db" demo_lib demo_uuid demo_store 0 "KInt64 7" res w'] m cache cl
    by (auto simp: demo_db_constraints demo_config_def bucket_route_def)
qed

section \<open>Failover\<close>

text \<open>All calls fall into one heartbeat interval, in which the row \<open>cur\<close> stays stale.\<close>

definition stale_throughout :: "Store \<Rightarrow> (nat \<Rightarrow> slot) \<Rightarrow> Shard \<Rightarrow> bool" where
  "stale_throughout S orc cur \<longleftrightarrow> (\<forall>n. stale_row S (sl_now (orc n)) cur) \<and>
     (\<forall>n m. sl_now (orc n) - heartbeatIntervalParam S \<le> sl_now (orc m))"

lemma stale_not_fresh: "stale_row S now sh \<Longrightarrow> \<not> fresh_row S now sh"
  by (auto simp: stale_row_def fresh_row_def split: option.splits)

lemma one_row_healthy:
  assumes "healthy S (w_orc w)" and "sh \<in> set (db_shards (w_db w))" and "Q (sl_now (w_orc w (w_pc w))) sh"
    and "\<And>r. r \<in> set (db_shards (w_db w)) \<Longrightarrow> Q (sl_now (w_orc w (w_pc w))) r \<Longrightarrow> r = sh"
  shows "bind_io (pool_stmt S args (select_row Q)) row_or_not_found w = (Inr sh, w\<lparr>w_pc := Suc (w_pc w)\<rparr>)"
proof -
  have "first_row (filter (Q (sl_now (w_orc w (w_pc w)))) (db_shards (w_db w))) = Some sh"
    using assms(2-4) by (intro first_row_unique)
  then show ?thesis
    using assms(1) by (simp add: bind_io_def catch_io_def pool_stmt_healthy select_row_def row_or_not_found_def return_io_def)
qed

lemma failover_ensureActive:
  assumes h: "healthy S (w_orc w)" and d: "db_constraints (w_db w)" "db_room (w_db w)"
    and cur: "cur \<in> set (db_shards (w_db w))" "data_in StateActive b cur" "stale_throughout S (w_orc w) cur"
    and sb: "next_standby (db_shards (w_db w)) = Some sb"
  shows "\<exists>w' t. ensureActive S b w = (Inr (promote_row b t sb), w') \<and>
    db_shards (w_db w') = map (rotated seal_row b t (sh_id cur) (Some (sh_id sb))) (db_shards (w_db w))"
proof -
  note only = active_unique [OF d(1) _ cur(1) _ cur(2)]
  have stale: "stale_row S (sl_now (w_orc w n)) cur" for n using cur(3) by (simp add: stale_throughout_def)
  define w1 where "w1 = w\<lparr>w_pc := Suc (w_pc w)\<rparr>"
  define w2 where "w2 = w\<lparr>w_pc := Suc (Suc (w_pc w))\<rparr>"
  define t where "t = sl_now (w_orc w2 (w_pc w2))"
  have 1: "ActiveForBucket S b w = (Inl ErrNotFound, w1)"
  proof -
    have "filter (\<lambda>sh. data_in StateActive b sh \<and> fresh_row S (sl_now (w_orc w (w_pc w))) sh) (db_shards (w_db w)) = []"
      using only stale_not_fresh [OF stale] by (auto simp: filter_empty_conv)
    then show ?thesis
      using h by (simp add: ActiveForBucket_def bind_io_def catch_io_def pool_stmt_healthy select_row_def
          row_or_not_found_def fail_io_def w1_def)
  qed
  have 2: "StaleActiveForBucket S b w1 = (Inr cur, w2)"
  proof -
    have "bind_io (pool_stmt S [b] (select_row (\<lambda>now sh. data_in StateActive b sh \<and> stale_row S now sh)))
        row_or_not_found w1 = (Inr cur, w1\<lparr>w_pc := Suc (w_pc w1)\<rparr>)"
    proof (rule one_row_healthy)
      show "r = cur" if "r \<in> set (db_shards (w_db w1))"
          "data_in StateActive b r \<and> stale_row S (sl_now (w_orc w1 (w_pc w1))) r" for r
        using only [of r] that by (simp add: w1_def)
    qed (use h cur(1,2) stale in \<open>simp_all add: w1_def\<close>)
    then show ?thesis by (simp add: StaleActiveForBucket_def w1_def w2_def)
  qed
  obtain w3 where 3: "SealRotate S b w2 = (Inr (), w3)"
      and rows: "db_shards (w_db w3) = map (rotated seal_row b t (sh_id cur) (Some (sh_id sb))) (db_shards (w_db w))"
      and orc3: "w_orc w3 = w_orc w"
    using SealRotate_healthy [of S w2 cur b] h d cur(1,2) sb by (auto simp: w2_def t_def)
  have ok3: "db_constraints (w_db w3)"
    using keepsD [OF keeps_SealRotate [of UNIV S b], of w2] 3 quiet_rely [OF healthyD(1) [OF h]] d(1)
    by (auto simp: moves_def db_steps_def w2_def)
  have s: "sb \<in> set (db_shards (w_db w))" "pool_row sb" using next_standby_Some [OF sb] by auto
  have "sh_id sb \<noteq> sh_id cur"
    using key_unique_eq [OF db_constraintsD(1) [OF d(1)] s(1) cur(1)] s(2) cur(2) by (auto simp: pool_row_def data_in_def)
  then have new: "promote_row b t sb \<in> set (db_shards (w_db w3))"
    using s(1) by (force simp: rows rotated_def)
  have act: "data_in StateActive b (promote_row b t sb)" using s(2) by (simp add: data_in_def promote_row_def pool_row_def)
  have "fresh_row S (sl_now (w_orc w3 n)) (promote_row b t sb)" for n
    using cur(3) by (simp add: fresh_row_def promote_row_def stale_throughout_def orc3 t_def w2_def)
  then have 4: "ActiveForBucket S b w3 = (Inr (promote_row b t sb), w3\<lparr>w_pc := Suc (w_pc w3)\<rparr>)"
    unfolding ActiveForBucket_def
  proof (intro one_row_healthy)
    show "r = promote_row b t sb" if "r \<in> set (db_shards (w_db w3))"
        "data_in StateActive b r \<and> fresh_row S (sl_now (w_orc w3 (w_pc w3))) r" for r
      using active_unique [OF ok3 that(1) new _ act] that(2) by simp
  qed (use h new act in \<open>simp_all add: orc3\<close>)
  have "ensureActive S b w = (Inr (promote_row b t sb), w3\<lparr>w_pc := Suc (w_pc w3)\<rparr>)"
    using 1 2 3 4 by (simp add: ensureActive_def failoverStaleActive_def catch_io_def bind_io_def return_io_def)
  then show ?thesis using rows by auto
qed

text \<open>
  C16: failover. A write to a bucket whose active shard stopped sending heartbeats seals that shard,
  promotes the first shard of the pool to the bucket and is resolved to it; no other row changes.
\<close>

theorem resolve_write_failover:
  assumes "healthy S (w_orc w)" and "db_constraints (w_db w)" and "db_room (w_db w)"
    and "w_cache w = Some cfg"
    and "ClassifyWrite L (cc_spec cfg) now k (opt_int (cc_retention cfg)) (opt_int (cc_future cfg)) = Inr (bucket_route b)"
    and "cur \<in> set (db_shards (w_db w))" and "data_in StateActive b cur" and "stale_throughout S (w_orc w) cur"
    and "next_standby (db_shards (w_db w)) = Some sb"
  shows "\<exists>w' t. ResolveWrite L U S now k w =
      (Inr (write_result U RouteBucket b ReasonNone (promote_row b t sb)), w') \<and>
    db_shards (w_db w') = map (rotated seal_row b t (sh_id cur) (Some (sh_id sb))) (db_shards (w_db w))"
  using failover_ensureActive [OF assms(1-3,6-9)] assms(4,5)
  by (auto simp: ResolveWrite_def bind_io_def catch_io_def GetConfig_def return_io_def bucket_route_def)

definition stale_shard :: Shard where
  "stale_shard = (demo_shard 1 StateActive (Some ''n0''))\<lparr>sh_last_seen := Some 0\<rparr>"

definition stale_world :: world where
  "stale_world = (demo_world (demo_db\<lparr>db_shards := [stale_shard, demo_shard 2 StateStandby None]\<rparr>))\<lparr>w_cache := Some demo_config\<rparr>"

lemma stale_world_facts:
  "w_orc stale_world = demo_slot" "w_cache stale_world = Some demo_config"
  "db_shards (w_db stale_world) = [stale_shard, demo_shard 2 StateStandby None]"
  "data_in StateActive ''n0'' stale_shard" "stale_throughout demo_store demo_slot stale_shard"
  "next_standby [stale_shard, demo_shard 2 StateStandby None] = Some (demo_shard 2 StateStandby None)"
  "db_constraints (w_db stale_world)" "db_room (w_db stale_world)"
proof -
  have "stale_row demo_store (1000 * second_ns) stale_shard \<and>
      1000 * second_ns - heartbeatIntervalParam demo_store \<le> 1000 * second_ns" by code_simp
  then show "stale_throughout demo_store demo_slot stale_shard"
    by (simp add: stale_throughout_def demo_slot_def)
qed (simp_all add: stale_world_def, code_simp+)

lemma demo_classify: "ClassifyWrite demo_lib (cc_spec demo_config) 0 (KInt64 7) (opt_int (cc_retention demo_config))
    (opt_int (cc_future demo_config)) = Inr (bucket_route ''n0'')"
  by code_simp

theorem resolve_write_failover_witness:
  "\<exists>w' t. ResolveWrite demo_lib demo_uuid demo_store 0 (KInt64 7) stale_world =
      (Inr (write_result demo_uuid RouteBucket ''n0'' ReasonNone (promote_row ''n0'' t (demo_shard 2 StateStandby None))), w') \<and>
    map sh_state (db_shards (w_db w')) = [StateSealed, StateActive]"
proof -
  have "map sh_state (map (rotated seal_row ''n0'' t (sh_id stale_shard) (Some (sh_id (demo_shard 2 StateStandby None))))
      [stale_shard, demo_shard 2 StateStandby None]) = [StateSealed, StateActive]" for t
    by (simp add: rotated_def stale_shard_def demo_shard_def new_row_def seal_row_def promote_row_def)
  moreover obtain w' t where "ResolveWrite demo_lib demo_uuid demo_store 0 (KInt64 7) stale_world =
      (Inr (write_result demo_uuid RouteBucket ''n0'' ReasonNone (promote_row ''n0'' t (demo_shard 2 StateStandby None))), w')"
      "db_shards (w_db w') = map (rotated seal_row ''n0'' t (sh_id stale_shard) (Some (sh_id (demo_shard 2 StateStandby None))))
        [stale_shard, demo_shard 2 StateStandby None]"
    using resolve_write_failover [of demo_store stale_world demo_config demo_lib 0 "KInt64 7" "''n0''" stale_shard
      "demo_shard 2 StateStandby None" demo_uuid] demo_healthy demo_classify by (auto simp: stale_world_facts)
  ultimately show ?thesis by (intro exI [of _ w'] exI [of _ t]) (simp only: simp_thms)
qed

text \<open>
  C36: the read that performs a failover misses the data. When the stale active shard is the only
  shard of the bucket, \<open>ResolveRead\<close> seals it, promotes an empty standby shard and returns this one
  alone, although the sealed shard, which has all the rows, is readable when the call ends.
\<close>

theorem read_failover_omits_sealed:
  assumes "healthy S (w_orc w)" and "db_constraints (w_db w)" and "db_room (w_db w)"
    and "w_cache w = Some cfg"
    and "ClassifyRead L (cc_spec cfg) now k (opt_int (cc_retention cfg)) (opt_int (cc_future cfg)) = Inr (bucket_route b)"
    and "cur \<in> set (db_shards (w_db w))" and "data_in StateActive b cur" and "stale_throughout S (w_orc w) cur"
    and "next_standby (db_shards (w_db w)) = Some sb"
    and "filter (data_in StateSealed b) (db_shards (w_db w)) = []"
  shows "\<exists>w' t. ResolveRead L U S now k w =
      (Inr \<lparr>rres_routing = RouteBucket, rres_bucket = b, rres_reason = ReasonNone,
        rres_shards = [read_shard U (promote_row b t sb)]\<rparr>, w') \<and>
    seal_row t cur \<in> set (db_shards (w_db w')) \<and> data_in StateSealed b (seal_row t cur)"
proof -
  let ?w = "w\<lparr>w_pc := Suc (w_pc w)\<rparr>"
  have stale: "\<not> fresh_row S (sl_now (w_orc w (w_pc w))) cur"
    using assms(8) by (intro stale_not_fresh) (simp add: stale_throughout_def)
  have none: "filter (\<lambda>sh. sh_role sh = RoleData \<and> sh_bucket sh = Some b \<and>
      (sh_state sh = StateSealed \<or> sh_state sh = StateActive \<and> fresh_row S (sl_now (w_orc w (w_pc w))) sh))
      (db_shards (w_db w)) = []"
    using assms(10) active_unique [OF assms(2) _ assms(6) _ assms(7)] stale
    by (auto simp: filter_empty_conv data_in_def)
  then have read: "ShardsForBucketRead S b w = (Inr [], ?w)"
    using assms(1) by (simp add: ShardsForBucketRead_def pool_stmt_healthy select_by_id_def)
  obtain w' t where e: "ensureActive S b ?w = (Inr (promote_row b t sb), w')"
      and rows: "db_shards (w_db w') = map (rotated seal_row b t (sh_id cur) (Some (sh_id sb))) (db_shards (w_db w))"
    using failover_ensureActive [of S ?w cur b sb] assms by auto
  have "seal_row t cur \<in> set (db_shards (w_db w'))" using assms(6) by (force simp: rows rotated_def)
  moreover have "data_in StateSealed b (seal_row t cur)" using assms(7) by (simp add: data_in_def seal_row_def)
  ultimately show ?thesis
    using read e assms(4,5)
    by (auto simp: ResolveRead_def bind_io_def catch_io_def GetConfig_def return_io_def bucket_route_def)
qed

theorem read_failover_omits_sealed_witness:
  "\<exists>w' t. ResolveRead demo_lib demo_uuid demo_store 0 (KInt64 7) stale_world =
      (Inr \<lparr>rres_routing = RouteBucket, rres_bucket = ''n0'', rres_reason = ReasonNone,
        rres_shards = [read_shard demo_uuid (promote_row ''n0'' t (demo_shard 2 StateStandby None))]\<rparr>, w') \<and>
    seal_row t stale_shard \<in> set (db_shards (w_db w')) \<and> data_in StateSealed ''n0'' (seal_row t stale_shard)"
proof -
  have "filter (data_in StateSealed ''n0'') [stale_shard, demo_shard 2 StateStandby None] = []" by code_simp
  moreover have "ClassifyRead demo_lib (cc_spec demo_config) 0 (KInt64 7) (opt_int (cc_retention demo_config))
    (opt_int (cc_future demo_config)) = Inr (bucket_route ''n0'')" by code_simp
  ultimately show ?thesis
    using read_failover_omits_sealed [of demo_store stale_world demo_config demo_lib 0 "KInt64 7" "''n0''" stale_shard
      "demo_shard 2 StateStandby None" demo_uuid] demo_healthy by (simp add: stale_world_facts)
qed

end
