(* ===== verification/Broadcast.thy ===== *)
theory Broadcast
  imports Prelude
begin

text \<open>
  \<^verbatim>\<open>internal/topology/broadcast.go\<close>: the hub that wakes the watchers of the topology. Channels live
  on a heap, a channel is its address; each has a buffer of one value. The operations run under
  the mutex of the hub, so each is one step.
\<close>

record chan =
  ch_buf :: "int option"
  ch_closed :: bool

record Broadcast =
  bc_version :: int
  bc_subs :: "nat list"
  bc_heap :: "chan list"

definition NewBroadcast :: Broadcast where
  "NewBroadcast = \<lparr>bc_version = 0, bc_subs = [], bc_heap = []\<rparr>"

text \<open>\<open>select { case ch <- version: default: }\<close>: a full buffer drops the value, a closed channel panics.\<close>

definition try_send :: "int \<Rightarrow> chan \<Rightarrow> chan res" where
  "try_send v c = (if ch_closed c then Inl ErrPanic
     else Inr (case ch_buf c of None \<Rightarrow> c\<lparr>ch_buf := Some v\<rparr> | Some _ \<Rightarrow> c))"

fun notify_loop :: "int \<Rightarrow> nat list \<Rightarrow> chan list \<Rightarrow> (chan list) res" where
  "notify_loop v [] heap = Inr heap"
| "notify_loop v (ch # chs) heap =
    (case try_send v (heap ! ch) of Inl e \<Rightarrow> Inl e | Inr c \<Rightarrow> notify_loop v chs (heap[ch := c]))"

definition Notify :: "int \<Rightarrow> Broadcast \<Rightarrow> Broadcast res" where
  "Notify version b =
    (case notify_loop version (bc_subs b) (bc_heap b) of Inl e \<Rightarrow> Inl e
     | Inr heap \<Rightarrow> Inr (b\<lparr>bc_version := version, bc_heap := heap\<rparr>))"

definition Subscribe :: "Broadcast \<Rightarrow> nat \<times> int \<times> Broadcast" where
  "Subscribe b = (let c = length (bc_heap b) in
     (c, bc_version b, b\<lparr>bc_subs := c # bc_subs b, bc_heap := bc_heap b @ [\<lparr>ch_buf = None, ch_closed = False\<rparr>]\<rparr>))"

definition unsubscribe :: "nat \<Rightarrow> Broadcast \<Rightarrow> Broadcast res" where
  "unsubscribe c b = (if ch_closed (bc_heap b ! c) then Inl ErrPanic
     else Inr (b\<lparr>bc_subs := filter (\<lambda>x. x \<noteq> c) (bc_subs b), bc_heap := (bc_heap b)[c := (bc_heap b ! c)\<lparr>ch_closed := True\<rparr>]\<rparr>))"

text \<open>\<open>v := <-ch\<close> on a channel that holds a value; without one the receiver waits.\<close>

definition receive :: "nat \<Rightarrow> Broadcast \<Rightarrow> (int \<times> Broadcast) option" where
  "receive c b = (case ch_buf (bc_heap b ! c) of None \<Rightarrow> None
     | Some v \<Rightarrow> Some (v, b\<lparr>bc_heap := (bc_heap b)[c := (bc_heap b ! c)\<lparr>ch_buf := None\<rparr>]\<rparr>))"

section \<open>The invariant of the hub\<close>

text \<open>Exactly the open channels are subscribed, so nothing is ever sent on a closed channel.\<close>

definition bc_ok :: "Broadcast \<Rightarrow> bool" where
  "bc_ok b \<longleftrightarrow> distinct (bc_subs b) \<and>
     set (bc_subs b) = {c. c < length (bc_heap b) \<and> \<not> ch_closed (bc_heap b ! c)}"

lemma bc_okD: "bc_ok b \<Longrightarrow> c \<in> set (bc_subs b) \<Longrightarrow> c < length (bc_heap b) \<and> \<not> ch_closed (bc_heap b ! c)"
  by (auto simp: bc_ok_def)

lemma bc_ok_New: "bc_ok NewBroadcast"
  by (simp add: bc_ok_def NewBroadcast_def)

definition filled :: "int \<Rightarrow> nat list \<Rightarrow> chan list \<Rightarrow> chan list" where
  "filled v subs heap = map (\<lambda>c. if c \<in> set subs \<and> ch_buf (heap ! c) = None
     then (heap ! c)\<lparr>ch_buf := Some v\<rparr> else heap ! c) [0..<length heap]"

lemma length_filled [simp]: "length (filled v subs heap) = length heap"
  by (simp add: filled_def)

lemma filled_nth: "c < length heap \<Longrightarrow> filled v subs heap ! c =
    (if c \<in> set subs \<and> ch_buf (heap ! c) = None then (heap ! c)\<lparr>ch_buf := Some v\<rparr> else heap ! c)"
  by (simp add: filled_def)

lemma notify_loop_filled:
  assumes "distinct chs" and "\<And>c. c \<in> set chs \<Longrightarrow> c < length heap \<and> \<not> ch_closed (heap ! c)"
  shows "notify_loop v chs heap = Inr (filled v chs heap)"
  using assms
proof (induction chs arbitrary: heap)
  case Nil
  then show ?case by (simp add: filled_def map_nth)
next
  case (Cons ch chs)
  let ?c = "case ch_buf (heap ! ch) of None \<Rightarrow> (heap ! ch)\<lparr>ch_buf := Some v\<rparr> | Some _ \<Rightarrow> heap ! ch"
  have "notify_loop v chs (heap[ch := ?c]) = Inr (filled v chs (heap[ch := ?c]))"
  proof (rule Cons.IH)
    show "c < length (heap[ch := ?c]) \<and> \<not> ch_closed (heap[ch := ?c] ! c)" if "c \<in> set chs" for c
      using Cons.prems that by (cases "c = ch") auto
  qed (use Cons.prems in simp)
  moreover have "filled v chs (heap[ch := ?c]) = filled v (ch # chs) heap"
    using Cons.prems by (intro nth_equalityI) (auto simp: filled_nth nth_list_update split: option.split)
  ultimately show ?case using Cons.prems by (simp add: try_send_def)
qed

lemma Notify_ok:
  assumes "bc_ok b"
  shows "Notify v b = Inr (b\<lparr>bc_version := v, bc_heap := filled v (bc_subs b) (bc_heap b)\<rparr>)"
  using assms notify_loop_filled [of "bc_subs b" "bc_heap b" v] by (simp add: Notify_def bc_ok_def)

lemma open_filled:
  "{c. c < length heap \<and> \<not> ch_closed (filled v subs heap ! c)} = {c. c < length heap \<and> \<not> ch_closed (heap ! c)}"
  by (auto simp: filled_nth split: if_splits)

lemma bc_ok_Notify: "bc_ok b \<Longrightarrow> bc_ok (b\<lparr>bc_version := v, bc_heap := filled v (bc_subs b) (bc_heap b)\<rparr>)"
  by (simp add: bc_ok_def open_filled)

lemma open_append:
  "\<not> ch_closed new \<Longrightarrow> {c. c < Suc (length heap) \<and> \<not> ch_closed ((heap @ [new]) ! c)} =
     insert (length heap) {c. c < length heap \<and> \<not> ch_closed (heap ! c)}"
  by (auto simp: nth_append less_Suc_eq split: if_splits)

lemma bc_ok_Subscribe:
  assumes "bc_ok b" and "Subscribe b = (c, cur, b')"
  shows "bc_ok b'" and "c \<in> set (bc_subs b')"
proof -
  show "c \<in> set (bc_subs b')" using assms(2) by (auto simp: Subscribe_def Let_def)
  have "length (bc_heap b) \<notin> set (bc_subs b)" using bc_okD [OF assms(1)] by blast
  then have "distinct (length (bc_heap b) # bc_subs b)" using assms(1) by (simp add: bc_ok_def)
  moreover have "set (length (bc_heap b) # bc_subs b) = {c. c < Suc (length (bc_heap b)) \<and>
      \<not> ch_closed ((bc_heap b @ [\<lparr>ch_buf = None, ch_closed = False\<rparr>]) ! c)}"
    using assms(1) by (subst open_append) (simp_all add: bc_ok_def)
  moreover have "b' = b\<lparr>bc_subs := length (bc_heap b) # bc_subs b,
      bc_heap := bc_heap b @ [\<lparr>ch_buf = None, ch_closed = False\<rparr>]\<rparr>"
    using assms(2) by (auto simp: Subscribe_def Let_def)
  ultimately show "bc_ok b'" unfolding bc_ok_def by simp
qed

lemma bc_ok_unsubscribe:
  assumes "bc_ok b" and "c \<in> set (bc_subs b)"
  shows "\<exists>b'. unsubscribe c b = Inr b' \<and> bc_ok b' \<and> set (bc_subs b') = set (bc_subs b) - {c}"
proof -
  have "c < length (bc_heap b)" "\<not> ch_closed (bc_heap b ! c)" using bc_okD [OF assms] by auto
  moreover have "{x. x < length (bc_heap b) \<and> \<not> ch_closed ((bc_heap b)[c := (bc_heap b ! c)\<lparr>ch_closed := True\<rparr>] ! x)} =
      {x. x < length (bc_heap b) \<and> \<not> ch_closed (bc_heap b ! x)} - {c}"
    using calculation by (auto simp: nth_list_update)
  ultimately show ?thesis using assms(1) by (auto simp: bc_ok_def unsubscribe_def)
qed

lemma open_received:
  "{x. x < length heap \<and> \<not> ch_closed (heap[c := (heap ! c)\<lparr>ch_buf := None\<rparr>] ! x)} =
   {x. x < length heap \<and> \<not> ch_closed (heap ! x)}"
  by (cases "c < length heap") (auto simp: nth_list_update split: if_splits)

lemma bc_ok_receive:
  assumes "bc_ok b" and "receive c b = Some (v, b')"
  shows "bc_ok b'"
proof -
  have "b' = b\<lparr>bc_heap := (bc_heap b)[c := (bc_heap b ! c)\<lparr>ch_buf := None\<rparr>]\<rparr>"
    using assms(2) by (auto simp: receive_def split: option.splits)
  then show ?thesis using assms(1) by (simp add: bc_ok_def open_received)
qed

end
