(* ===== verification/Supervisors.thy ===== *)
theory Supervisors
  imports Resolve Broadcast
begin

text \<open>
  The background workers of the server: \<^verbatim>\<open>internal/seal/seal.go\<close> starts drains and completes them,
  \<^verbatim>\<open>internal/retention/retention.go\<close> cleans the buckets that left the retention window and
  \<^verbatim>\<open>internal/health/health.go\<close> rotates the shards whose agents went silent. A worker's clock readings
  are arguments; logging is left out and the metrics are in Telemetry. The health worker tells the watchers, so it runs
  over the state of the server: the store's world and the broadcast hub.
\<close>

section \<open>The state of the server\<close>

record srv =
  sv_world :: world
  sv_bcast :: "Broadcast option"

definition on_store :: "'a io \<Rightarrow> (srv, 'a) sio" where
  "on_store m s = (case m (sv_world s) of (r, w') \<Rightarrow> (r, s\<lparr>sv_world := w'\<rparr>))"

text \<open>\<open>s.Broadcast.Notify(v)\<close>, which does nothing when the server has no hub.\<close>

definition broadcast_io :: "int \<Rightarrow> (srv, unit) sio" where
  "broadcast_io v s = (case sv_bcast s of None \<Rightarrow> (Inr (), s)
     | Some b \<Rightarrow> (case Notify v b of Inl e \<Rightarrow> (Inl e, s) | Inr b' \<Rightarrow> (Inr (), s\<lparr>sv_bcast := Some b'\<rparr>)))"

definition notifyTopology :: "Store \<Rightarrow> (srv, unit) sio" where
  "notifyTopology S s = (if sv_bcast s = None then (Inr (), s)
     else catch_io (on_store (GetTopologyVersion S)) (\<lambda>_. return_io ()) broadcast_io s)"

section \<open>The seal worker\<close>

definition drain_due :: "int \<Rightarrow> gtime \<Rightarrow> Shard \<Rightarrow> bool" where
  "drain_due drainTimeout now sh \<longleftrightarrow> sh_drain_ready sh \<or>
     (case sh_drain_started sh of None \<Rightarrow> False | Some t \<Rightarrow> drainTimeout \<le> time_Sub now t)"

definition complete_drain :: "Store \<Rightarrow> int \<Rightarrow> gtime \<Rightarrow> Shard \<Rightarrow> unit io" where
  "complete_drain S drainTimeout now sh = (case sh_bucket sh of None \<Rightarrow> return_io ()
     | Some b \<Rightarrow> if drain_due drainTimeout now sh then ignore_io (CompleteDrainSeal S b) else return_io ())"

definition begin_drain :: "Store \<Rightarrow> Shard \<Rightarrow> unit io" where
  "begin_drain S sh = (case sh_bucket sh of None \<Rightarrow> return_io () | Some b \<Rightarrow> ignore_io (BeginDrain S b))"

definition seal_tick :: "Store \<Rightarrow> int \<Rightarrow> gtime \<Rightarrow> unit io" where
  "seal_tick S drainTimeout now =
    catch_io (GetConfig S) (\<lambda>_. return_io ()) (\<lambda>cfg.
      bind_io (catch_io (ShardsDraining S) (\<lambda>_. return_io ()) (for_io (complete_drain S drainTimeout now))) (\<lambda>_.
      catch_io (ShardsNeedingSeal S (cc_max_bytes cfg)) (\<lambda>_. return_io ()) (\<lambda>need.
        bind_io (for_io (begin_drain S) need) (\<lambda>_. ignore_io (CountStandbyPool S)))))"

text \<open>\<open>Run\<close>: one tick for each time the ticker fires until the context is cancelled.\<close>

definition or_30s :: "int \<Rightarrow> int" where
  "or_30s d = (if d \<le> 0 then 30 * second_ns else d)"

definition seal_Run :: "Store \<Rightarrow> int \<Rightarrow> gtime list \<Rightarrow> unit io" where
  "seal_Run S drainTimeout ticks = for_io (seal_tick S (or_30s drainTimeout)) ticks"

section \<open>The retention worker\<close>

definition retention_evict :: "Store \<Rightarrow> string \<Rightarrow> unit io" where
  "retention_evict S pid =
    catch_io (HasActiveInBucket S pid) (\<lambda>_. return_io ()) (\<lambda>active.
      if active then return_io () else ignore_io (MarkBucketCleaning S pid))"

definition retention_tick :: "Store \<Rightarrow> gtime \<Rightarrow> unit io" where
  "retention_tick S now =
    bind_io (GetConfig S) (\<lambda>cfg. case cc_retention cfg of None \<Rightarrow> return_io ()
      | Some depth \<Rightarrow>
        if cc_axis cfg \<noteq> AxisTime then return_io ()
        else bind_io (DistinctBucketIDs S) (\<lambda>known.
          case BucketsOutsideRetention (cc_spec cfg) now depth known of Inl e \<Rightarrow> fail_io e
          | Inr evict \<Rightarrow> for_io (retention_evict S) evict))"

definition retention_Run :: "Store \<Rightarrow> gtime list \<Rightarrow> unit io" where
  "retention_Run S ticks = for_io (\<lambda>now. ignore_io (retention_tick S now)) ticks"

section \<open>The health worker\<close>

definition health_failover :: "Store \<Rightarrow> (srv, unit) sio option \<Rightarrow> Shard \<Rightarrow> (srv, unit) sio" where
  "health_failover S notify sh = (case sh_bucket sh of None \<Rightarrow> return_io ()
     | Some b \<Rightarrow> catch_io (on_store (SealRotate S b)) (\<lambda>_. return_io ()) (\<lambda>_.
         case notify of None \<Rightarrow> return_io () | Some f \<Rightarrow> f))"

definition health_tick :: "Store \<Rightarrow> (srv, unit) sio option \<Rightarrow> (srv, unit) sio" where
  "health_tick S notify =
    catch_io (on_store (ListStaleActives S)) (\<lambda>_. return_io ()) (for_io (health_failover S notify))"

definition health_Run :: "Store \<Rightarrow> (srv, unit) sio option \<Rightarrow> nat \<Rightarrow> (srv, unit) sio" where
  "health_Run S notify n = for_io (\<lambda>_. health_tick S notify) [0..<n]"

section \<open>Refinement of the contract\<close>

lemma keeps_for [io_rules]: "(\<And>x. keeps (db_steps L) (f x)) \<Longrightarrow> keeps (db_steps L) (for_io f xs)"
  by (induction xs) (auto intro!: io_rules)

lemma keeps_ignore [io_rules]: "keeps (db_steps L) m \<Longrightarrow> keeps (db_steps L) (ignore_io m)"
  unfolding ignore_io_def by (intro io_rules)

lemma keeps_seal_tick:
  assumes "{LDrain, LDrainSeal} \<subseteq> L"
  shows "keeps (db_steps L) (seal_tick S timeout now)"
proof -
  have "keeps (db_steps L) (complete_drain S timeout now sh)" "keeps (db_steps L) (begin_drain S sh)" for sh
    using assms by (auto simp: complete_drain_def begin_drain_def intro!: op_rules keeps_ignore split: option.split)
  then show ?thesis unfolding seal_tick_def by (intro io_rules)
qed

lemma keeps_retention_tick:
  assumes "LClean \<in> L"
  shows "keeps (db_steps L) (retention_tick S now)"
proof -
  have "keeps (db_steps L) (retention_evict S b)" for b
    unfolding retention_evict_def using assms by (auto intro!: op_rules keeps_ignore)
  then show ?thesis
    unfolding retention_tick_def by (auto intro!: io_rules split: option.split sum.split)
qed

section \<open>What the retention worker may change\<close>

lemma run_tx_quiet_cases:
  assumes "quiet (w_orc w)" and "keeps_orc body" and "run_tx body w = (r, w')"
  shows "w_orc w' = w_orc w"
    and "w_db w' = w_db w \<or> (\<exists>w0 x w1. w_db w0 = w_db w \<and> body w0 = (Inr (Commit x), w1) \<and> w_db w' = w_db w1)"
proof -
  define w0 where "w0 = w\<lparr>w_pc := Suc (w_pc w), w_aborted := False, w_now := sl_now (w_orc w (w_pc w))\<rparr>"
  have eq: "w\<lparr>w_pc := Suc (w_pc w), w_db := sl_other (w_orc w (w_pc w)) (w_db w), w_aborted := False,
      w_now := sl_now (w_orc w (w_pc w))\<rparr> = w0"
    using assms(1) by (simp add: w0_def quiet_def)
  have d: "w_db w0 = w_db w" "w_orc w0 = w_orc w" by (simp_all add: w0_def)
  obtain r1 w1 where b: "body w0 = (r1, w1)" by fastforce
  have o: "w_orc w1 = w_orc w" using b assms(2) d(2) unfolding keeps_orc_def by (metis snd_conv)
  show "w_orc w' = w_orc w"
    using assms(3) b o d by (auto simp: run_tx_def Let_def eq split: sum.splits tx_end.splits if_splits)
  have "w_db w' = w_db w \<or> (\<exists>x. r1 = Inr (Commit x)) \<and> w_db w' = w_db w1"
    using assms(3) b d by (auto simp: run_tx_def Let_def eq split: sum.splits tx_end.splits if_splits)
  then show "w_db w' = w_db w \<or> (\<exists>w0 x w1. w_db w0 = w_db w \<and> body w0 = (Inr (Commit x), w1) \<and> w_db w' = w_db w1)"
    using b d(1) by blast
qed

text \<open>\<open>cleans P\<close>: every row stays, except that rows with \<open>P\<close> may have moved to cleaning.\<close>

definition cleans :: "(Shard \<Rightarrow> bool) \<Rightarrow> world \<Rightarrow> world \<Rightarrow> bool" where
  "cleans P w w' \<longleftrightarrow> w_orc w' = w_orc w \<and>
     list_all2 (\<lambda>r r'. r' = r \<or> P r \<and> (\<exists>t. r' = clean_row t r)) (db_shards (w_db w)) (db_shards (w_db w'))"

lemma cleans_same: "w_db w' = w_db w \<Longrightarrow> w_orc w' = w_orc w \<Longrightarrow> cleans P w w'"
  by (simp add: cleans_def list_all2_refl)

lemma cleans_trans:
  assumes "cleans P a b" and "cleans Q b c" and "\<And>r t. \<not> Q (clean_row t r)" and "\<And>r. Q r \<Longrightarrow> P r"
  shows "cleans P a c"
proof -
  have "list_all2 (\<lambda>r r'. r' = r \<or> P r \<and> (\<exists>t. r' = clean_row t r)) (db_shards (w_db a)) (db_shards (w_db c))"
    by (rule list_all2_trans [OF _ assms(1,2) [unfolded cleans_def, THEN conjunct2]]) (use assms(3,4) in auto)
  then show ?thesis using assms(1,2) by (simp add: cleans_def)
qed

lemma cleans_mono: "cleans P w w' \<Longrightarrow> (\<And>r. P r \<Longrightarrow> Q r) \<Longrightarrow> cleans Q w w'"
  unfolding cleans_def by (auto elim: list_all2_mono)

lemma cleans_MarkBucketCleaning:
  assumes "quiet (w_orc w)"
  shows "cleans (data_in StateSealed b) w (snd (MarkBucketCleaning S b w))"
proof -
  obtain r w' where t: "run_tx (clean_tx S b) w = (r, w')" by fastforce
  note c = run_tx_quiet_cases [OF assms keeps_orc_bodies(2) t]
  have "cleans (data_in StateSealed b) w w'"
    using c(2)
  proof (elim disjE exE conjE)
    fix w0 x w1 assume w: "w_db w0 = w_db w" "clean_tx S b w0 = (Inr (Commit x), w1)" "w_db w' = w_db w1"
    then obtain t where "db_shards (w_db w1) = sql_update (data_in StateSealed b) (clean_row t) (db_shards (w_db w))"
      unfolding clean_tx_def by (auto simp: tx_simps split: if_splits)
    then show ?thesis using w c(1) by (auto simp: cleans_def sql_update_def list_all2_conv_all_nth)
  qed (use c(1) in \<open>simp add: cleans_same\<close>)
  then show ?thesis using t by (simp add: MarkBucketCleaning_def)
qed

definition evictable :: "string set \<Rightarrow> Shard list \<Rightarrow> Shard \<Rightarrow> bool" where
  "evictable B rows r \<longleftrightarrow> (\<exists>b \<in> B. data_in StateSealed b r \<and> \<not> (\<exists>x \<in> set rows. writes_to b x))"

lemma evictable_clean: "\<not> evictable B rows (clean_row t r)"
  by (simp add: evictable_def data_in_def clean_row_def)

lemma cleans_keeps_writers:
  assumes "cleans (evictable B rows) w w'" and "x \<in> set (db_shards (w_db w))" and "writes_to b x"
  shows "x \<in> set (db_shards (w_db w'))"
proof -
  obtain i where i: "i < length (db_shards (w_db w))" "db_shards (w_db w) ! i = x"
    using assms(2) by (meson in_set_conv_nth)
  have "\<not> evictable B rows x" using assms(3) by (auto simp: evictable_def writes_to_def data_in_def)
  then have "db_shards (w_db w') ! i = x" "i < length (db_shards (w_db w'))"
    using assms(1) i unfolding cleans_def list_all2_conv_all_nth by metis+
  then show ?thesis by (metis nth_mem)
qed

lemma cleans_retention_evict:
  assumes "quiet (w_orc w)"
  shows "cleans (evictable {b} (db_shards (w_db w))) w (snd (retention_evict S b w))"
    and "fst (retention_evict S b w) = Inr ()"
proof -
  obtain x w1 where h: "HasActiveInBucket S b w = (x, w1)" by fastforce
  have ro: "w_db w1 = w_db w" "w_orc w1 = w_orc w"
    using reads_onlyD [of "HasActiveInBucket S b" w x w1] reads_only_queries assms h by simp_all
  show "fst (retention_evict S b w) = Inr ()"
    by (simp add: retention_evict_def catch_io_def ignore_io_def return_io_def split: prod.split sum.split)
  show "cleans (evictable {b} (db_shards (w_db w))) w (snd (retention_evict S b w))"
  proof (cases "x = Inr False")
    case True
    then have "\<not> (\<exists>x \<in> set (db_shards (w_db w)). writes_to b x)" using HasActive_quiet [OF assms] h by auto
    then have e: "evictable {b} (db_shards (w_db w)) = data_in StateSealed b" by (auto simp: evictable_def)
    have "snd (retention_evict S b w) = snd (MarkBucketCleaning S b w1)"
      using True h by (simp add: retention_evict_def catch_io_def ignore_io_def return_io_def split: prod.split sum.split)
    then show ?thesis
      using cleans_MarkBucketCleaning [of w1 b S] ro assms unfolding e by (simp add: cleans_def)
  next
    case False
    then have "snd (retention_evict S b w) = w1"
      using h by (auto simp: retention_evict_def catch_io_def return_io_def split: sum.split)
    then show ?thesis using ro by (simp add: cleans_same)
  qed
qed

lemma cleans_retention_loop:
  assumes "quiet (w_orc w)"
  shows "cleans (evictable (set bs) (db_shards (w_db w))) w (snd (for_io (retention_evict S) bs w))"
  using assms
proof (induction bs arbitrary: w)
  case Nil
  then show ?case by (simp add: return_io_def cleans_same)
next
  case (Cons b bs)
  let ?w1 = "snd (retention_evict S b w)" and ?rows = "db_shards (w_db w)"
  note 1 = cleans_retention_evict [OF Cons.prems, where b = b and S = S]
  have 2: "cleans (evictable (set bs) (db_shards (w_db ?w1))) ?w1 (snd (for_io (retention_evict S) bs ?w1))"
    using Cons.IH [of ?w1] Cons.prems 1(1) by (simp add: cleans_def)
  have "cleans (evictable (set (b # bs)) ?rows) w ?w1"
    using 1(1) by (rule cleans_mono) (auto simp: evictable_def)
  then have "cleans (evictable (set (b # bs)) ?rows) w (snd (for_io (retention_evict S) bs ?w1))"
  proof (rule cleans_trans [OF _ 2])
    fix r assume "evictable (set bs) (db_shards (w_db ?w1)) r"
    then show "evictable (set (b # bs)) ?rows r"
      using cleans_keeps_writers [OF 1(1)] unfolding evictable_def by (meson list.set_intros(2))
  qed (rule evictable_clean)
  moreover have "snd (for_io (retention_evict S) (b # bs) w) = snd (for_io (retention_evict S) bs ?w1)"
    using 1(2) by (cases "retention_evict S b w") (simp add: bind_io_def catch_io_def)
  ultimately show ?case by simp
qed

lemma same_cache_MarkBucketCleaning [cache_rules]: "same_cache (MarkBucketCleaning S b)"
  unfolding MarkBucketCleaning_def clean_tx_def by (intro cache_rules) (auto intro!: cache_rules)

lemma same_cache_for [cache_rules]: "(\<And>x. same_cache (f x)) \<Longrightarrow> same_cache (for_io f xs)"
  by (induction xs) (auto intro!: cache_rules)

lemma same_cache_retention_evict [cache_rules]: "same_cache (retention_evict S b)"
  unfolding retention_evict_def HasActiveInBucket_def ignore_io_def by (auto intro!: cache_rules)

lemma reads_only_GetConfig [read_rules]: "reads_only (GetConfig S)"
proof -
  have "reads_only (bind_io (loadConfigFromDB S) (\<lambda>cfg. cache_io cfg cfg))"
    unfolding loadConfigFromDB_def by (intro read_rules) (auto intro!: read_rules simp: select_config_def split: option.split sum.split)
  then show ?thesis by (simp add: reads_only_def GetConfig_def split: option.split)
qed

lemma outside_single:
  assumes "BucketsOutsideRetention spec now depth known = Inr out" and "b \<in> set out"
  shows "BucketsOutsideRetention spec now depth [b] = Inr [b]"
  using assms by (auto simp: BucketsOutsideRetention_def split: if_splits sum.splits)

text \<open>
  C4: the retention worker cleans nothing that is in use. Whatever fails, a tick changes a row only by
  moving it from sealed to cleaning, and only in a bucket that lies outside the retention of the
  cached configuration at that time and has neither an active nor a draining shard.
\<close>

theorem retention_tick_safe:
  assumes "quiet (w_orc w)" and "retention_tick S now w = (res, w')"
  shows "list_all2 (\<lambda>r r'. r' = r \<or> (\<exists>b t cfg depth. data_in StateSealed b r \<and> r' = clean_row t r \<and>
      \<not> (\<exists>x \<in> set (db_shards (w_db w)). writes_to b x) \<and>
      w_cache w' = Some cfg \<and> cc_axis cfg = AxisTime \<and> cc_retention cfg = Some depth \<and>
      BucketsOutsideRetention (cc_spec cfg) now depth [b] = Inr [b]))
    (db_shards (w_db w)) (db_shards (w_db w'))"
proof (cases "w_db w' = w_db w")
  case True
  then show ?thesis by (simp add: list_all2_refl)
next
  case False
  obtain c w1 where c: "GetConfig S w = (c, w1)" by fastforce
  have 1: "w_db w1 = w_db w" "w_orc w1 = w_orc w"
    using reads_onlyD [of "GetConfig S" w c w1] reads_only_GetConfig assms(1) c by simp_all
  obtain cfg depth where cfg: "c = Inr cfg" "cc_retention cfg = Some depth" "cc_axis cfg = AxisTime"
    using assms(2) c 1 False by (auto simp: retention_tick_def bind_io_def catch_io_def fail_io_def return_io_def
        split: sum.splits option.splits if_splits)
  obtain k w2 where k: "DistinctBucketIDs S w1 = (k, w2)" by fastforce
  have 2: "w_db w2 = w_db w" "w_orc w2 = w_orc w"
    using reads_onlyD [of "DistinctBucketIDs S" w1 k w2] reads_only_queries assms(1) k 1 by simp_all
  have cache2: "w_cache w2 = w_cache w1"
    using same_cacheD [OF same_cache_basic(4) k [unfolded DistinctBucketIDs_def]] .
  obtain known out where out: "k = Inr known" "BucketsOutsideRetention (cc_spec cfg) now depth known = Inr out"
    using assms(2) c cfg k 2 False by (auto simp: retention_tick_def bind_io_def catch_io_def fail_io_def
        split: sum.splits)
  have loop: "for_io (retention_evict S) out w2 = (res, w')"
    using assms(2) c cfg k out by (simp add: retention_tick_def bind_io_def catch_io_def)
  have "cleans (evictable (set out) (db_shards (w_db w))) w2 w'"
    using cleans_retention_loop [of w2 out S] loop 2 assms(1) by simp
  moreover have "w_cache w' = Some cfg"
    using same_cacheD [OF same_cache_for [OF same_cache_retention_evict] loop] GetConfig_Inr [of S w cfg w1] c cfg cache2 by simp
  ultimately show ?thesis
    using outside_single [OF out(2)] cfg 2(1) unfolding cleans_def evictable_def by (fastforce elim: list_all2_mono)
qed

definition month_config :: ClusterConfig where
  "month_config = \<lparr>cc_mode = ''range'', cc_axis = AxisTime, cc_spec = demo_month,
     cc_raw = json_obj1 ''unit'' (json_str ''month''), cc_max_bytes = 100, cc_retention = Some 3, cc_future = Some 1\<rparr>"

definition month_world :: world where
  "month_world = (demo_world (demo_db\<lparr>db_shards := [demo_shard 1 StateSealed (Some ''2026-04''),
     demo_shard 2 StateActive (Some ''2026-08'')]\<rparr>))\<lparr>w_cache := Some month_config\<rparr>"

theorem retention_tick_safe_witness:
  "\<exists>w' depth. retention_tick demo_store (time_Unix 1786017600 0) month_world = (Inr (), w') \<and>
     map sh_state (db_shards (w_db w')) = [StateCleaning, StateActive] \<and>
     BucketsOutsideRetention demo_month (time_Unix 1786017600 0) depth [''2026-04''] = Inr [''2026-04'']"
proof -
  let ?now = "time_Unix 1786017600 0"
  obtain res w' where t: "retention_tick demo_store ?now month_world = (res, w')" by fastforce
  have "map sh_state (db_shards (w_db (snd (retention_tick demo_store ?now month_world)))) = [StateCleaning, StateActive] \<and>
      fst (retention_tick demo_store ?now month_world) = Inr () \<and>
      w_cache (snd (retention_tick demo_store ?now month_world)) = Some month_config"
    by code_simp
  then have r: "map sh_state (db_shards (w_db w')) = [StateCleaning, StateActive]" "res = Inr ()" "w_cache w' = Some month_config"
    using t by simp_all
  have "quiet (w_orc month_world)" by (simp add: month_world_def)
  note safe = retention_tick_safe [OF this t]
  obtain r1 rs where w': "db_shards (w_db w') = r1 # rs" "sh_state r1 = StateCleaning" using r(1) by auto
  have "\<exists>depth. BucketsOutsideRetention demo_month ?now depth [''2026-04''] = Inr [''2026-04'']"
    using safe r(3) w' by (auto simp: month_world_def data_in_def demo_shard_def new_row_def month_config_def)
  then show ?thesis using t r by auto
qed

section \<open>A drain ends\<close>

text \<open>Room for \<open>k\<close> more versions of every row and of the topology.\<close>

definition room :: "nat \<Rightarrow> db \<Rightarrow> bool" where
  "room k d \<longleftrightarrow> list_all (\<lambda>sh. sh_version sh + int k < 2 ^ 63) (db_shards d) \<and>
     (case db_config d of None \<Rightarrow> True | Some c \<Rightarrow> cr_version c + int k < 2 ^ 63)"

lemma room_mono: "room k d \<Longrightarrow> j \<le> k \<Longrightarrow> room j d"
  by (fastforce simp: room_def list_all_iff split: option.splits)

lemma room_db_room: "db_constraints d \<Longrightarrow> room (Suc k) d \<Longrightarrow> db_room d"
  by (fastforce simp: room_def db_room_def db_constraints_def list_all_iff int64_ok_def shard_row_ok_def config_row_ok_def
      split: option.splits)

text \<open>The shard \<open>cur\<close> still drains the bucket \<open>b\<close> alone.\<close>

definition pending :: "string \<Rightarrow> Shard \<Rightarrow> nat \<Rightarrow> db \<Rightarrow> bool" where
  "pending b cur k d \<longleftrightarrow> db_constraints d \<and> room k d \<and> cur \<in> set (db_shards d) \<and> data_in StateDraining b cur \<and>
     (\<forall>r \<in> set (db_shards d). writes_to b r \<longrightarrow> r = cur)"

lemma pending_mono: "pending b cur k d \<Longrightarrow> j \<le> k \<Longrightarrow> pending b cur j d"
  using room_mono by (auto simp: pending_def)

lemma pending_update:
  assumes "pending b cur (Suc k) d" and "db_shards d' = sql_update P f (db_shards d)" and "db_constraints d'"
    and "db_config d' = db_config d \<or> db_config d' = map_option bump_config (db_config d)"
    and "\<And>r. sh_version (f r) \<le> sh_version r + 1" and "\<not> P cur" and "\<And>r. P r \<Longrightarrow> \<not> writes_to b (f r)"
  shows "pending b cur k d'"
proof -
  have r: "room (Suc k) d" using assms(1) by (simp add: pending_def)
  have "sh_version (if P x then f x else x) + int k < 2 ^ 63" if "x \<in> set (db_shards d)" for x
    using r that assms(5) [of x] by (auto simp: room_def list_all_iff split: option.splits)
  then have "list_all (\<lambda>sh. sh_version sh + int k < 2 ^ 63) (db_shards d')"
    unfolding assms(2) set_sql_update list_all_iff by blast
  moreover have "case db_config d' of None \<Rightarrow> True | Some c \<Rightarrow> cr_version c + int k < 2 ^ 63"
    using r assms(4) by (auto simp: room_def bump_config_def split: option.splits)
  ultimately have "room k d'" by (simp add: room_def)
  then show ?thesis using assms(1,3,6,7) by (auto simp: pending_def assms(2) set_sql_update split: if_splits)
qed

lemma drain_seal_id: "sh_id (drain_seal_row now r) = sh_id r"
  by (simp add: drain_seal_row_def)

lemma pending_other:
  assumes "quiet (w_orc w)" and "pending b cur (k + 2) (w_db w)" and "b' \<noteq> b"
  shows "pending b cur k (w_db (snd (CompleteDrainSeal S b' w)))" and "w_orc (snd (CompleteDrainSeal S b' w)) = w_orc w"
proof -
  obtain r w' where t: "run_tx (seal_tx S StateDraining drain_seal_row ''drain_seal'' b') w = (r, w')" by fastforce
  note c = run_tx_quiet_cases [OF assms(1) keeps_orc_seal_tx t]
  have sealed: "pending b cur (Suc k) d1" if "db_constraints d1" "cur' \<in> set (db_shards (w_db w))"
      "data_in StateDraining b' cur'" "db_config d1 = db_config (w_db w) \<or> db_config d1 = map_option bump_config (db_config (w_db w))"
      "db_shards d1 = sql_update (\<lambda>r. sh_id r = sh_id cur' \<and> sh_version r = sh_version cur') (drain_seal_row now)
        (db_shards (w_db w))" for d1 cur' now
  proof (rule pending_update [of b cur "Suc k" "w_db w", OF _ that(5,1,4)])
    show "\<not> (sh_id cur = sh_id cur' \<and> sh_version cur = sh_version cur')"
      using that(2,3) assms(2,3) key_unique_eq [of sh_id "db_shards (w_db w)" cur cur']
      by (auto simp: pending_def data_in_def dest: db_constraintsD(1))
  qed (use assms(2) in \<open>simp_all add: drain_seal_row_def writes_to_def data_in_def\<close>)
  have "pending b cur k (w_db w')"
    using c(2)
  proof (elim disjE exE conjE)
    fix w0 x w1 assume w: "w_db w0 = w_db w" "seal_tx S StateDraining drain_seal_row ''drain_seal'' b' w0 = (Inr (Commit x), w1)"
      and w1: "w_db w' = w_db w1"
    show ?thesis
    proof (cases rule: seal_commit_cases [OF w(2) drain_seal_id])
      case (1 cur')
      then show ?thesis using sealed [of "w_db w1" cur' "w_now w0"] w(1) w1 pending_mono by auto
    next
      case (2 cur' sb d1 es)
      have p: "pending b cur (Suc k) d1" using sealed [of d1 cur' "w_now w0"] 2 w(1) by auto
      have "sh_id cur \<noteq> sh_id sb"
        using p 2(6,7) key_unique_eq [of sh_id "db_shards d1" cur sb]
        by (auto simp: pending_def data_in_def pool_row_def dest: db_constraintsD(1))
      then show ?thesis
        unfolding w1 using 2(3,8) assms(3)
        by (intro pending_update [OF p, of _ "\<lambda>r. sh_id r = sh_id sb" "promote_row b' (w_now w0)"])
          (simp_all add: promote_row_def writes_to_def data_in_def)
    qed
  qed (use pending_mono [OF assms(2)] in simp)
  then show "pending b cur k (w_db (snd (CompleteDrainSeal S b' w)))" "w_orc (snd (CompleteDrainSeal S b' w)) = w_orc w"
    using t c(1) by (simp_all add: CompleteDrainSeal_def)
qed

lemma for_io_step:
  assumes "\<And>x w. fst (f x w) = Inr ()"
  shows "for_io f (x # xs) w = for_io f xs (snd (f x w))"
proof -
  have "f x w = (Inr (), snd (f x w))" using assms [of x w] by (metis prod.collapse)
  then have "bind_io (f x) (\<lambda>_. for_io f xs) w = for_io f xs (snd (f x w))"
    unfolding bind_io_def catch_io_def by (metis (mono_tags) old.sum.simps(6) prod.case)
  then show ?thesis by simp
qed

lemma for_io_append:
  assumes "\<And>x w. fst (f x w) = Inr ()"
  shows "for_io f (xs @ ys) w = for_io f ys (snd (for_io f xs w))"
proof (induction xs arbitrary: w)
  case (Cons x xs)
  have "for_io f ((x # xs) @ ys) w = for_io f (xs @ ys) (snd (f x w))" unfolding append_Cons by (rule for_io_step [OF assms])
  also have "\<dots> = for_io f ys (snd (for_io f xs (snd (f x w))))" by (rule Cons.IH)
  finally show ?case by (simp only: for_io_step [of f, OF assms])
qed (simp add: return_io_def)

lemma complete_drain_ok: "fst (complete_drain S timeout now sh w) = Inr ()"
  by (auto simp: complete_drain_def ignore_io_def catch_io_def return_io_def split: option.split sum.split prod.split)

lemma pending_loop:
  assumes "quiet (w_orc w)" and "pending b cur (2 * length xs + k) (w_db w)" and "\<And>sh. sh \<in> set xs \<Longrightarrow> sh_bucket sh \<noteq> Some b"
  shows "pending b cur k (w_db (snd (for_io (complete_drain S timeout now) xs w))) \<and>
    w_orc (snd (for_io (complete_drain S timeout now) xs w)) = w_orc w"
  using assms
proof (induction xs arbitrary: w)
  case Nil
  then show ?case by (simp add: return_io_def)
next
  case (Cons sh xs)
  let ?w1 = "snd (complete_drain S timeout now sh w)"
  have p: "pending b cur (2 * length xs + k + 2) (w_db w)" using Cons.prems(2) by simp
  have "pending b cur (2 * length xs + k) (w_db ?w1) \<and> w_orc ?w1 = w_orc w"
  proof (cases "\<exists>b'. sh_bucket sh = Some b' \<and> drain_due timeout now sh")
    case True
    then obtain b' where b': "sh_bucket sh = Some b'" "drain_due timeout now sh" by blast
    then have "?w1 = snd (CompleteDrainSeal S b' w)"
      by (simp add: complete_drain_def ignore_io_def catch_io_def return_io_def split: prod.split sum.split)
    then show ?thesis using pending_other [OF Cons.prems(1) p] Cons.prems(3) [of sh] b' by auto
  next
    case False
    then have "?w1 = w" by (auto simp: complete_drain_def return_io_def split: option.split)
    then show ?thesis using pending_mono [OF p] by simp
  qed
  then show ?case
    using Cons.IH [of ?w1] Cons.prems by (simp add: for_io_step [of "complete_drain S timeout now", OF complete_drain_ok] del: for_io.simps)
qed

lemma sealed_stays:
  assumes "csteps {LDrain, LDrainSeal} c c'" and "cl_shards c i = Some sh" and "sh_state sh = StateSealed"
  shows "cl_shards c' i = Some sh"
  using assms(1)
proof (induction rule: csteps_induct)
  case (step l a b)
  have "r' = sh" if "row_step l sh r'" for r'
    using that step.hyps assms(3) by cases (auto simp: pool_row_def data_in_def)
  then show ?case using astep_row [OF step.hyps(3) step.IH] by auto
qed (use assms(2) in simp)

lemma moves_sealed:
  assumes "moves {LDrain, LDrainSeal} w w'" and "db_constraints (w_db w)" and "sh \<in> set (db_shards (w_db w))"
    and "sh_state sh = StateSealed"
  shows "sh \<in> set (db_shards (w_db w'))"
proof -
  have "csteps {LDrain, LDrainSeal} (cluster_of (w_db w)) (cluster_of (w_db w'))"
    using assms(1,2) by (simp add: moves_def db_steps_def)
  then have "cl_shards (cluster_of (w_db w')) (sh_id sh) = Some sh"
    using cluster_of_lookup_row [OF assms(2,3)] assms(4) by (rule sealed_stays)
  then show ?thesis by (auto simp: cluster_of_def dest!: map_of_SomeD)
qed

lemma complete_drain_due:
  assumes "healthy S (w_orc w)" and "pending b cur (Suc k) (w_db w)" and "drain_due timeout now cur"
  shows "\<exists>t. drain_seal_row t cur \<in> set (db_shards (w_db (snd (complete_drain S timeout now cur w))))"
    and "w_orc (snd (complete_drain S timeout now cur w)) = w_orc w"
    and "db_constraints (w_db (snd (complete_drain S timeout now cur w)))"
proof -
  have p: "db_constraints (w_db w)" "cur \<in> set (db_shards (w_db w))" "data_in StateDraining b cur"
    "\<forall>r \<in> set (db_shards (w_db w)). writes_to b r \<longrightarrow> r = cur" and "db_room (w_db w)"
    using assms(2) room_db_room by (auto simp: pending_def)
  then obtain w' where w': "CompleteDrainSeal S b w = (Inr (), w')" "w_orc w' = w_orc w"
    "db_shards (w_db w') = map (rotated drain_seal_row b (sl_now (w_orc w (w_pc w))) (sh_id cur)
      (map_option sh_id (next_standby (db_shards (w_db w))))) (db_shards (w_db w))"
    using CompleteDrainSeal_healthy [OF assms(1)] by blast
  have s: "snd (complete_drain S timeout now cur w) = w'"
    using w'(1) assms(3) p(3) by (simp add: complete_drain_def data_in_def ignore_io_def catch_io_def return_io_def)
  have "drain_seal_row (sl_now (w_orc w (w_pc w))) cur \<in> set (db_shards (w_db w'))"
    using p(2) by (force simp: w'(3) rotated_def)
  moreover have "db_constraints (w_db w')"
    using keepsD [OF keeps_CompleteDrainSeal [of UNIV S b], of w] quiet_rely [OF healthyD(1) [OF assms(1)]] w'(1) p(1)
    by (auto simp: moves_def db_steps_def)
  ultimately show "\<exists>t. drain_seal_row t cur \<in> set (db_shards (w_db (snd (complete_drain S timeout now cur w))))"
    "w_orc (snd (complete_drain S timeout now cur w)) = w_orc w"
    "db_constraints (w_db (snd (complete_drain S timeout now cur w)))"
    using s w'(2) by auto
qed

lemma for_io_ok: "(\<And>x w. fst (f x w) = Inr ()) \<Longrightarrow> fst (for_io f xs w) = Inr ()"
  using for_io_step [of f] by (induction xs arbitrary: w) (auto simp: return_io_def simp del: for_io.simps(2))

text \<open>What is left of a tick once the drains have been looked at.\<close>

definition begin_drains :: "Store \<Rightarrow> ClusterConfig \<Rightarrow> unit io" where
  "begin_drains S cfg = catch_io (ShardsNeedingSeal S (cc_max_bytes cfg)) (\<lambda>_. return_io ()) (\<lambda>need.
     bind_io (for_io (begin_drain S) need) (\<lambda>_. ignore_io (CountStandbyPool S)))"

lemma keeps_drain_steps:
  "keeps (db_steps {LDrain, LDrainSeal}) (complete_drain S timeout now sh)"
  "keeps (db_steps {LDrain, LDrainSeal}) (begin_drains S cfg)"
  unfolding complete_drain_def begin_drains_def begin_drain_def
  by (auto intro!: op_rules keeps_ignore keeps_for split: option.split)

text \<open>
  C18: a drain ends. When the database answers and a shard drains its bucket alone, the first tick at
  which the shard has reported that it is ready, or at which the drain timeout has passed since the
  drain began, seals it, however many other shards are draining.
\<close>

theorem seal_tick_completes_drain:
  assumes "healthy S (w_orc w)" and "db_constraints (w_db w)" and "room (2 * length (db_shards (w_db w)) + 1) (w_db w)"
    and "w_cache w = Some cfg" and "cur \<in> set (db_shards (w_db w))" and "data_in StateDraining b cur"
    and "\<forall>r \<in> set (db_shards (w_db w)). writes_to b r \<longrightarrow> r = cur" and "drain_due timeout now cur"
  shows "\<exists>t. drain_seal_row t cur \<in> set (db_shards (w_db (snd (seal_tick S timeout now w))))"
proof -
  let ?f = "complete_drain S timeout now" and ?w1 = "w\<lparr>w_pc := Suc (w_pc w)\<rparr>" and ?rows = "db_shards (w_db w)"
  define dr where "dr = filter (\<lambda>sh. sh_role sh = RoleData \<and> sh_state sh = StateDraining) ?rows"
  have sd: "ShardsDraining S w = (Inr dr, ?w1)"
    using assms(1) by (simp add: ShardsDraining_def pool_stmt_healthy select_rows_def dr_def)
  have "cur \<in> set dr" using assms(5,6) by (simp add: dr_def data_in_def)
  then obtain xs ys where dr: "dr = xs @ cur # ys" "cur \<notin> set xs" using split_list_first by metis
  have xs: "sh_bucket sh \<noteq> Some b" if "sh \<in> set xs" for sh
  proof
    assume "sh_bucket sh = Some b"
    moreover have "sh \<in> set dr" using that dr(1) by simp
    ultimately have "sh = cur" using assms(7) by (simp add: dr_def writes_to_def data_in_def)
    then show False using that dr(2) by simp
  qed
  have "length dr \<le> length ?rows" by (simp add: dr_def)
  then have "2 * length xs + 1 \<le> 2 * length ?rows + 1" using dr(1) by simp
  then have "room (2 * length xs + 1) (w_db w)" using room_mono [OF assms(3)] by blast
  then have p: "pending b cur (2 * length xs + 1) (w_db ?w1)" using assms(2,5-7) by (simp add: pending_def)
  have q: "quiet (w_orc ?w1)" using healthyD(1) [OF assms(1)] by simp
  define w2 where "w2 = snd (for_io ?f xs ?w1)"
  have w2: "pending b cur 1 (w_db w2)" "w_orc w2 = w_orc w"
    using pending_loop [OF q p xs, of S timeout now] by (simp_all add: w2_def)
  define w3 where "w3 = snd (?f cur w2)"
  have h2: "healthy S (w_orc w2)" and p2: "pending b cur (Suc 0) (w_db w2)" using assms(1) w2 by simp_all
  note c = complete_drain_due [OF h2 p2 assms(8), folded w3_def]
  obtain t where t: "drain_seal_row t cur \<in> set (db_shards (w_db w3))" using c(1) by blast
  have loop: "for_io ?f dr ?w1 = for_io ?f ys w3"
    unfolding dr(1) for_io_append [of ?f, OF complete_drain_ok] for_io_step [of ?f, OF complete_drain_ok]
    by (simp add: w2_def w3_def)
  have r: "fst (for_io ?f ys w3) = Inr ()" using for_io_ok [of ?f ys w3] complete_drain_ok by blast
  have "seal_tick S timeout now w = begin_drains S cfg (snd (for_io ?f ys w3))"
    using sd loop r assms(4) unfolding seal_tick_def begin_drains_def
    by (cases "for_io ?f ys w3") (simp add: bind_io_def catch_io_def GetConfig_def)
  moreover have "keeps (db_steps {LDrain, LDrainSeal}) (bind_io (for_io ?f ys) (\<lambda>_. begin_drains S cfg))"
    by (intro io_rules keeps_drain_steps)
  then have "moves {LDrain, LDrainSeal} w3 (snd (bind_io (for_io ?f ys) (\<lambda>_. begin_drains S cfg) w3))"
    using c(2) w2(2) quiet_rely [OF healthyD(1) [OF assms(1)]] by (intro keepsD) auto
  moreover have "bind_io (for_io ?f ys) (\<lambda>_. begin_drains S cfg) w3 = begin_drains S cfg (snd (for_io ?f ys w3))"
    using r by (cases "for_io ?f ys w3") (simp add: bind_io_def catch_io_def)
  ultimately have "drain_seal_row t cur \<in> set (db_shards (w_db (snd (seal_tick S timeout now w))))"
    using moves_sealed [OF _ c(3) t] by (simp add: drain_seal_row_def)
  then show ?thesis by blast
qed

definition draining_shard :: Shard where
  "draining_shard = (demo_shard 1 StateDraining (Some ''n0''))\<lparr>sh_drain_started := Some (900 * second_ns)\<rparr>"

definition draining_world :: world where
  "draining_world = (demo_world (demo_db\<lparr>db_shards := [draining_shard, demo_shard 2 StateStandby None]\<rparr>))\<lparr>w_cache := Some demo_config\<rparr>"

theorem seal_tick_completes_drain_witness:
  "\<exists>t. drain_seal_row t draining_shard \<in> set (db_shards (w_db (snd
     (seal_tick demo_store (or_30s 0) (1000 * second_ns) draining_world))))"
proof -
  have d: "w_orc draining_world = demo_slot" "w_cache draining_world = Some demo_config"
    "db_shards (w_db draining_world) = [draining_shard, demo_shard 2 StateStandby None]"
    by (simp_all add: draining_world_def)
  have ok: "db_constraints (w_db draining_world)" "drain_due (or_30s 0) (1000 * second_ns) draining_shard"
    "room (2 * length (db_shards (w_db draining_world)) + 1) (w_db draining_world)" by code_simp+
  have only: "data_in StateDraining ''n0'' draining_shard" "\<not> writes_to ''n0'' (demo_shard 2 StateStandby None)"
    by (simp_all add: draining_shard_def writes_to_def data_in_def demo_shard_def new_row_def)
  show ?thesis
    using only ok d demo_healthy by (intro seal_tick_completes_drain [of _ _ demo_config _ "''n0''"]) auto
qed

end
