(* ===== verification/GrpcApi.thy ===== *)
theory GrpcApi
  imports Supervisors
begin

text \<open>
  \<^verbatim>\<open>internal/grpcapi/server.go\<close>: the handlers of the four gRPC services over the state of the server.
  A message is a record with the fields of the protocol file; the fields \<open>routing\<close> and \<open>reason\<close>,
  which carry the constants of the routing package as strings, keep their datatypes. A handler
  replies or ends with a status code (\<open>OtherCode\<close> stands for those that only the transport
  produces); the text of a status is left out. The metadata of a call is
  \<open>None\<close> without metadata, otherwise the values of the key header.
\<close>

section \<open>Messages\<close>

datatype code =
    Unavailable | Unauthenticated | InvalidArgument | Internal | NotFound | Aborted | AlreadyExists | OtherCode

record PShard =
  ps_id :: int
  ps_uuid :: string
  ps_role :: string
  ps_bucket :: string
  ps_state :: string
  ps_dsn :: string
  ps_advertise :: string
  ps_reported :: int
  ps_max :: int
  ps_version :: int

record PConfig =
  pc_mode :: string
  pc_axis :: string
  pc_spec :: string
  pc_max :: int
  pc_retention :: "int option"
  pc_future :: "int option"

record Topology =
  tp_version :: int
  tp_config :: "PConfig option"
  tp_shards :: "PShard list"

record ResolveWriteResponse =
  rw_routing :: RouteKind
  rw_bucket :: string
  rw_reason :: RouteReason
  rw_shard :: int
  rw_uuid :: string
  rw_endpoint :: string
  rw_state :: string

record PReadShard =
  prs_shard :: int
  prs_uuid :: string
  prs_endpoint :: string
  prs_state :: string

record ResolveReadResponse =
  rr_routing :: RouteKind
  rr_bucket :: string
  rr_reason :: RouteReason
  rr_shards :: "PReadShard list"

record BootstrapRequest =
  br_mode :: string
  br_axis :: string
  br_spec :: string
  br_max :: int
  br_retention :: "int option"
  br_future :: "int option"

record RegisterShardRequest =
  rq_uuid :: string
  rq_role :: string
  rq_dsn :: string
  rq_advertise :: string
  rq_startup :: string

definition opt_str :: "string option \<Rightarrow> string" where
  "opt_str v = (case v of None \<Rightarrow> [] | Some s \<Rightarrow> s)"

definition shardToProto :: "uuidlib \<Rightarrow> Shard \<Rightarrow> PShard" where
  "shardToProto U sh =
    \<lparr>ps_id = sh_id sh, ps_uuid = uuid_String U (sh_uuid sh), ps_role = role_string (sh_role sh),
     ps_bucket = opt_str (sh_bucket sh), ps_state = state_string (sh_state sh), ps_dsn = sh_dsn sh,
     ps_advertise = opt_str (sh_advertise sh), ps_reported = sh_reported sh, ps_max = opt_int (sh_max_bytes sh),
     ps_version = sh_version sh\<rparr>"

definition writeResultToProto :: "WriteResult \<Rightarrow> ResolveWriteResponse" where
  "writeResultToProto res =
    \<lparr>rw_routing = wres_routing res, rw_bucket = wres_bucket res, rw_reason = wres_reason res,
     rw_shard = wres_shard res, rw_uuid = wres_uuid res, rw_endpoint = wres_endpoint res,
     rw_state = state_string (wres_state res)\<rparr>"

definition readResultToProto :: "ReadResult \<Rightarrow> ResolveReadResponse" where
  "readResultToProto res =
    \<lparr>rr_routing = rres_routing res, rr_bucket = rres_bucket res, rr_reason = rres_reason res,
     rr_shards = map (\<lambda>sh. \<lparr>prs_shard = rs_shard sh, prs_uuid = rs_uuid sh, prs_endpoint = rs_endpoint sh,
       prs_state = state_string (rs_state sh)\<rparr>) (rres_shards res)\<rparr>"

definition config_proto :: "ClusterConfig \<Rightarrow> PConfig" where
  "config_proto cfg =
    \<lparr>pc_mode = cc_mode cfg, pc_axis = axis_string (cc_axis cfg), pc_spec = cc_raw cfg, pc_max = cc_max_bytes cfg,
     pc_retention = map_option wrap32 (cc_retention cfg), pc_future = map_option wrap32 (cc_future cfg)\<rparr>"

section \<open>Handlers\<close>

type_synonym metadata = "string list option"

type_synonym ('s, 'a) shandler = "'s \<Rightarrow> (code + 'a) \<times> 's"

type_synonym 'a handler = "(srv, 'a) shandler"

record Server =
  gs_lib :: golib
  gs_uuid :: uuidlib
  gs_store :: Store
  gs_key :: string
  gs_retention :: bool

definition reply :: "'a \<Rightarrow> ('s, 'a) shandler" where
  "reply x s = (Inr x, s)"

definition status :: "code \<Rightarrow> ('s, 'a) shandler" where
  "status c s = (Inl c, s)"

text \<open>A call of the server's own code whose error is turned into a status.\<close>

definition call :: "('s, 'x) sio \<Rightarrow> (goerr \<Rightarrow> ('s, 'a) shandler) \<Rightarrow> ('x \<Rightarrow> ('s, 'a) shandler) \<Rightarrow> ('s, 'a) shandler" where
  "call m h k s = (case m s of (Inl e, s') \<Rightarrow> h e s' | (Inr x, s') \<Rightarrow> k x s')"

text \<open>\<open>subtle.ConstantTimeCompare\<close>: the bytes' differences are collected and looked at once.\<close>

definition byte_of :: "char \<Rightarrow> 8 word" where
  "byte_of c = of_int (char_code c)"

fun collect_diff :: "string \<Rightarrow> string \<Rightarrow> 8 word \<Rightarrow> 8 word" where
  "collect_diff (x # xs) (y # ys) v = collect_diff xs ys (or v (xor (byte_of x) (byte_of y)))"
| "collect_diff _ _ v = v"

definition ConstantTimeCompare :: "string \<Rightarrow> string \<Rightarrow> int" where
  "ConstantTimeCompare x y =
    (if length x \<noteq> length y then 0 else if collect_diff x y 0 = 0 then 1 else 0)"

definition checkKey :: "string \<Rightarrow> string \<Rightarrow> bool" where
  "checkKey expected got = (if expected = [] then False else ConstantTimeCompare expected got = 1)"

definition requireKey :: "Server \<Rightarrow> metadata \<Rightarrow> code option" where
  "requireKey gs md =
    (if gs_key gs = [] then Some Unavailable
     else case md of None \<Rightarrow> Some Unauthenticated
     | Some vals \<Rightarrow> (case vals of [] \<Rightarrow> Some Unauthenticated
        | v # _ \<Rightarrow> if \<not> checkKey (gs_key gs) v then Some Unauthenticated else None))"

definition with_key :: "Server \<Rightarrow> metadata \<Rightarrow> ('s, 'a) shandler \<Rightarrow> ('s, 'a) shandler" where
  "with_key gs md h = (case requireKey gs md of Some c \<Rightarrow> status c | None \<Rightarrow> h)"

definition notify_then :: "Server \<Rightarrow> 'a handler \<Rightarrow> 'a handler" where
  "notify_then gs h = call (notifyTopology (gs_store gs)) (\<lambda>_. status Internal) (\<lambda>_. h)"

subsection \<open>Resolution\<close>

text \<open>A request without a key has no value to convert; the conversion of a value is the message library's.\<close>

definition valueToAny :: "shard_key option \<Rightarrow> shard_key res" where
  "valueToAny v = (case v of None \<Rightarrow> Inl (ErrMsg ''shard_key required'') | Some k \<Rightarrow> Inr k)"

lemma valueToAny_simps [simp]: "valueToAny None = Inl (ErrMsg ''shard_key required'')" "valueToAny (Some k) = Inr k"
  by (simp_all add: valueToAny_def)

definition Write :: "Server \<Rightarrow> gtime \<Rightarrow> shard_key option \<Rightarrow> ResolveWriteResponse handler" where
  "Write gs now key = (case valueToAny key of Inl _ \<Rightarrow> status InvalidArgument
     | Inr k \<Rightarrow> call (on_store (ResolveWrite (gs_lib gs) (gs_uuid gs) (gs_store gs) now k))
         (\<lambda>e. if e = ErrNotFound then status Unavailable else status Internal)
         (\<lambda>res. reply (writeResultToProto res)))"

definition Read :: "Server \<Rightarrow> gtime \<Rightarrow> shard_key option \<Rightarrow> ResolveReadResponse handler" where
  "Read gs now key = (case valueToAny key of Inl _ \<Rightarrow> status InvalidArgument
     | Inr k \<Rightarrow> call (on_store (ResolveRead (gs_lib gs) (gs_uuid gs) (gs_store gs) now k))
         (\<lambda>_. status Internal) (\<lambda>res. reply (readResultToProto res)))"

definition ListBucketShards :: "Server \<Rightarrow> string \<Rightarrow> (string \<times> PShard list) handler" where
  "ListBucketShards gs b = call (on_store (ListShards (gs_store gs))) (\<lambda>_. status Internal) (\<lambda>all.
     reply (b, map (shardToProto (gs_uuid gs)) (filter (\<lambda>sh. sh_bucket sh = Some b) all)))"

subsection \<open>Topology\<close>

definition buildTopology :: "Server \<Rightarrow> Topology handler" where
  "buildTopology gs =
    (let rest = (\<lambda>v.
       (let finish = (\<lambda>cfg. call (on_store (ListShards (gs_store gs))) (\<lambda>_. status Internal) (\<lambda>shards.
              reply \<lparr>tp_version = v, tp_config = map_option config_proto cfg,
                tp_shards = map (shardToProto (gs_uuid gs)) shards\<rparr>)) in
        call (on_store (GetConfig (gs_store gs))) (\<lambda>_. finish None) (\<lambda>cfg. finish (Some cfg)))) in
     call (on_store (GetTopologyVersion (gs_store gs)))
       (\<lambda>e. if e = ErrNotBootstrapped then rest 0 else status Internal) rest)"

definition GetTopology :: "Server \<Rightarrow> Topology handler" where
  "GetTopology gs = buildTopology gs"

subsection \<open>Administration\<close>

definition bootstrap_mode :: "BootstrapRequest \<Rightarrow> string" where
  "bootstrap_mode req =
    (if br_mode req = [] then (if axis_of_string (br_axis req) = AxisHash then ModeHash else ModeRange)
     else br_mode req)"

definition bootstrap_axis :: "BootstrapRequest \<Rightarrow> Axis" where
  "bootstrap_axis req =
    (if bootstrap_mode req = ModeHash \<and> br_axis req = [] then AxisHash else axis_of_string (br_axis req))"

definition min_shards :: "Axis \<Rightarrow> int option \<Rightarrow> int option \<Rightarrow> int" where
  "min_shards axis rd mf = (case (rd, mf) of
     (Some r, Some m) \<Rightarrow> if axis = AxisTime then wrap32 (MinShards r m) else 0 | _ \<Rightarrow> 0)"

definition BootstrapCluster :: "Server \<Rightarrow> metadata \<Rightarrow> BootstrapRequest \<Rightarrow> (string \<times> int) handler" where
  "BootstrapCluster gs md req = with_key gs md
    (let mode = bootstrap_mode req; axis = bootstrap_axis req; rd = br_retention req; mf = br_future req in
     case ValidateBootstrap mode axis rd mf of Inl _ \<Rightarrow> status InvalidArgument
     | Inr _ \<Rightarrow> (case ParseSpec axis (br_spec req) of Inl _ \<Rightarrow> status InvalidArgument
        | Inr spec \<Rightarrow>
            if br_max req \<le> 0 then status InvalidArgument
            else call (on_store (Bootstrap (gs_store gs)
                \<lparr>cc_mode = mode, cc_axis = axis, cc_spec = spec, cc_raw = br_spec req, cc_max_bytes = br_max req,
                 cc_retention = rd, cc_future = mf\<rparr>))
              (\<lambda>e. if e = ErrAlreadyBootstrapped then status AlreadyExists else status Internal)
              (\<lambda>_. notify_then gs (reply (''bootstrapped'', min_shards axis rd mf)))))"

definition AdminListShards :: "Server \<Rightarrow> metadata \<Rightarrow> (PShard list) handler" where
  "AdminListShards gs md = with_key gs md
    (call (on_store (ListShards (gs_store gs))) (\<lambda>_. status Internal)
      (\<lambda>shards. reply (map (shardToProto (gs_uuid gs)) shards)))"

definition AdminRegisterShard :: "Server \<Rightarrow> metadata \<Rightarrow> RegisterShardRequest \<Rightarrow> PShard handler" where
  "AdminRegisterShard gs md req = with_key gs md
    (case uuid_Parse (gs_uuid gs) (rq_uuid req) of None \<Rightarrow> status InvalidArgument
     | Some u \<Rightarrow>
        (let role = (if rq_role req = ''error'' then RoleError else RoleData) in
         call (on_store (RegisterShard (gs_store gs) u role (rq_dsn req) (rq_advertise req)
             (state_of_string (rq_startup req))))
           (\<lambda>e. if e = ErrConflict then status AlreadyExists else status InvalidArgument)
           (\<lambda>sh. notify_then gs (reply (shardToProto (gs_uuid gs) sh)))))"

definition AdminSealRotate :: "Server \<Rightarrow> metadata \<Rightarrow> string \<Rightarrow> (string \<times> string) handler" where
  "AdminSealRotate gs md b = with_key gs md
    (call (on_store (SealRotate (gs_store gs) b))
      (\<lambda>e. if e = ErrNotFound then status NotFound else status Aborted)
      (\<lambda>_. notify_then gs (reply (''rotated'', b))))"

definition PatchShardState :: "Server \<Rightarrow> metadata \<Rightarrow> int \<Rightarrow> string \<Rightarrow> string handler" where
  "PatchShardState gs md i st = with_key gs md
    (call (on_store (PatchState (gs_store gs) i (state_of_string st))) (\<lambda>_. status Aborted)
      (\<lambda>_. notify_then gs (reply ''ok'')))"

definition RetentionTick :: "Server \<Rightarrow> metadata \<Rightarrow> gtime \<Rightarrow> string handler" where
  "RetentionTick gs md now = with_key gs md
    (if \<not> gs_retention gs then status Unavailable
     else call (on_store (retention_tick (gs_store gs) now)) (\<lambda>_. status Internal)
       (\<lambda>_. notify_then gs (reply ''ok'')))"

subsection \<open>Agents\<close>

definition ReportStats :: "Server \<Rightarrow> metadata \<Rightarrow> string \<Rightarrow> int \<Rightarrow> (string \<times> string) handler" where
  "ReportStats gs md uid bytes = with_key gs md
    (case uuid_Parse (gs_uuid gs) uid of None \<Rightarrow> status InvalidArgument
     | Some u \<Rightarrow> call (on_store (UpdateStats (gs_store gs) u bytes)) (\<lambda>_. status NotFound) (\<lambda>_.
         call (on_store (GetShardByUUID (gs_store gs) u)) (\<lambda>_. reply (''ok'', []))
           (\<lambda>sh. reply (''ok'', state_string (sh_state sh)))))"

definition ReportCleaned :: "Server \<Rightarrow> metadata \<Rightarrow> string \<Rightarrow> string handler" where
  "ReportCleaned gs md uid = with_key gs md
    (case uuid_Parse (gs_uuid gs) uid of None \<Rightarrow> status InvalidArgument
     | Some u \<Rightarrow> call (on_store (FinishCleaning (gs_store gs) u)) (\<lambda>_. status Internal)
         (\<lambda>_. notify_then gs (reply ''standby'')))"

definition ReportDrainComplete :: "Server \<Rightarrow> metadata \<Rightarrow> string \<Rightarrow> string handler" where
  "ReportDrainComplete gs md uid = with_key gs md
    (case uuid_Parse (gs_uuid gs) uid of None \<Rightarrow> status InvalidArgument
     | Some u \<Rightarrow> call (on_store (MarkDrainReady (gs_store gs) u)) (\<lambda>_. status NotFound) (\<lambda>_. reply ''ok''))"

subsection \<open>The periodic refresh\<close>

definition RefreshMetrics :: "Server \<Rightarrow> (srv, unit) sio" where
  "RefreshMetrics gs =
    catch_io (on_store (ListShards (gs_store gs))) (\<lambda>_. return_io ()) (\<lambda>_.
      bind_io (ignore_io (on_store (CountStandbyPool (gs_store gs)))) (\<lambda>_.
      bind_io (ignore_io (on_store (ListStaleActives (gs_store gs)))) (\<lambda>_.
      catch_io (on_store (GetTopologyVersion (gs_store gs))) (\<lambda>_. return_io ()) broadcast_io)))"

section \<open>The cluster key\<close>

lemma byte_of_inj: "byte_of x = byte_of y \<longleftrightarrow> x = y"
proof
  assume "byte_of x = byte_of y"
  then have "char_code x mod 256 = char_code y mod 256"
    by (simp add: byte_of_def word_of_int_eq_iff take_bit_eq_mod)
  then show "x = y" by (simp add: char_code_def)
qed simp

lemma or_word_0: "or v w = 0 \<longleftrightarrow> v = 0 \<and> w = (0 :: 'a :: len word)"
  by (auto simp: bit_eq_iff bit_simps)

lemma xor_word_0: "xor v w = 0 \<longleftrightarrow> v = (w :: 'a :: len word)"
  by (auto simp: bit_eq_iff bit_simps)

lemma collect_diff_0: "length x = length y \<Longrightarrow> collect_diff x y v = 0 \<longleftrightarrow> v = 0 \<and> x = y"
  by (induction x y v rule: collect_diff.induct) (auto simp: or_word_0 xor_word_0 byte_of_inj)

lemma checkKey_iff: "checkKey expected got \<longleftrightarrow> expected \<noteq> [] \<and> got = expected"
  using collect_diff_0 [of expected got 0] by (auto simp: checkKey_def ConstantTimeCompare_def)

lemma requireKey_None: "requireKey gs md = None \<longleftrightarrow> gs_key gs \<noteq> [] \<and> (\<exists>rest. md = Some (gs_key gs # rest))"
  by (auto simp: requireKey_def checkKey_iff split: option.splits list.splits)

section \<open>Calls of the server\<close>

text \<open>Everything that runs in the server process: the handlers, the workers and the periodic refresh.\<close>

datatype srv_call =
    CallWrite gtime "shard_key option" | CallRead gtime "shard_key option" | CallListBucket string | CallGetTopology
  | CallBootstrap BootstrapRequest | CallListShards | CallRegister RegisterShardRequest | CallSealRotate string
  | CallPatch int string | CallRetention gtime | CallStats string int | CallCleaned string | CallDrained string
  | TickSeal int gtime | TickRetention gtime | TickHealth | TickRefresh

definition outcome :: "('e + 'a) \<times> 's \<Rightarrow> ('e option \<times> 's)" where
  "outcome r = (case r of (Inl e, s) \<Rightarrow> (Some e, s) | (Inr _, s) \<Rightarrow> (None, s))"

definition worker :: "('s, unit) sio \<Rightarrow> 's \<Rightarrow> code option \<times> 's" where
  "worker m s = (None, snd (m s))"

fun run_call :: "Server \<Rightarrow> metadata \<Rightarrow> srv_call \<Rightarrow> srv \<Rightarrow> code option \<times> srv" where
  "run_call gs md (CallWrite now k) s = outcome (Write gs now k s)"
| "run_call gs md (CallRead now k) s = outcome (Read gs now k s)"
| "run_call gs md (CallListBucket b) s = outcome (ListBucketShards gs b s)"
| "run_call gs md CallGetTopology s = outcome (GetTopology gs s)"
| "run_call gs md (CallBootstrap req) s = outcome (BootstrapCluster gs md req s)"
| "run_call gs md CallListShards s = outcome (AdminListShards gs md s)"
| "run_call gs md (CallRegister req) s = outcome (AdminRegisterShard gs md req s)"
| "run_call gs md (CallSealRotate b) s = outcome (AdminSealRotate gs md b s)"
| "run_call gs md (CallPatch i st) s = outcome (PatchShardState gs md i st s)"
| "run_call gs md (CallRetention now) s = outcome (RetentionTick gs md now s)"
| "run_call gs md (CallStats u n) s = outcome (ReportStats gs md u n s)"
| "run_call gs md (CallCleaned u) s = outcome (ReportCleaned gs md u s)"
| "run_call gs md (CallDrained u) s = outcome (ReportDrainComplete gs md u s)"
| "run_call gs md (TickSeal timeout now) s = worker (on_store (seal_tick (gs_store gs) timeout now)) s"
| "run_call gs md (TickRetention now) s = worker (on_store (ignore_io (retention_tick (gs_store gs) now))) s"
| "run_call gs md TickHealth s = worker (health_tick (gs_store gs) (Some (notifyTopology (gs_store gs)))) s"
| "run_call gs md TickRefresh s = worker (RefreshMetrics gs) s"

definition run_calls :: "Server \<Rightarrow> (metadata \<times> srv_call) list \<Rightarrow> srv \<Rightarrow> srv" where
  "run_calls gs calls s = fold (\<lambda>(md, c) s. snd (run_call gs md c s)) calls s"

fun guarded :: "srv_call \<Rightarrow> bool" where
  "guarded (CallWrite _ _) = False" | "guarded (CallRead _ _) = False" | "guarded (CallListBucket _) = False"
| "guarded CallGetTopology = False" | "guarded (TickSeal _ _) = False" | "guarded (TickRetention _) = False"
| "guarded TickHealth = False" | "guarded TickRefresh = False" | "guarded _ = True"

lemma guarded_refused:
  assumes "guarded c" and "requireKey gs md = Some e"
  shows "run_call gs md c s = (Some e, s)"
  using assms by (cases c) (auto simp: BootstrapCluster_def AdminListShards_def AdminRegisterShard_def AdminSealRotate_def
      PatchShardState_def RetentionTick_def ReportStats_def ReportCleaned_def ReportDrainComplete_def with_key_def
      status_def outcome_def)

text \<open>
  C9: without the cluster key nothing happens. A call of the administration or agent services is
  refused and leaves the server as it was, unless a key is configured and the first value of the
  key header is exactly this key.
\<close>

theorem guarded_calls_need_key:
  assumes "guarded c" and "\<not> (gs_key gs \<noteq> [] \<and> (\<exists>rest. md = Some (gs_key gs # rest)))"
  shows "\<exists>e \<in> {Unavailable, Unauthenticated}. run_call gs md c s = (Some e, s)"
proof -
  obtain e where e: "requireKey gs md = Some e" using assms(2) requireKey_None [of gs md] by (cases "requireKey gs md") auto
  moreover have "e \<in> {Unavailable, Unauthenticated}" using e by (auto simp: requireKey_def split: if_splits option.splits list.splits)
  ultimately show ?thesis using guarded_refused [OF assms(1) e] by auto
qed

definition demo_server :: Server where
  "demo_server = \<lparr>gs_lib = demo_lib, gs_uuid = demo_uuid, gs_store = demo_store, gs_key = ''secret'', gs_retention = True\<rparr>"

definition demo_srv :: "db \<Rightarrow> srv" where
  "demo_srv d = \<lparr>sv_world = demo_world d, sv_bcast = Some NewBroadcast\<rparr>"

theorem guarded_calls_need_key_witness:
  "\<exists>e. run_call demo_server (Some [''Secret'']) (CallSealRotate ''n0'') (demo_srv demo_db) = (Some e, demo_srv demo_db) \<and>
     fst (run_call demo_server (Some [''secret'']) (CallSealRotate ''n0'') (demo_srv demo_db)) = None"
proof -
  have "fst (run_call demo_server (Some [''secret'']) (CallSealRotate ''n0'') (demo_srv demo_db)) = None" by code_simp
  then show ?thesis
    using guarded_calls_need_key [of "CallSealRotate ''n0''" demo_server "Some [''Secret'']" "demo_srv demo_db"]
    by (auto simp: demo_server_def)
qed

section \<open>The server refines the contract\<close>

definition hub_ok :: "srv \<Rightarrow> bool" where
  "hub_ok s \<longleftrightarrow> (case sv_bcast s of None \<Rightarrow> True | Some b \<Rightarrow> bc_ok b)"

text \<open>
  Code that stays inside a relation on its state. For a preorder the rules of the locale \<open>code_rules\<close>
  compose code; for the server's state \<open>server_rules\<close> adds notifications.
\<close>

definition follows :: "('s \<Rightarrow> 's \<Rightarrow> bool) \<Rightarrow> ('s \<Rightarrow> 'r \<times> 's) \<Rightarrow> bool" where
  "follows G m \<longleftrightarrow> (\<forall>s. G s (snd (m s)))"

lemma snd_outcome [simp]: "snd (outcome x) = snd x"
  by (cases x; cases "fst x") (auto simp: outcome_def)

locale code_rules =
  fixes G :: "'s \<Rightarrow> 's \<Rightarrow> bool"
  assumes G_refl: "G s s"
    and G_trans: "G s s' \<Longrightarrow> G s' s'' \<Longrightarrow> G s s''"
begin

lemma follows_const:
  "follows G (return_io x)" "follows G (fail_io e)" "follows G (reply y)" "follows G (status c)"
  by (simp_all add: follows_def return_io_def fail_io_def reply_def status_def G_refl)

lemma follows_case:
  assumes "follows G m" and "\<And>e. follows G (h e)" and "\<And>x. follows G (k x)"
  shows "follows G (\<lambda>s. case m s of (Inl e, s') \<Rightarrow> h e s' | (Inr x, s') \<Rightarrow> k x s')"
  unfolding follows_def
proof
  fix s
  obtain r s' where m: "m s = (r, s')" by fastforce
  then have "G s s'" using assms(1) unfolding follows_def by (metis snd_conv)
  then show "G s (snd (case m s of (Inl e, s') \<Rightarrow> h e s' | (Inr x, s') \<Rightarrow> k x s'))"
    using assms(2,3) G_trans by (cases r) (auto simp: m follows_def)
qed

lemma follows_catch:
  "follows G m \<Longrightarrow> (\<And>e. follows G (h e)) \<Longrightarrow> (\<And>x. follows G (k x)) \<Longrightarrow> follows G (catch_io m h k)"
  "follows G m \<Longrightarrow> (\<And>e. follows G (h' e)) \<Longrightarrow> (\<And>x. follows G (k' x)) \<Longrightarrow> follows G (call m h' k')"
  unfolding catch_io_def [abs_def] call_def [abs_def] by (rule follows_case, assumption+)+

lemma follows_bind: "follows G m \<Longrightarrow> (\<And>x. follows G (k x)) \<Longrightarrow> follows G (bind_io m k)"
  unfolding bind_io_def by (intro follows_catch follows_const)

lemma follows_ignore: "follows G m \<Longrightarrow> follows G (ignore_io m)"
  unfolding ignore_io_def by (intro follows_catch follows_const)

lemma follows_for: "(\<And>x. follows G (f x)) \<Longrightarrow> follows G (for_io f xs)"
  by (induction xs) (auto intro!: follows_bind follows_const)

lemma follows_with_key: "follows G h \<Longrightarrow> follows G (with_key gs md h)"
  unfolding with_key_def by (auto intro: follows_const split: option.split)

lemma follows_outcome: "follows G m \<Longrightarrow> follows G (\<lambda>s. outcome (m s))"
  by (simp add: follows_def)

lemma follows_worker: "follows G m \<Longrightarrow> follows G (worker m)"
  by (simp add: follows_def worker_def)

lemmas follows_rules = follows_const follows_catch follows_bind follows_ignore follows_for follows_with_key

end

locale server_rules = code_rules G for G :: "srv \<Rightarrow> srv \<Rightarrow> bool" +
  assumes G_version: "follows G (on_store (GetTopologyVersion S))"
    and G_broadcast: "follows G (broadcast_io v)"
begin

lemma follows_notify: "follows G (notifyTopology S)"
proof -
  have "follows G (catch_io (on_store (GetTopologyVersion S)) (\<lambda>_. return_io ()) broadcast_io)"
    by (intro follows_rules G_version G_broadcast)
  then show ?thesis by (simp add: follows_def notifyTopology_def G_refl)
qed

lemma follows_notify_then: "follows G h \<Longrightarrow> follows G (notify_then gs h)"
  unfolding notify_then_def by (intro follows_rules follows_notify)

lemmas follows_server = follows_rules follows_notify follows_notify_then G_broadcast

end

text \<open>Code of the server that moves the database by steps of the contract and keeps the hub in order.\<close>

definition srv_step :: "label set \<Rightarrow> srv \<Rightarrow> srv \<Rightarrow> bool" where
  "srv_step L s s' \<longleftrightarrow> (rely (db_steps L) (w_orc (sv_world s)) \<longrightarrow> moves L (sv_world s) (sv_world s') \<and> (hub_ok s \<longrightarrow> hub_ok s'))"

abbreviation srv_keeps :: "label set \<Rightarrow> (srv \<Rightarrow> 'r \<times> srv) \<Rightarrow> bool" where
  "srv_keeps L \<equiv> follows (srv_step L)"

lemma srv_keeps_def:
  "srv_keeps L m \<longleftrightarrow> (\<forall>s. rely (db_steps L) (w_orc (sv_world s)) \<longrightarrow>
     moves L (sv_world s) (sv_world (snd (m s))) \<and> (hub_ok s \<longrightarrow> hub_ok (snd (m s))))"
  by (simp add: follows_def srv_step_def)

lemma moves_refl: "moves L w w"
  by (simp add: moves_def contract.G_refl)

lemma srv_keeps_store: "keeps (db_steps L) m \<Longrightarrow> srv_keeps L (on_store m)"
  unfolding srv_keeps_def on_store_def by (auto simp: hub_ok_def dest: keepsD split: prod.split)

lemma srv_step_trans: "srv_step L s s' \<Longrightarrow> srv_step L s' s'' \<Longrightarrow> srv_step L s s''"
  using moves_trans by (auto simp: srv_step_def moves_def)

interpretation steps: server_rules "srv_step L" for L
proof
  show "srv_step L s s" for s by (simp add: srv_step_def moves_refl)
  show "srv_step L s s' \<Longrightarrow> srv_step L s' s'' \<Longrightarrow> srv_step L s s''" for s s' s'' by (rule srv_step_trans)
  show "srv_keeps L (on_store (GetTopologyVersion S))" for S by (intro srv_keeps_store io_rules)
  show "srv_keeps L (broadcast_io v)" for v
    by (auto simp: srv_keeps_def broadcast_io_def hub_ok_def Notify_ok bc_ok_Notify moves_refl split: option.split sum.split)
qed

lemmas srv_rules = steps.follows_server srv_keeps_store

lemmas handler_defs = Write_def Read_def ListBucketShards_def GetTopology_def buildTopology_def BootstrapCluster_def
  AdminListShards_def AdminRegisterShard_def AdminSealRotate_def PatchShardState_def RetentionTick_def ReportStats_def
  ReportCleaned_def ReportDrainComplete_def

text \<open>The steps of the contract that a call may take.\<close>

fun call_labels :: "srv_call \<Rightarrow> label set" where
  "call_labels (CallWrite _ _) = resolve_labels" | "call_labels (CallRead _ _) = resolve_labels"
| "call_labels (CallBootstrap _) = {LBootstrap}" | "call_labels (CallRegister _) = {LRegister, LReregister}"
| "call_labels (CallSealRotate _) = {LSeal}" | "call_labels (CallPatch _ _) = {LPatch}"
| "call_labels (CallRetention _) = {LClean}" | "call_labels (CallStats _ _) = {LStats}"
| "call_labels (CallCleaned _) = {LFinish}" | "call_labels (CallDrained _) = {LReady}"
| "call_labels (TickSeal _ _) = {LDrain, LDrainSeal}" | "call_labels (TickRetention _) = {LClean}"
| "call_labels TickHealth = {LSeal}" | "call_labels _ = {}"

lemma run_call_keeps:
  assumes "call_labels c \<subseteq> L"
  shows "srv_keeps L (run_call gs md c)"
proof -
  have "srv_keeps L (\<lambda>s. run_call gs md c s)"
    using assms by (cases c) (auto simp: handler_defs RefreshMetrics_def health_tick_def health_failover_def Let_def
      intro!: steps.follows_outcome steps.follows_worker srv_rules op_rules keeps_ResolveWrite keeps_ResolveRead keeps_seal_tick
        keeps_retention_tick keeps_ignore split: option.split sum.split)
  then show ?thesis .
qed

lemma run_calls_keeps:
  assumes "rely (db_steps L) (w_orc (sv_world s))" and "\<And>md c. (md, c) \<in> set calls \<Longrightarrow> call_labels c \<subseteq> L"
  shows "moves L (sv_world s) (sv_world (run_calls gs calls s)) \<and> (hub_ok s \<longrightarrow> hub_ok (run_calls gs calls s))"
  using assms
proof (induction calls arbitrary: s)
  case Nil
  then show ?case by (simp add: run_calls_def moves_refl)
next
  case (Cons mc calls)
  obtain md c where mc: "mc = (md, c)" by fastforce
  let ?s1 = "snd (run_call gs md c s)"
  have "srv_keeps L (run_call gs md c)" using Cons.prems(2) mc by (intro run_call_keeps) auto
  then have 1: "moves L (sv_world s) (sv_world ?s1)" "hub_ok s \<Longrightarrow> hub_ok ?s1"
    using Cons.prems(1) by (auto simp: srv_keeps_def)
  then have "moves L (sv_world ?s1) (sv_world (run_calls gs calls ?s1)) \<and> (hub_ok ?s1 \<longrightarrow> hub_ok (run_calls gs calls ?s1))"
    using Cons.prems by (intro Cons.IH) (auto simp: moves_def)
  then show ?case using 1 moves_trans [OF 1(1)] by (simp add: run_calls_def mc)
qed

text \<open>
  C1: the whole server refines the contract. Whatever handlers and workers run, in whatever order, with
  whatever failures and with other sessions that keep to the same steps, the schema constraints hold,
  the cluster moves only by the steps these calls may take, and the broadcast hub stays in order,
  so that no notification ever reaches a closed channel.
\<close>

theorem server_refines_contract:
  assumes "rely (db_steps L) (w_orc (sv_world s))" and "db_constraints (w_db (sv_world s))" and "hub_ok s"
    and "\<forall>(md, c) \<in> set calls. call_labels c \<subseteq> L"
  shows "db_constraints (w_db (sv_world (run_calls gs calls s))) \<and>
    csteps L (cluster_of (w_db (sv_world s))) (cluster_of (w_db (sv_world (run_calls gs calls s)))) \<and>
    hub_ok (run_calls gs calls s)"
  using run_calls_keeps [OF assms(1), of calls gs] assms(2-4) by (auto simp: moves_def db_steps_def)

definition demo_calls :: "(metadata \<times> srv_call) list" where
  "demo_calls = [(Some [''secret''], CallStats [char_of (1 :: int)] 5), (None, CallWrite 0 (Some (KInt64 7))), (None, TickSeal 1 0),
     (None, TickHealth), (None, TickRefresh)]"

theorem server_refines_contract_witness:
  "csteps {LStats, LSeal, LPromote True, LPromote False, LDrain, LDrainSeal} (cluster_of demo_db)
     (cluster_of (w_db (sv_world (run_calls demo_server demo_calls (demo_srv demo_db))))) \<and>
   map sh_reported (db_shards (w_db (sv_world (run_calls demo_server demo_calls (demo_srv demo_db))))) = [5, 0]"
proof
  let ?L = "{LStats, LSeal, LPromote True, LPromote False, LDrain, LDrainSeal}"
  have "rely (db_steps ?L) (w_orc (sv_world (demo_srv demo_db)))" by (simp add: demo_srv_def quiet_rely)
  moreover have "hub_ok (demo_srv demo_db)" by (simp add: hub_ok_def demo_srv_def bc_ok_New)
  ultimately show "csteps ?L (cluster_of demo_db) (cluster_of (w_db (sv_world (run_calls demo_server demo_calls (demo_srv demo_db)))))"
    using server_refines_contract [of ?L "demo_srv demo_db" demo_calls demo_server]
    by (simp add: demo_srv_def demo_db_constraints) (simp add: demo_calls_def resolve_labels_def)
  show "map sh_reported (db_shards (w_db (sv_world (run_calls demo_server demo_calls (demo_srv demo_db))))) = [5, 0]"
    by code_simp
qed

section \<open>Topology snapshots\<close>

text \<open>What a router reads of the shards of a snapshot.\<close>

definition proto_view :: "PShard list \<Rightarrow> int \<Rightarrow> (string \<times> string \<times> string \<times> string \<times> string \<times> string) option" where
  "proto_view shards = map_of (map (\<lambda>p. (ps_id p, ps_uuid p, ps_role p, ps_bucket p, ps_state p, ps_dsn p, ps_advertise p)) shards)"

definition view_proto :: "uuidlib \<Rightarrow> uuid \<times> Role \<times> string option \<times> State \<times> string \<times> string option \<Rightarrow>
    string \<times> string \<times> string \<times> string \<times> string \<times> string" where
  "view_proto U = (\<lambda>(u, role, b, st, dsn, adv).
     (uuid_String U u, role_string role, opt_str b, state_string st, dsn, opt_str adv))"

lemma proto_view_rows:
  "proto_view (map (shardToProto U) rows) i = map_option (view_proto U \<circ> row_view) (map_of (map (\<lambda>sh. (sh_id sh, sh)) rows) i)"
  by (induction rows) (simp_all add: proto_view_def shardToProto_def view_proto_def row_view_def)

lemma proto_view_cluster: "proto_view (map (shardToProto U) (db_shards d)) i = map_option (view_proto U) (cl_view (cluster_of d) i)"
  by (simp add: proto_view_rows cl_view_def cluster_of_def option.map_comp)

lemma proto_view_sorted:
  assumes "db_constraints d"
  shows "proto_view (map (shardToProto U) (sort_key sh_id (db_shards d))) = proto_view (map (shardToProto U) (db_shards d))"
proof
  fix i
  have "cluster_of (d\<lparr>db_shards := sort_key sh_id (db_shards d)\<rparr>) = cluster_of d"
    using assms by (intro cluster_of_permute) simp_all
  then show "proto_view (map (shardToProto U) (sort_key sh_id (db_shards d))) i = proto_view (map (shardToProto U) (db_shards d)) i"
    using proto_view_cluster [of U "d\<lparr>db_shards := sort_key sh_id (db_shards d)\<rparr>" i] by (simp add: proto_view_cluster)
qed

lemma call_cases:
  assumes "call m h k s = (Inr y, s')"
  obtains e s1 where "m s = (Inl e, s1)" and "h e s1 = (Inr y, s')" | x s1 where "m s = (Inr x, s1)" and "k x s1 = (Inr y, s')"
  using assms by (cases "m s"; cases "fst (m s)") (auto simp: call_def)

lemma on_store_Pair: "on_store m s = (r, s') \<longleftrightarrow> (\<exists>w'. m (sv_world s) = (r, w') \<and> s' = s\<lparr>sv_world := w'\<rparr>)"
  by (auto simp: on_store_def split: prod.splits)

lemma GetTopologyVersion_reads:
  assumes "GetTopologyVersion S w = (Inr v, w')"
  shows "\<exists>c. db_config (w_db w') = Some c \<and> cr_version c = v"
proof -
  obtain row w1 where p: "pool_stmt S [] select_config w = (Inr row, w1)" and k: "(case row of None \<Rightarrow> fail_io ErrNotBootstrapped
      | Some c \<Rightarrow> return_io (cr_version c)) w1 = (Inr v, w')"
    using assms unfolding GetTopologyVersion_def bind_io_Inr by blast
  have "db_config (w_db w1) = row"
    using p by (auto simp: pool_stmt_def run_stmt_def select_config_def Let_def split: if_splits)
  then show ?thesis using k by (cases row) auto
qed

lemma ListShards_reads: "ListShards S w = (Inr rows, w') \<Longrightarrow> rows = sort_key sh_id (db_shards (w_db w'))"
  by (auto simp: ListShards_def pool_stmt_def run_stmt_def select_by_id_def Let_def split: if_splits)

text \<open>The three reads of a snapshot.\<close>

lemma buildTopology_steps:
  assumes "buildTopology gs s = (Inr topo, s')"
  obtains v rv w1 rc w2 rows where "GetTopologyVersion (gs_store gs) (sv_world s) = (rv, w1)"
    and "case rv of Inl e \<Rightarrow> v = 0 | Inr x \<Rightarrow> v = x"
    and "GetConfig (gs_store gs) w1 = (rc, w2)" and "ListShards (gs_store gs) w2 = (Inr rows, sv_world s')"
    and "topo = \<lparr>tp_version = v, tp_config = map_option config_proto (case rc of Inl _ \<Rightarrow> None | Inr cfg \<Rightarrow> Some cfg),
      tp_shards = map (shardToProto (gs_uuid gs)) rows\<rparr>"
proof -
  let ?S = "gs_store gs"
  define finish where "finish v cfg = call (on_store (ListShards ?S)) (\<lambda>_. status Internal) (\<lambda>shards.
     reply \<lparr>tp_version = v, tp_config = map_option config_proto cfg, tp_shards = map (shardToProto (gs_uuid gs)) shards\<rparr>)" for v cfg
  obtain rv w1 where 1: "GetTopologyVersion ?S (sv_world s) = (rv, w1)" by fastforce
  obtain rc w2 where 2: "GetConfig ?S w1 = (rc, w2)" by fastforce
  define v where "v = (case rv of Inl e \<Rightarrow> 0 | Inr x \<Rightarrow> x)"
  define cfg where "cfg = (case rc of Inl _ \<Rightarrow> None | Inr cfg \<Rightarrow> Some cfg)"
  have "finish v cfg (s\<lparr>sv_world := w2\<rparr>) = (Inr topo, s')"
    using assms 1 2 unfolding buildTopology_def Let_def finish_def [symmetric]
    by (auto simp: call_def on_store_def status_def v_def cfg_def split: sum.splits if_splits)
  then obtain rows where "ListShards ?S w2 = (Inr rows, sv_world s')"
      "topo = \<lparr>tp_version = v, tp_config = map_option config_proto cfg, tp_shards = map (shardToProto (gs_uuid gs)) rows\<rparr>"
    unfolding finish_def by (auto simp: call_def on_store_def status_def reply_def split: prod.splits sum.splits)
  then show ?thesis using that [OF 1 _ 2, of v rows] by (auto simp: v_def cfg_def split: sum.splits)
qed

text \<open>A snapshot of a bootstrapped cluster reads its version before its shards.\<close>

lemma buildTopology_reads:
  assumes "rely (db_steps UNIV) (w_orc (sv_world s))" and "buildTopology gs s = (Inr topo, s')" and "0 < tp_version topo"
  obtains w1 c where "moves UNIV (sv_world s) w1" and "db_config (w_db w1) = Some c" and "cr_version c = tp_version topo"
    and "moves UNIV w1 (sv_world s')"
    and "tp_shards topo = map (shardToProto (gs_uuid gs)) (sort_key sh_id (db_shards (w_db (sv_world s'))))"
proof -
  let ?S = "gs_store gs"
  obtain v rv w1 rc w2 rows where b: "GetTopologyVersion ?S (sv_world s) = (rv, w1)" "case rv of Inl e \<Rightarrow> v = 0 | Inr x \<Rightarrow> v = x"
      "GetConfig ?S w1 = (rc, w2)" "ListShards ?S w2 = (Inr rows, sv_world s')" "tp_version topo = v"
      "tp_shards topo = map (shardToProto (gs_uuid gs)) rows"
    by (rule buildTopology_steps [OF assms(2)]) auto
  have m1: "moves UNIV (sv_world s) w1" using keepsD [OF keeps_GetTopologyVersion assms(1), of ?S] b(1) by simp
  then have r1: "rely (db_steps UNIV) (w_orc w1)" using assms(1) by (simp add: moves_def)
  have m2: "moves UNIV w1 w2" using keepsD [OF keeps_GetConfig r1, of ?S] b(3) by simp
  then have r2: "rely (db_steps UNIV) (w_orc w2)" using r1 by (simp add: moves_def)
  have m3: "moves UNIV w2 (sv_world s')" using keepsD [OF keeps_queries(1) r2, of ?S] b(4) by simp
  obtain c where "db_config (w_db w1) = Some c" "cr_version c = tp_version topo"
    using GetTopologyVersion_reads [of ?S "sv_world s" v w1] b(1,2,5) assms(3) by (cases rv) auto
  then show ?thesis using that m1 moves_trans [OF m2 m3] b(6) ListShards_reads [OF b(4)] by blast
qed

lemma snapshot_current:
  assumes "rely (db_steps UNIV) (w_orc (sv_world s))" and "db_constraints (w_db (sv_world s))"
    and "buildTopology gs s = (Inr topo, s')" and "0 < tp_version topo"
    and "db_steps UNIV (w_db (sv_world s')) d" and "db_config d = Some r" and "cr_version r = tp_version topo"
  shows "proto_view (tp_shards topo) = proto_view (map (shardToProto (gs_uuid gs)) (db_shards d))"
proof -
  obtain w1 c where w1: "moves UNIV (sv_world s) w1" "db_config (w_db w1) = Some c" "cr_version c = tp_version topo"
      "moves UNIV w1 (sv_world s')"
    and rows: "tp_shards topo = map (shardToProto (gs_uuid gs)) (sort_key sh_id (db_shards (w_db (sv_world s'))))"
    using buildTopology_reads [OF assms(1,3,4)] by metis
  let ?c1 = "cluster_of (w_db w1)" and ?c2 = "cluster_of (w_db (sv_world s'))" and ?c3 = "cluster_of d"
  have ok: "db_constraints (w_db w1)" using w1(1) assms(2) by (simp add: moves_def db_steps_def)
  then have s12: "csteps UNIV ?c1 ?c2" and ok2: "db_constraints (w_db (sv_world s'))"
    using w1(4) by (simp_all add: moves_def db_steps_def)
  then have s23: "csteps UNIV ?c2 ?c3" using assms(5) by (simp add: db_steps_def)
  obtain r2 where r2: "cl_config ?c2 = Some r2" "config_follows ?c1 c ?c2 r2"
    using csteps_config [OF s12, of c] w1(2) by auto
  obtain r3 where r3: "cl_config ?c3 = Some r3" "config_follows ?c2 r2 ?c3 r3"
    using csteps_config [OF s23 r2(1)] by blast
  have "cr_version r3 = cr_version r2" using r2(2) r3 assms(6,7) w1(3) by (simp add: config_follows_def)
  then have view: "cl_view ?c3 = cl_view ?c2" using r3(2) by (simp add: config_follows_def)
  show ?thesis
    unfolding rows proto_view_sorted [OF ok2] by (rule ext) (simp add: proto_view_cluster view)
qed

text \<open>
  C15: a snapshot is current as long as its version is. \<open>buildTopology\<close> reads the version, the
  configuration and the shards in separate statements; still, if the stored topology version at some
  later time is the one of the snapshot, then what a router reads of the snapshot's shards is what
  is stored at that time, whatever ran in between and whatever other sessions did.
\<close>

theorem topology_snapshot_current:
  assumes "rely (db_steps UNIV) (w_orc (sv_world s))" and "db_constraints (w_db (sv_world s))"
    and "buildTopology gs s = (Inr topo, s')" and "0 < tp_version topo"
    and "db_steps UNIV (w_db (sv_world s')) d" and "db_config d = Some r" and "cr_version r = tp_version topo"
  shows "proto_view (tp_shards topo) = proto_view (map (shardToProto (gs_uuid gs)) (db_shards d))"
  by (rule snapshot_current [OF assms])

theorem topology_snapshot_current_witness:
  "\<exists>topo s'. buildTopology demo_server (demo_srv demo_db) = (Inr topo, s') \<and> tp_version topo = 7 \<and>
     proto_view (tp_shards topo) = proto_view (map (shardToProto demo_uuid) (db_shards demo_db))"
proof -
  let ?b = "buildTopology demo_server (demo_srv demo_db)"
  have b: "is_ok (map_sum (\<lambda>_. ErrDB) (\<lambda>x. x) (fst ?b)) \<and> (case fst ?b of Inl _ \<Rightarrow> False | Inr t \<Rightarrow> tp_version t = 7)"
    by code_simp
  then obtain topo s' where t: "?b = (Inr topo, s')" "tp_version topo = 7" by (cases ?b; cases "fst ?b") auto
  have q: "rely (db_steps UNIV) (w_orc (sv_world (demo_srv demo_db)))" by (simp add: demo_srv_def quiet_rely)
  have db: "w_db (sv_world s') = demo_db"
  proof -
    have "w_db (sv_world (snd ?b)) = demo_db" by code_simp
    then show ?thesis using t by simp
  qed
  have "proto_view (tp_shards topo) = proto_view (map (shardToProto (gs_uuid demo_server)) (db_shards demo_db))"
    by (rule topology_snapshot_current [OF q _ t(1), of _ "the (db_config demo_db)"])
      (use t(2) db in \<open>simp_all add: demo_srv_def demo_db_constraints contract.G_refl\<close>, simp_all add: demo_db_def)
  then show ?thesis using t by (auto simp: demo_server_def)
qed

end
