(* ===== verification/Config.thy ===== *)
theory Config
  imports Store
begin

text \<open>
  \<^verbatim>\<open>internal/config/config.go\<close>: the settings of the server and of the agent, read from the environment, a
  function from names to values that is empty for unset names. \<open>time.ParseDuration\<close> of Go's standard
  library is modelled with its arithmetic: 64-bit integers for the digits before the point and
  64-bit floating point for those behind it.
\<close>

section \<open>Rounding to a 64-bit float\<close>

function bit_len :: "int \<Rightarrow> int" where
  "bit_len n = (if n \<le> 0 then 0 else 1 + bit_len (n div 2))"
  by pat_completeness auto
termination
  by (relation "measure nat") auto

declare bit_len.simps [simp del]

text \<open>
  \<open>round53 n d\<close> is the float next to the positive number \<open>n / d\<close>, ties to even, as \<open>(m, e)\<close> for \<open>m * 2 ^ e\<close>:
  the exponent is chosen so that the quotient has 53 or 54 bits.
\<close>

definition half_even :: "int \<Rightarrow> int \<Rightarrow> int" where
  "half_even n d = (let q = n div d; r = n mod d in
     if 2 * r < d \<or> 2 * r = d \<and> even q then q else q + 1)"

definition scaled :: "int \<Rightarrow> int \<Rightarrow> int \<Rightarrow> int \<times> int" where
  "scaled n d e = (if 0 \<le> e then (n, d * 2 ^ nat e) else (n * 2 ^ nat (- e), d))"

definition round53 :: "int \<Rightarrow> int \<Rightarrow> int \<times> int" where
  "round53 n d =
    (let e0 = bit_len n - bit_len d - 53; (n0, d0) = scaled n d e0;
         e = (if n0 div d0 < 2 ^ 53 then e0 else e0 + 1); (n1, d1) = scaled n d e in
     (half_even n1 d1, e))"

text \<open>\<open>uint64(float64(f) * (float64(unit) / scale))\<close>; the units and scales are exact floats.\<close>

definition frac_ns :: "int \<Rightarrow> int \<Rightarrow> int \<Rightarrow> int" where
  "frac_ns f unit scale =
    (let (mf, ef) = round53 f 1; (mq, eq) = round53 unit scale; e = ef + eq;
         (m, e') = (case scaled (mf * mq) 1 (- e) of (n, d) \<Rightarrow> round53 n d) in
     if 0 \<le> e' then m * 2 ^ nat e' else m div 2 ^ nat (- e'))"

section \<open>Durations\<close>

text \<open>\<open>leadingInt\<close>: the digits at the front, none on overflow.\<close>

fun leadingInt :: "int \<Rightarrow> string \<Rightarrow> (int \<times> string) option" where
  "leadingInt x [] = Some (x, [])"
| "leadingInt x (c # s) =
    (if \<not> is_digit c then Some (x, c # s)
     else if 2 ^ 63 div 10 < x then None
     else let x' = x * 10 + (char_code c - 48) in if 2 ^ 63 < x' then None else leadingInt x' s)"

text \<open>\<open>leadingFraction\<close>: further digits are skipped once the value would overflow.\<close>

fun leadingFraction :: "int \<Rightarrow> int \<Rightarrow> bool \<Rightarrow> string \<Rightarrow> int \<times> int \<times> string" where
  "leadingFraction x scale over [] = (x, scale, [])"
| "leadingFraction x scale over (c # s) =
    (if \<not> is_digit c then (x, scale, c # s)
     else if over then leadingFraction x scale over s
     else if (2 ^ 63 - 1) div 10 < x then leadingFraction x scale True s
     else let y = x * 10 + (char_code c - 48) in
       if 2 ^ 63 < y then leadingFraction x scale True s else leadingFraction y (scale * 10) False s)"

definition unit_char :: "char \<Rightarrow> bool" where
  "unit_char c \<longleftrightarrow> \<not> (c = CHR ''.'' \<or> is_digit c)"

definition unitMap :: "string \<Rightarrow> int option" where
  "unitMap u =
    (if u = ''ns'' then Some 1
     else if u = ''us'' \<or> u = [CHR 0xC2, CHR 0xB5, CHR ''s''] \<or> u = [CHR 0xCE, CHR 0xBC, CHR ''s''] then Some 1000
     else if u = ''ms'' then Some 1000000 else if u = ''s'' then Some second_ns
     else if u = ''m'' then Some (60 * second_ns) else if u = ''h'' then Some (3600 * second_ns) else None)"

text \<open>The digits behind a point, if there is one.\<close>

definition fraction_part :: "string \<Rightarrow> int \<times> int \<times> string \<times> bool" where
  "fraction_part s = (case s of [] \<Rightarrow> (0, 1, s, False)
     | c # r \<Rightarrow> if c = CHR ''.'' then (case leadingFraction 0 1 False r of (f, scale, r') \<Rightarrow> (f, scale, r', length r \<noteq> length r'))
                else (0, 1, s, False))"

text \<open>One number with its unit: the value in nanoseconds and what is left.\<close>

definition duration_part :: "string \<Rightarrow> (int \<times> string) option" where
  "duration_part s =
    (if s = [] \<or> \<not> (hd s = CHR ''.'' \<or> is_digit (hd s)) then None
     else case leadingInt 0 s of None \<Rightarrow> None
     | Some (v, s1) \<Rightarrow>
        (let pre = length s \<noteq> length s1;
             (f, scale, s2, post) = fraction_part s1 in
         if \<not> pre \<and> \<not> post then None
         else let u = takeWhile unit_char s2; s3 = dropWhile unit_char s2 in
           if u = [] then None
           else case unitMap u of None \<Rightarrow> None
           | Some unit \<Rightarrow>
               if 2 ^ 63 div unit < v then None
               else let v' = v * unit in
                 if 0 < f then (let v'' = v' + frac_ns f unit scale in if 2 ^ 63 < v'' then None else Some (v'', s3))
                 else Some (v', s3)))"

text \<open>The loop; every part consumes at least its unit, so the length of the input is enough fuel.\<close>

fun duration_loop :: "nat \<Rightarrow> int \<Rightarrow> string \<Rightarrow> int option" where
  "duration_loop n d [] = Some d"
| "duration_loop 0 d (c # s) = None"
| "duration_loop (Suc n) d (c # s) =
    (case duration_part (c # s) of None \<Rightarrow> None
     | Some (v, s') \<Rightarrow> if 2 ^ 63 < d + v then None else duration_loop n (d + v) s')"

definition ParseDuration :: "string \<Rightarrow> int option" where
  "ParseDuration s =
    (let (neg, r) = (case s of [] \<Rightarrow> (False, s)
       | c # cs \<Rightarrow> if c = CHR ''-'' \<or> c = CHR ''+'' then (c = CHR ''-'', cs) else (False, s)) in
     if r = ''0'' then Some 0
     else if r = [] then None
     else case duration_loop (length r) 0 r of None \<Rightarrow> None
     | Some d \<Rightarrow> if neg then Some (- d) else if 2 ^ 63 - 1 < d then None else Some d)"

section \<open>Settings\<close>

type_synonym environ = "string \<Rightarrow> string"

definition getenv :: "environ \<Rightarrow> string \<Rightarrow> string \<Rightarrow> string" where
  "getenv env k def = (if env k \<noteq> [] then env k else def)"

definition durationEnv :: "environ \<Rightarrow> string \<Rightarrow> int \<Rightarrow> int" where
  "durationEnv env k def = (if env k = [] then def
     else case ParseDuration (env k) of None \<Rightarrow> def | Some d \<Rightarrow> d)"

definition intEnv :: "environ \<Rightarrow> string \<Rightarrow> int \<Rightarrow> int" where
  "intEnv env k def = (if env k = [] then def
     else case ParseInt (env k) of (n, ok) \<Rightarrow> if ok then n else def)"

record Config =
  cf_grpc :: string
  cf_http :: string
  cf_dsn :: string
  cf_key :: string
  cf_seal :: int
  cf_drain :: int
  cf_heartbeat :: int
  cf_health :: int
  cf_conns :: int

definition LoadServer :: "environ \<Rightarrow> Config res" where
  "LoadServer env =
    (let c = \<lparr>cf_grpc = getenv env ''GRPC_ADDR'' '':9090'', cf_http = getenv env ''HTTP_ADDR'' '':8080'',
        cf_dsn = env ''METADATA_PG_DSN'', cf_key = env ''CLUSTER_KEY'',
        cf_seal = durationEnv env ''SEAL_CHECK_INTERVAL'' (30 * second_ns),
        cf_drain = durationEnv env ''DRAIN_TIMEOUT'' (30 * second_ns),
        cf_heartbeat = durationEnv env ''HEARTBEAT_TIMEOUT'' (60 * second_ns),
        cf_health = durationEnv env ''HEALTH_CHECK_INTERVAL'' (15 * second_ns),
        cf_conns = wrap32 (intEnv env ''METADATA_PG_MAX_CONNS'' 20)\<rparr> in
     if cf_dsn c = [] then Inl (ErrMsg ''METADATA_PG_DSN required'') else Inr c)"

record AgentConfig =
  ac_dsn :: string
  ac_uuid :: string
  ac_addr :: string
  ac_key :: string
  ac_interval :: int
  ac_size :: string
  ac_role :: string
  ac_drain :: string

definition LoadAgent :: "environ \<Rightarrow> AgentConfig res" where
  "LoadAgent env =
    (let c = \<lparr>ac_dsn = env ''PG_DSN'', ac_uuid = env ''SHARD_UUID'',
        ac_addr = getenv env ''COORDINATOR_ADDR'' (env ''COORDINATOR_URL''), ac_key = env ''CLUSTER_KEY'',
        ac_interval = durationEnv env ''STATS_INTERVAL'' (15 * second_ns),
        ac_size = getenv env ''SIZE_SOURCE'' ''database'', ac_role = env ''APP_DB_ROLE'',
        ac_drain = getenv env ''DRAIN_MODE'' ''revoke''\<rparr> in
     if ac_dsn c = [] \<or> ac_uuid c = [] \<or> ac_addr c = [] then Inl (ErrMsg ''PG_DSN, SHARD_UUID, COORDINATOR_ADDR required'')
     else if ac_size c \<noteq> ''database'' \<and> ac_size c \<noteq> ''relations'' then Inl (ErrMsg ''SIZE_SOURCE must be database or relations'')
     else Inr c)"

text \<open>\<open>time.NewTicker\<close> panics unless the interval is positive.\<close>

definition NewTicker :: "int \<Rightarrow> int res" where
  "NewTicker d = (if d \<le> 0 then Inl ErrPanic else Inr d)"

section \<open>Reading a duration ends and stays in range\<close>

text \<open>Every parser takes characters from the front; a part with its unit takes at least one.\<close>

lemma leadingInt_consumes:
  "leadingInt x s = Some (v, s') \<Longrightarrow> 0 \<le> x \<Longrightarrow> length s' \<le> length s \<and> 0 \<le> v"
proof (induction x s rule: leadingInt.induct)
  case (2 x c s)
  have "0 \<le> char_code c - 48" if "is_digit c" using that digit_val_bounds [of c] by (simp add: digit_val_def)
  with 2 show ?case by (auto simp: Let_def split: if_splits dest: le_SucI)
qed simp

lemma leadingFraction_consumes:
  "leadingFraction x scale over s = (f, scale', s') \<Longrightarrow> 0 \<le> x \<Longrightarrow> 0 < scale \<Longrightarrow> length s' \<le> length s \<and> 0 \<le> f \<and> 0 < scale'"
proof (induction x scale over s rule: leadingFraction.induct)
  case (2 x scale over c s)
  have "0 \<le> char_code c - 48" if "is_digit c" using that digit_val_bounds [of c] by (simp add: digit_val_def)
  with 2 show ?case by (auto simp: Let_def split: if_splits dest: le_SucI)
qed simp

lemma half_even_nonneg: "0 \<le> n \<Longrightarrow> 0 < d \<Longrightarrow> 0 \<le> half_even n d"
  using pos_imp_zdiv_nonneg_iff [of d n] by (auto simp: half_even_def Let_def)

lemma scaled_pos: "0 \<le> n \<Longrightarrow> 0 < d \<Longrightarrow> scaled n d e = (a, b) \<Longrightarrow> 0 \<le> a \<and> 0 < b"
  by (auto simp: scaled_def split: if_splits)

lemma round53_nonneg:
  assumes "0 \<le> n" and "0 < d"
  shows "0 \<le> fst (round53 n d)"
proof -
  have "0 \<le> half_even a b" if "scaled n d e = (a, b)" for e a b
    using scaled_pos [OF assms that] by (simp add: half_even_nonneg)
  then show ?thesis by (auto simp: round53_def Let_def split: prod.split)
qed

lemma frac_ns_nonneg:
  assumes "0 \<le> f" and "0 < unit" and "0 < scale"
  shows "0 \<le> frac_ns f unit scale"
proof -
  have 1: "0 \<le> fst (round53 f 1) * fst (round53 unit scale)"
    using round53_nonneg [of f 1] round53_nonneg [of unit scale] assms by simp
  have "0 \<le> m" if "scaled (fst (round53 f 1) * fst (round53 unit scale)) 1 e = (a, b)" "round53 a b = (m, e')" for e a b m e'
    using scaled_pos [OF 1 _ that(1)] round53_nonneg [of a b] that(2) by simp
  then have "0 \<le> m" if "round53 f 1 = (mf, ef)" "round53 unit scale = (mq, eq)" "scaled (mf * mq) 1 e = (a, b)"
      "round53 a b = (m, e')" for mf ef mq eq e a b m e'
    using that by simp
  then show ?thesis
    by (auto simp: frac_ns_def Let_def pos_imp_zdiv_nonneg_iff split: prod.splits)
qed

lemma unitMap_pos: "unitMap u = Some unit \<Longrightarrow> 0 < unit"
  by (auto simp: unitMap_def second_ns_def split: if_splits)

lemma fraction_part_consumes:
  assumes "fraction_part s = (f, scale, s', post)"
  shows "length s' \<le> length s \<and> 0 \<le> f \<and> 0 < scale"
proof (cases s)
  case (Cons c r)
  obtain f' scale' r' where l: "leadingFraction 0 1 False r = (f', scale', r')" by (metis prod_cases3)
  show ?thesis
    using assms leadingFraction_consumes [OF l] Cons l by (auto simp: fraction_part_def split: if_splits)
qed (use assms in \<open>simp add: fraction_part_def\<close>)

lemma dropWhile_shorter: "takeWhile P s \<noteq> [] \<Longrightarrow> length (dropWhile P s) < length s"
  by (cases s) (auto simp: less_Suc_eq_le length_dropWhile_le split: if_splits)

lemma duration_part_consumes:
  assumes "duration_part s = Some (v, s')"
  shows "length s' < length s \<and> 0 \<le> v"
proof -
  obtain n s1 where 1: "leadingInt 0 s = Some (n, s1)"
    using assms by (cases "leadingInt 0 s") (auto simp: duration_part_def split: if_splits)
  obtain f scale s2 post where 2: "fraction_part s1 = (f, scale, s2, post)" by (metis prod_cases4)
  obtain unit where 4: "unitMap (takeWhile unit_char s2) = Some unit" "takeWhile unit_char s2 \<noteq> []"
      "s' = dropWhile unit_char s2" "v = n * unit + frac_ns f unit scale \<or> v = n * unit"
    using assms unfolding duration_part_def Let_def 1 option.case prod.case 2
    by (simp split: if_splits option.splits)
  show ?thesis
    using dropWhile_shorter [OF 4(2)] 4 leadingInt_consumes [OF 1] fraction_part_consumes [OF 2] unitMap_pos [OF 4(1)]
      frac_ns_nonneg [of f unit scale] by auto
qed

lemma duration_loop_fuel: "length s \<le> n \<Longrightarrow> duration_loop n d s = duration_loop (length s) d s"
proof (induction s arbitrary: n d rule: length_induct)
  case (1 s)
  show ?case
  proof (cases s)
    case (Cons c r)
    then obtain m where n: "n = Suc m" "length r \<le> m" using 1(2) by (cases n) auto
    have "duration_loop m d' s' = duration_loop (length r) d' s'" if "duration_part s = Some (v, s')" for v s' d'
      using 1(1) duration_part_consumes [OF that] n Cons
      by (metis (no_types, lifting) length_Cons less_Suc_eq_le order_trans)
    then show ?thesis using n Cons by (auto split: option.split prod.split)
  qed simp
qed

lemma duration_loop_range: "duration_loop n d s = Some d' \<Longrightarrow> 0 \<le> d \<Longrightarrow> d \<le> 2 ^ 63 \<Longrightarrow> 0 \<le> d' \<and> d' \<le> 2 ^ 63"
proof (induction n d s rule: duration_loop.induct)
  case (3 n d c s)
  then obtain v s' where v: "duration_part (c # s) = Some (v, s')" "\<not> 2 ^ 63 < d + v" "duration_loop n (d + v) s' = Some d'"
    by (auto split: option.splits if_splits)
  then show ?case using 3 duration_part_consumes [OF v(1)] by auto
qed simp_all

lemma ParseDuration_range:
  assumes "ParseDuration s = Some d"
  shows "int64_ok d"
proof -
  have "d = 0 \<or> (\<exists>n r e. duration_loop n 0 r = Some e \<and> (d = - e \<or> d = e \<and> \<not> 2 ^ 63 - 1 < e))"
    using assms unfolding ParseDuration_def Let_def by (simp split: prod.splits if_splits option.splits) blast+
  then show ?thesis using duration_loop_range [of _ 0] by (fastforce simp: int64_ok_def)
qed

text \<open>A whole number of seconds.\<close>

lemma leadingInt_digits: "0 \<le> n \<Longrightarrow> n \<le> 2 ^ 63 \<Longrightarrow> leadingInt 0 (int_digits n @ t) = leadingInt n t"
proof (induction n arbitrary: t rule: int_digits.induct)
  case (1 n)
  show ?case
  proof (cases "n < 10")
    case True
    then show ?thesis using 1(2) by (simp add: int_digits_small char_code_digit_char)
  next
    case False
    have "n div 10 * 10 + n mod 10 = n" "n div 10 \<le> 922337203685477580" "n div 10 \<le> 2 ^ 63" using 1(2,3) False by simp_all
    then show ?thesis using 1 False by (simp add: int_digits_large char_code_digit_char)
  qed
qed

lemma ParseDuration_seconds:
  assumes "0 \<le> n" and "n \<le> 9223372036"
  shows "ParseDuration (FormatInt n @ ''s'') = Some (n * second_ns)"
proof -
  let ?s = "int_digits n @ ''s''"
  obtain c cs where c: "int_digits n = c # cs" "is_digit c"
    using int_digits_ne [of n] int_digits_all_digits [OF assms(1)] by (metis list.exhaust list.set_intros(1))
  have u: "unit_char CHR ''s''" "\<not> is_digit CHR ''s''" by code_simp+
  have l: "leadingInt 0 ?s = Some (n, ''s'')" using assms u by (subst leadingInt_digits) simp_all
  have "duration_part ?s = Some (n * second_ns, [])"
    using l c u assms by (simp add: duration_part_def fraction_part_def Let_def unitMap_def second_ns_def)
  then have "duration_loop (length ?s) 0 ?s = Some (n * second_ns)"
    using c(1) assms by (simp add: second_ns_def)
  moreover have "c \<noteq> CHR ''-'' \<and> c \<noteq> CHR ''+''" using c(2) not_digit_minus by auto
  ultimately show ?thesis
    using c(1) assms by (simp add: ParseDuration_def FormatInt_def second_ns_def)
qed



end
