(* ===== verification/Tracing.thy ===== *)
theory Tracing
  imports GrpcApi Config
begin

text \<open>
  \<^verbatim>\<open>internal/oteltrace\<close>: the set-up of tracing, the interceptor around every unary call and the
  attributes of a resolution. A span is a state \<open>'c\<close> of the tracing library, the record \<open>tracer\<close> the
  calls of that library; the text of a span's status is left out. The state of an instrumented
  handler is the server's state, the metrics and the span of the call.
\<close>

section \<open>Spans\<close>

record 'c tracer =
  tr_recording :: "'c \<Rightarrow> bool"
  tr_attr :: "string \<Rightarrow> string \<Rightarrow> 'c \<Rightarrow> 'c"
  tr_error :: "'c \<Rightarrow> 'c"
  tr_code :: "code option \<Rightarrow> string"

definition SetAttributes :: "'c tracer \<Rightarrow> (string \<times> string) list \<Rightarrow> 'c \<Rightarrow> 'c" where
  "SetAttributes T attrs = fold (\<lambda>(k, v). tr_attr T k v) attrs"

text \<open>The name of a code is the gRPC library's; a call without error has the code \<open>OK\<close>, here \<open>None\<close>.\<close>

definition UnaryServerInterceptor :: "'c tracer \<Rightarrow> string \<Rightarrow> ('s \<times> 'm \<times> 'c, 'a) shandler \<Rightarrow> ('s \<times> 'm \<times> 'c, 'a) shandler" where
  "UnaryServerInterceptor T fullMethod handler s = (case handler s of (r, s', m, span) \<Rightarrow>
     (r, s', m,
      if tr_recording T span then
        (let span = SetAttributes T [(''rpc.method'', fullMethod)] span in
         case r of Inl c \<Rightarrow> tr_error T (SetAttributes T [(''grpc.status_code'', tr_code T (Some c))] span)
         | Inr _ \<Rightarrow> SetAttributes T [(''grpc.status_code'', tr_code T None)] span)
      else span))"

definition SetResolveAttrs :: "'c tracer \<Rightarrow> string \<Rightarrow> string \<Rightarrow> string \<Rightarrow> 'c \<Rightarrow> 'c" where
  "SetResolveAttrs T bucketID shardUUID routing span =
    (if \<not> tr_recording T span then span
     else SetAttributes T ([(''shardman.routing'', routing)] @
       (if bucketID \<noteq> [] then [(''bucket_id'', bucketID)] else []) @
       (if shardUUID \<noteq> [] then [(''shard_uuid'', shardUUID)] else [])) span)"

section \<open>Set-up\<close>

datatype trace_option = StatsHandler | ChainUnaryInterceptor

record tracing =
  tc_provider :: "string option"
  tc_server :: "trace_option list"
  tc_dial :: "trace_option list"

text \<open>
  The exporter of an endpoint is the library's. Without an endpoint there is no provider, nothing
  to shut down and no statistics handler, so no call has a recording span.
\<close>

definition Setup :: "(string \<Rightarrow> unit res) \<Rightarrow> environ \<Rightarrow> tracing res" where
  "Setup exporter env =
    (let endpoint = env ''OTEL_EXPORTER_OTLP_ENDPOINT'' in
     if endpoint = [] then Inr \<lparr>tc_provider = None, tc_server = [ChainUnaryInterceptor], tc_dial = []\<rparr>
     else case exporter endpoint of Inl e \<Rightarrow> Inl e
     | Inr _ \<Rightarrow> Inr \<lparr>tc_provider = Some endpoint, tc_server = [StatsHandler, ChainUnaryInterceptor], tc_dial = [StatsHandler]\<rparr>)"

lemma Setup_cases:
  assumes "Setup exporter env = Inr tc"
  shows "ChainUnaryInterceptor \<in> set (tc_server tc)"
    and "StatsHandler \<in> set (tc_server tc) \<longleftrightarrow> env ''OTEL_EXPORTER_OTLP_ENDPOINT'' \<noteq> []"
  using assms by (auto simp: Setup_def Let_def split: if_splits sum.splits)

end
