(* ===== verification/Metrics.thy ===== *)
theory Metrics
  imports GrpcApi
begin

text \<open>
  \<^verbatim>\<open>internal/metrics/metrics.go\<close> and the periodic refresh of the gauges in \<open>RefreshMetrics\<close> of
  \<^verbatim>\<open>internal/grpcapi/server.go\<close>. The metric vectors are a third-party package, the record \<open>registry\<close> over
  a state \<open>'m\<close>; its documented behaviour is the predicate \<open>registry_ok\<close>. A value is the integer that
  the 64-bit float holds, or the seconds of a duration given in nanoseconds.
\<close>

section \<open>The metrics\<close>

datatype metric =
    HttpRequests | HttpDuration | ResolveDuration | ActiveShardsGauge | ShardsGauge | ReportedBytes | SealTotal
  | PromoteTotal | StandbyPool | StandbyExhausted | RetentionClean | ErrorRoute | ErrorShardBytes | AgentLastSeen
  | AgentStatsErrors | TopologyVersionGauge | ResolveConfigCacheHits | ResolveConfigCacheMisses | SealDuration
  | HeartbeatFailoverTotal | StaleActiveShards

datatype sample = Whole int | Seconds int

record 'm registry =
  rg_inc :: "metric \<Rightarrow> string list \<Rightarrow> 'm \<Rightarrow> 'm"
  rg_set :: "metric \<Rightarrow> string list \<Rightarrow> sample \<Rightarrow> 'm \<Rightarrow> 'm"
  rg_observe :: "metric \<Rightarrow> string list \<Rightarrow> int \<Rightarrow> 'm \<Rightarrow> 'm"
  rg_reset :: "metric \<Rightarrow> 'm \<Rightarrow> 'm"
  rg_value :: "metric \<Rightarrow> string list \<Rightarrow> 'm \<Rightarrow> sample option"

definition float64_sample :: "int \<Rightarrow> sample" where
  "float64_sample n = Whole (float_of_int n)"

definition inc_sample :: "sample option \<Rightarrow> sample" where
  "inc_sample v = (case v of Some (Whole n) \<Rightarrow> float64_sample (n + 1) | _ \<Rightarrow> float64_sample 1)"

text \<open>A metric with given label values appears when it is first used and is gone after a reset.\<close>

definition registry_ok :: "'m registry \<Rightarrow> bool" where
  "registry_ok R \<longleftrightarrow>
    (\<forall>m ls x m' ls'. rg_value R m' ls' (rg_inc R m ls x) =
       (if m' = m \<and> ls' = ls then Some (inc_sample (rg_value R m ls x)) else rg_value R m' ls' x)) \<and>
    (\<forall>m ls v x m' ls'. rg_value R m' ls' (rg_set R m ls v x) = (if m' = m \<and> ls' = ls then Some v else rg_value R m' ls' x)) \<and>
    (\<forall>m x m' ls'. rg_value R m' ls' (rg_reset R m x) = (if m' = m then None else rg_value R m' ls' x)) \<and>
    (\<forall>m ls d x m' ls'. m' \<noteq> m \<longrightarrow> rg_value R m' ls' (rg_observe R m ls d x) = rg_value R m' ls' x)"

definition ObserveResolve :: "'m registry \<Rightarrow> string \<Rightarrow> int \<Rightarrow> 'm \<Rightarrow> 'm" where
  "ObserveResolve R op d = rg_observe R ResolveDuration [op] d"

definition IncSeal :: "'m registry \<Rightarrow> string \<Rightarrow> 'm \<Rightarrow> 'm" where
  "IncSeal R b = rg_inc R SealTotal [b]"

definition IncPromote :: "'m registry \<Rightarrow> string \<Rightarrow> 'm \<Rightarrow> 'm" where
  "IncPromote R b = rg_inc R PromoteTotal [b]"

definition IncStandbyExhausted :: "'m registry \<Rightarrow> string \<Rightarrow> 'm \<Rightarrow> 'm" where
  "IncStandbyExhausted R b = rg_inc R StandbyExhausted [b]"

definition IncRetentionClean :: "'m registry \<Rightarrow> string \<Rightarrow> 'm \<Rightarrow> 'm" where
  "IncRetentionClean R b = rg_inc R RetentionClean [b]"

definition IncErrorRoute :: "'m registry \<Rightarrow> string \<Rightarrow> 'm \<Rightarrow> 'm" where
  "IncErrorRoute R reason = rg_inc R ErrorRoute [reason]"

definition IncAgentStatsError :: "'m registry \<Rightarrow> 'm \<Rightarrow> 'm" where
  "IncAgentStatsError R = rg_inc R AgentStatsErrors []"

definition SetStandbyPool :: "'m registry \<Rightarrow> int \<Rightarrow> 'm \<Rightarrow> 'm" where
  "SetStandbyPool R n = rg_set R StandbyPool [] (float64_sample n)"

definition SetActiveShards :: "'m registry \<Rightarrow> int \<Rightarrow> 'm \<Rightarrow> 'm" where
  "SetActiveShards R n = rg_set R ActiveShardsGauge [] (float64_sample n)"

definition SetErrorShardBytes :: "'m registry \<Rightarrow> int \<Rightarrow> 'm \<Rightarrow> 'm" where
  "SetErrorShardBytes R n = rg_set R ErrorShardBytes [] (float64_sample n)"

definition SetTopologyVersion :: "'m registry \<Rightarrow> int \<Rightarrow> 'm \<Rightarrow> 'm" where
  "SetTopologyVersion R v = rg_set R TopologyVersionGauge [] (float64_sample v)"

definition IncResolveConfigCacheHit :: "'m registry \<Rightarrow> 'm \<Rightarrow> 'm" where
  "IncResolveConfigCacheHit R = rg_inc R ResolveConfigCacheHits []"

definition IncResolveConfigCacheMiss :: "'m registry \<Rightarrow> 'm \<Rightarrow> 'm" where
  "IncResolveConfigCacheMiss R = rg_inc R ResolveConfigCacheMisses []"

definition ObserveSealDuration :: "'m registry \<Rightarrow> int \<Rightarrow> 'm \<Rightarrow> 'm" where
  "ObserveSealDuration R d = rg_observe R SealDuration [] d"

definition IncHeartbeatFailover :: "'m registry \<Rightarrow> string \<Rightarrow> 'm \<Rightarrow> 'm" where
  "IncHeartbeatFailover R b = rg_inc R HeartbeatFailoverTotal [b]"

definition SetStaleActiveShards :: "'m registry \<Rightarrow> int \<Rightarrow> 'm \<Rightarrow> 'm" where
  "SetStaleActiveShards R n = rg_set R StaleActiveShards [] (float64_sample n)"

definition SetAgentLastSeen :: "'m registry \<Rightarrow> string \<Rightarrow> sample \<Rightarrow> 'm \<Rightarrow> 'm" where
  "SetAgentLastSeen R u secs = rg_set R AgentLastSeen [u] secs"

definition UpdateShardGauges :: "'m registry \<Rightarrow> string \<Rightarrow> string \<Rightarrow> string \<Rightarrow> int \<Rightarrow> 'm \<Rightarrow> 'm" where
  "UpdateShardGauges R b st u bytes m = rg_set R ReportedBytes [u, b, st] (float64_sample bytes) (rg_inc R ShardsGauge [b, st] m)"

definition ResetShardGauges :: "'m registry \<Rightarrow> 'm \<Rightarrow> 'm" where
  "ResetShardGauges R m = rg_reset R ReportedBytes (rg_reset R ShardsGauge m)"

section \<open>HTTP requests\<close>

text \<open>What a handler does with the response; the status recorded is the last one it writes, 200 without any.\<close>

datatype response_action = SetHeader string string | WriteHeader int | WriteBody string

definition statusWriter :: "response_action list \<Rightarrow> int" where
  "statusWriter acts = fold (\<lambda>a st. case a of WriteHeader code \<Rightarrow> code | _ \<Rightarrow> st) acts 200"

definition Middleware :: "'m registry \<Rightarrow> (string \<Rightarrow> string \<Rightarrow> 'm \<Rightarrow> response_action list \<times> 'm) \<Rightarrow> int \<Rightarrow> string \<Rightarrow> string \<Rightarrow> 'm \<Rightarrow>
    response_action list \<times> 'm" where
  "Middleware R next duration httpMethod path m = (case next httpMethod path m of (acts, m') \<Rightarrow>
     (acts, rg_observe R HttpDuration [httpMethod, path] duration
       (rg_inc R HttpRequests [httpMethod, path, FormatInt (statusWriter acts)] m')))"

section \<open>The periodic refresh\<close>

definition refresh_shard :: "uuidlib \<Rightarrow> 'm registry \<Rightarrow> gtime \<Rightarrow> Shard \<Rightarrow> 'm \<Rightarrow> 'm" where
  "refresh_shard U R now sh m =
    (let m1 = UpdateShardGauges R (opt_str (sh_bucket sh)) (state_string (sh_state sh)) (uuid_String U (sh_uuid sh)) (sh_reported sh) m in
     case sh_last_seen sh of None \<Rightarrow> m1
     | Some t \<Rightarrow> SetAgentLastSeen R (uuid_String U (sh_uuid sh)) (Seconds (time_Sub now t)) m1)"

definition refresh_shards :: "uuidlib \<Rightarrow> 'm registry \<Rightarrow> gtime \<Rightarrow> Shard list \<Rightarrow> 'm \<Rightarrow> 'm" where
  "refresh_shards U R now shards m =
    SetActiveShards R (int (length (filter (\<lambda>sh. sh_state sh = StateActive) shards)))
      (fold (refresh_shard U R now) shards (ResetShardGauges R m))"

definition value_or :: "'a \<Rightarrow> 'a res \<Rightarrow> 'a" where
  "value_or d r = (case r of Inl _ \<Rightarrow> d | Inr x \<Rightarrow> x)"

definition refresh_version :: "Server \<Rightarrow> 'm registry \<Rightarrow> srv \<times> 'm \<Rightarrow> srv \<times> 'm" where
  "refresh_version gs R = (\<lambda>(s, m). case on_store (GetTopologyVersion (gs_store gs)) s of
     (Inl e, s') \<Rightarrow> (s', m) | (Inr v, s') \<Rightarrow> (snd (broadcast_io v s'), SetTopologyVersion R v m))"

definition RefreshGauges :: "Server \<Rightarrow> 'm registry \<Rightarrow> gtime \<Rightarrow> srv \<times> 'm \<Rightarrow> srv \<times> 'm" where
  "RefreshGauges gs R now = (\<lambda>(s, m). case on_store (ListShards (gs_store gs)) s of
     (Inl e, s1) \<Rightarrow> (s1, m)
   | (Inr shards, s1) \<Rightarrow>
       (case on_store (CountStandbyPool (gs_store gs)) s1 of (n, s2) \<Rightarrow>
        (case on_store (ListStaleActives (gs_store gs)) s2 of (stale, s3) \<Rightarrow>
          refresh_version gs R (s3, SetStaleActiveShards R (int (length (value_or [] stale)))
            (SetStandbyPool R (value_or 0 n) (refresh_shards (gs_uuid gs) R now shards m))))))"

section \<open>What the gauges show\<close>

lemma float_of_small: "\<bar>n\<bar> < 2 ^ 53 \<Longrightarrow> float_of_int n = n"
  by (simp add: float_of_int_def excess_bits.simps [of "\<bar>n\<bar>"] Let_def sgn_mult_abs)

lemma registryD:
  assumes "registry_ok R"
  shows "rg_value R m' ls' (rg_inc R m ls x) =
      (if m' = m \<and> ls' = ls then Some (inc_sample (rg_value R m ls x)) else rg_value R m' ls' x)"
    and "rg_value R m' ls' (rg_set R m ls v x) = (if m' = m \<and> ls' = ls then Some v else rg_value R m' ls' x)"
    and "rg_value R m' ls' (rg_reset R m x) = (if m' = m then None else rg_value R m' ls' x)"
    and "m' \<noteq> m \<Longrightarrow> rg_value R m' ls' (rg_observe R m ls d x) = rg_value R m' ls' x"
  using assms unfolding registry_ok_def by simp_all

lemmas metric_defs = UpdateShardGauges_def ResetShardGauges_def SetAgentLastSeen_def SetActiveShards_def SetStandbyPool_def
  SetStaleActiveShards_def SetTopologyVersion_def

definition in_gauge :: "string \<Rightarrow> string \<Rightarrow> Shard \<Rightarrow> bool" where
  "in_gauge b st sh \<longleftrightarrow> opt_str (sh_bucket sh) = b \<and> state_string (sh_state sh) = st"

definition count_sample :: "nat \<Rightarrow> sample option" where
  "count_sample n = (if n = 0 then None else Some (Whole (int n)))"

lemma inc_count: "int n < 2 ^ 53 - 1 \<Longrightarrow> Some (inc_sample (count_sample n)) = count_sample (Suc n)"
  by (simp add: inc_sample_def count_sample_def float64_sample_def float_of_small)

lemma refresh_shard_gauge:
  assumes "registry_ok R"
  shows "rg_value R ShardsGauge [b, st] (refresh_shard U R now sh m) =
    (if in_gauge b st sh then Some (inc_sample (rg_value R ShardsGauge [b, st] m)) else rg_value R ShardsGauge [b, st] m)"
  by (auto simp: refresh_shard_def in_gauge_def metric_defs registryD [OF assms] Let_def split: option.split)

lemma refresh_fold_gauge:
  assumes "registry_ok R" and "int (n + length rows) < 2 ^ 53" and "rg_value R ShardsGauge [b, st] m = count_sample n"
  shows "rg_value R ShardsGauge [b, st] (fold (refresh_shard U R now) rows m) = count_sample (n + length (filter (in_gauge b st) rows))"
  using assms(2,3)
proof (induction rows arbitrary: m n)
  case (Cons sh rows)
  show ?case
  proof (cases "in_gauge b st sh")
    case True
    then show ?thesis
      using Cons.IH [of "Suc n" "refresh_shard U R now sh m"] Cons.prems inc_count [of n]
      by (simp add: refresh_shard_gauge [OF assms(1)])
  next
    case False
    then show ?thesis
      using Cons.IH [of n "refresh_shard U R now sh m"] Cons.prems by (simp add: refresh_shard_gauge [OF assms(1)])
  qed
qed simp

lemma refresh_fold_bytes:
  assumes "registry_ok R" and "inj (uuid_String U)" and "key_unique sh_uuid rows" and "sh \<in> set rows"
  shows "rg_value R ReportedBytes [uuid_String U (sh_uuid sh), opt_str (sh_bucket sh), state_string (sh_state sh)]
    (fold (refresh_shard U R now) rows m) = Some (float64_sample (sh_reported sh))"
  using assms(3,4)
proof (induction rows rule: rev_induct)
  case (snoc x rows)
  let ?ls = "\<lambda>x. [uuid_String U (sh_uuid x), opt_str (sh_bucket x), state_string (sh_state x)]"
  have step: "rg_value R ReportedBytes (?ls sh) (refresh_shard U R now x m') =
      (if ?ls sh = ?ls x then Some (float64_sample (sh_reported x)) else rg_value R ReportedBytes (?ls sh) m')" for m'
    by (auto simp: refresh_shard_def metric_defs registryD [OF assms(1)] Let_def split: option.split)
  have uniq: "sh = x" if "sh_uuid sh = sh_uuid x" using key_unique_eq [OF snoc.prems(1) snoc.prems(2)] that by simp
  have "key_unique sh_uuid rows" using snoc.prems(1) by (simp add: key_unique_def)
  then show ?case
    using snoc.IH snoc.prems(2) step uniq inj_eq [OF assms(2)] by (cases "sh = x") auto
qed simp

lemma refresh_version_other:
  assumes "registry_ok R" and "mt \<noteq> TopologyVersionGauge"
  shows "rg_value R mt ls (snd (refresh_version gs R (s, m))) = rg_value R mt ls m"
  using assms(2) by (auto simp: refresh_version_def metric_defs registryD [OF assms(1)] split: sum.split prod.split)

text \<open>The gauges do not influence what the server does.\<close>

lemma RefreshGauges_server: "fst (RefreshGauges gs R now (s, m)) = snd (RefreshMetrics gs s)"
  by (simp add: RefreshGauges_def RefreshMetrics_def refresh_version_def catch_io_def bind_io_def ignore_io_def return_io_def
      value_or_def split: prod.split sum.split)

lemma RefreshGauges_value:
  assumes "registry_ok R" and "on_store (ListShards (gs_store gs)) s = (Inr rows, s1)"
    and "mt \<in> {ShardsGauge, ReportedBytes, ActiveShardsGauge}"
  shows "rg_value R mt ls (snd (RefreshGauges gs R now (s, m))) = rg_value R mt ls (refresh_shards (gs_uuid gs) R now rows m)"
  using assms(2,3) refresh_version_other [OF assms(1)]
  by (auto simp: RefreshGauges_def metric_defs registryD [OF assms(1)] split: prod.split)

text \<open>
  C31: after a refresh the gauges show the shards. When the shards could be listed, the gauge of a
  bucket and state is the number of shards with that bucket and state, absent when there is none
  (whatever it was before); every shard's reported bytes are its last report as a 64-bit float; the gauge
  of active shards counts the active shards of both roles, so it counts the error shard although it is
  described as the number of active data shards; and the refresh does to the server what it would do
  without gauges.
\<close>

theorem refresh_shows_shards:
  assumes "registry_ok R" and "inj (uuid_String (gs_uuid gs))"
    and "on_store (ListShards (gs_store gs)) s = (Inr rows, s1)" and "key_unique sh_uuid rows" and "int (length rows) < 2 ^ 53"
    and "RefreshGauges gs R now (s, m) = (s', m')"
  shows "rg_value R ShardsGauge [b, st] m' = count_sample (length (filter (in_gauge b st) rows)) \<and>
    (\<forall>sh \<in> set rows. rg_value R ReportedBytes [uuid_String (gs_uuid gs) (sh_uuid sh), opt_str (sh_bucket sh), state_string (sh_state sh)] m' =
       Some (float64_sample (sh_reported sh))) \<and>
    rg_value R ActiveShardsGauge [] m' = Some (Whole (int (length (filter (\<lambda>sh. sh_state sh = StateActive) rows)))) \<and>
    s' = snd (RefreshMetrics gs s)"
proof -
  have v: "rg_value R mt ls m' = rg_value R mt ls (refresh_shards (gs_uuid gs) R now rows m)"
    if "mt \<in> {ShardsGauge, ReportedBytes, ActiveShardsGauge}" for mt ls
    using RefreshGauges_value [OF assms(1,3) that, of ls now m] assms(6) by simp
  have "length (filter (\<lambda>sh. sh_state sh = StateActive) rows) \<le> length rows" by (rule length_filter_le)
  then have "float_of_int (int (length (filter (\<lambda>sh. sh_state sh = StateActive) rows))) = int (length (filter (\<lambda>sh. sh_state sh = StateActive) rows))"
    using assms(5) by (intro float_of_small) linarith
  moreover have "rg_value R ShardsGauge [b, st] (ResetShardGauges R m) = count_sample 0"
    by (simp add: metric_defs registryD [OF assms(1)] count_sample_def)
  note g = refresh_fold_gauge [OF assms(1) _ this, of rows]
  ultimately show ?thesis
    using v g assms(5) refresh_fold_bytes [OF assms(1,2,4)] RefreshGauges_server [of gs R now s m] assms(6)
    by (simp add: refresh_shards_def metric_defs registryD [OF assms(1)] float64_sample_def)
qed

definition demo_registry :: "(metric \<Rightarrow> string list \<Rightarrow> sample option) registry" where
  "demo_registry = \<lparr>rg_inc = (\<lambda>m ls x m' ls'. if m' = m \<and> ls' = ls then Some (inc_sample (x m ls)) else x m' ls'),
     rg_set = (\<lambda>m ls v x m' ls'. if m' = m \<and> ls' = ls then Some v else x m' ls'), rg_observe = (\<lambda>_ _ _ x. x),
     rg_reset = (\<lambda>m x m' ls'. if m' = m then None else x m' ls'), rg_value = (\<lambda>m ls x. x m ls)\<rparr>"

definition gauge_rows :: "Shard list" where
  "gauge_rows = [demo_shard 1 StateActive (Some ''n0''), (demo_shard 2 StateActive None)\<lparr>sh_role := RoleError\<rparr>]"

definition gauge_db :: db where
  "gauge_db = demo_db\<lparr>db_shards := gauge_rows\<rparr>"

lemma demo_registry_ok: "registry_ok demo_registry"
  by (simp add: registry_ok_def demo_registry_def)

theorem refresh_shows_shards_witness:
  "snd (RefreshGauges demo_server demo_registry 0 (demo_srv gauge_db, \<lambda>_ _. None)) ActiveShardsGauge [] = Some (Whole 2) \<and>
   snd (RefreshGauges demo_server demo_registry 0 (demo_srv gauge_db, \<lambda>_ _. None)) ShardsGauge [''n0'', ''active''] = Some (Whole 1)"
proof -
  have l: "on_store (ListShards (gs_store demo_server)) (demo_srv gauge_db) = (Inr gauge_rows, snd (on_store (ListShards (gs_store demo_server)) (demo_srv gauge_db)))"
    unfolding prod_eq_iff by (intro conjI) (code_simp, simp)
  have u: "inj (uuid_String (gs_uuid demo_server))" by (simp add: demo_server_def demo_uuid_def)
  have k: "key_unique sh_uuid gauge_rows" "length (filter (in_gauge ''n0'' ''active'') gauge_rows) = 1"
    "length (filter (\<lambda>sh. sh_state sh = StateActive) gauge_rows) = 2" "length gauge_rows = 2" by code_simp+
  show ?thesis
    using refresh_shows_shards [OF demo_registry_ok u l k(1) _ surjective_pairing, where now = 0 and m = "\<lambda>_ _. None" and b = "''n0''" and st = "''active''"] k(2-4)
    by (simp add: count_sample_def demo_registry_def)
qed

end
