(* ===== verification/Telemetry.thy ===== *)
theory Telemetry
  imports Tracing Metrics
begin

text \<open>
  The server with its telemetry: the code of \<^verbatim>\<open>internal/store\<close>, \<^verbatim>\<open>internal/resolve\<close>, \<^verbatim>\<open>internal/seal\<close>,
  \<^verbatim>\<open>internal/retention\<close>, \<^verbatim>\<open>internal/health\<close> and \<^verbatim>\<open>internal/grpcapi\<close> that counts, measures and traces,
  over the state of the plain code together with the metrics and, in a handler, the span of the call.
  The plain code of the other theories is this code without its telemetry. The time that a measured
  piece of code took is a reading of the clock, the argument \<open>el\<close>.
\<close>

section \<open>Code with telemetry\<close>

definition quietly :: "('s \<Rightarrow> 'r \<times> 's) \<Rightarrow> 's \<times> 't \<Rightarrow> 'r \<times> 's \<times> 't" where
  "quietly m = (\<lambda>(s, t). case m s of (r, s') \<Rightarrow> (r, s', t))"

definition touch :: "('t \<Rightarrow> 't) \<Rightarrow> ('s \<times> 't \<Rightarrow> 'r) \<Rightarrow> 's \<times> 't \<Rightarrow> 'r" where
  "touch f h = (\<lambda>(s, t). h (s, f t))"

definition measure_then :: "('s \<Rightarrow> int) \<Rightarrow> (int \<Rightarrow> 't \<Rightarrow> 't) \<Rightarrow> ('s \<times> 't \<Rightarrow> 'r) \<Rightarrow> 's \<times> 't \<Rightarrow> 'r" where
  "measure_then el f h = (\<lambda>(s, t). h (s, f (el s) t))"

definition on_store_t :: "(world \<times> 'm \<Rightarrow> 'r \<times> world \<times> 'm) \<Rightarrow> srv \<times> 'm \<Rightarrow> 'r \<times> srv \<times> 'm" where
  "on_store_t h = (\<lambda>(s, m). case h (sv_world s, m) of (r, w, m') \<Rightarrow> (r, s\<lparr>sv_world := w\<rparr>, m'))"

definition with_span :: "('s \<times> 'm \<Rightarrow> 'r \<times> 's \<times> 'm) \<Rightarrow> 's \<times> 'm \<times> 'c \<Rightarrow> 'r \<times> 's \<times> 'm \<times> 'c" where
  "with_span h = (\<lambda>(s, m, c). case h (s, m) of (r, s', m') \<Rightarrow> (r, s', m', c))"

text \<open>\<open>defer func() { f }()\<close> at the start of a handler.\<close>

definition deferred :: "('s \<Rightarrow> int) \<Rightarrow> (int \<Rightarrow> 't \<Rightarrow> 't) \<Rightarrow> ('s \<times> 't \<Rightarrow> 'r \<times> 's \<times> 't) \<Rightarrow> 's \<times> 't \<Rightarrow> 'r \<times> 's \<times> 't" where
  "deferred el f h x = (case h x of (r, s, t) \<Rightarrow> (r, s, f (el s) t))"

section \<open>Store and resolution\<close>

definition GetConfig_t :: "'m registry \<Rightarrow> Store \<Rightarrow> (world \<times> 'm, ClusterConfig) sio" where
  "GetConfig_t R S = (\<lambda>(w, m). quietly (GetConfig S)
     (w, if w_cache w = None then IncResolveConfigCacheMiss R m else IncResolveConfigCacheHit R m))"

definition failoverStaleActive_t :: "'m registry \<Rightarrow> (world \<Rightarrow> int) \<Rightarrow> Store \<Rightarrow> string \<Rightarrow> (world \<times> 'm, unit) sio" where
  "failoverStaleActive_t R el S b =
    catch_io (quietly (StaleActiveForBucket S b))
      (\<lambda>e. if e = ErrNotFound then return_io () else fail_io e)
      (\<lambda>_. catch_io (quietly (SealRotate S b))
        (\<lambda>e. if e = ErrNotFound \<or> e = ErrConflict then return_io () else fail_io e)
        (\<lambda>u. measure_then el (ObserveSealDuration R) (touch (IncHeartbeatFailover R b) (return_io u))))"

definition ensureActive_t :: "'m registry \<Rightarrow> (world \<Rightarrow> int) \<Rightarrow> Store \<Rightarrow> string \<Rightarrow> (world \<times> 'm, Shard) sio" where
  "ensureActive_t R el S b =
    catch_io (quietly (ActiveForBucket S b))
      (\<lambda>e. if e \<noteq> ErrNotFound then fail_io e
        else bind_io (failoverStaleActive_t R el S b) (\<lambda>_.
          catch_io (quietly (ActiveForBucket S b))
            (\<lambda>e. if e \<noteq> ErrNotFound then fail_io e
              else catch_io (quietly (AutoPromoteIfNoActive S b))
                (\<lambda>e. if e = ErrNotFound then touch (IncStandbyExhausted R b) (fail_io ErrNotFound) else fail_io e)
                (\<lambda>promoted. case promoted of
                  Some sh \<Rightarrow> touch (IncPromote R b) (return_io sh)
                | None \<Rightarrow> quietly (ActiveForBucket S b)))
            return_io))
      return_io"

fun reason_string :: "RouteReason \<Rightarrow> string" where
  "reason_string ReasonNone = []"
| "reason_string ReasonFutureDisallowed = ''future_disallowed''"
| "reason_string ReasonFutureTooFar = ''future_too_far''"
| "reason_string ReasonEvicted = ''bucket_evicted''"
| "reason_string ReasonInvalidKey = ''invalid_shard_key''"

fun kind_string :: "RouteKind \<Rightarrow> string" where
  "kind_string RouteBucket = ''bucket''"
| "kind_string RouteError = ''error''"

definition ResolveWrite_t :: "'m registry \<Rightarrow> (world \<Rightarrow> int) \<Rightarrow> golib \<Rightarrow> uuidlib \<Rightarrow> Store \<Rightarrow> gtime \<Rightarrow> shard_key \<Rightarrow>
    (world \<times> 'm, WriteResult) sio" where
  "ResolveWrite_t R el L U S now shardKey =
    bind_io (GetConfig_t R S) (\<lambda>cfg.
      case ClassifyWrite L (cc_spec cfg) now shardKey (opt_int (cc_retention cfg)) (opt_int (cc_future cfg)) of
        Inl e \<Rightarrow> fail_io e
      | Inr route \<Rightarrow>
          if wr_kind route = RouteError then
            touch (IncErrorRoute R (reason_string (wr_reason route))) (bind_io (quietly (GetErrorShard S)) (\<lambda>sh.
              return_io (write_result U RouteError ErrorBucketID (wr_reason route) sh)))
          else
            bind_io (ensureActive_t R el S (wr_bucket route)) (\<lambda>sh.
              return_io (write_result U RouteBucket (wr_bucket route) ReasonNone sh)))"

definition ResolveRead_t :: "'m registry \<Rightarrow> (world \<Rightarrow> int) \<Rightarrow> golib \<Rightarrow> uuidlib \<Rightarrow> Store \<Rightarrow> gtime \<Rightarrow> shard_key \<Rightarrow>
    (world \<times> 'm, ReadResult) sio" where
  "ResolveRead_t R el L U S now shardKey =
    bind_io (GetConfig_t R S) (\<lambda>cfg.
      case ClassifyRead L (cc_spec cfg) now shardKey (opt_int (cc_retention cfg)) (opt_int (cc_future cfg)) of
        Inl e \<Rightarrow> fail_io e
      | Inr route \<Rightarrow>
          if wr_kind route = RouteError then
            if wr_reason route = ReasonEvicted then
              return_io \<lparr>rres_routing = RouteError, rres_bucket = [], rres_reason = wr_reason route, rres_shards = []\<rparr>
            else
              bind_io (quietly (GetErrorShard S)) (\<lambda>sh.
                return_io \<lparr>rres_routing = RouteError, rres_bucket = ErrorBucketID, rres_reason = wr_reason route,
                  rres_shards = [read_shard U sh]\<rparr>)
          else
            bind_io (quietly (ShardsForBucketRead S (wr_bucket route))) (\<lambda>shards.
            bind_io (if shards = [] then bind_io (ensureActive_t R el S (wr_bucket route)) (\<lambda>sh. return_io [sh])
                     else return_io shards) (\<lambda>shards'.
              return_io \<lparr>rres_routing = RouteBucket, rres_bucket = wr_bucket route, rres_reason = ReasonNone,
                rres_shards = map (read_shard U) shards'\<rparr>)))"

section \<open>Workers\<close>

definition complete_drain_t :: "'m registry \<Rightarrow> (world \<Rightarrow> int) \<Rightarrow> Store \<Rightarrow> int \<Rightarrow> gtime \<Rightarrow> Shard \<Rightarrow> (world \<times> 'm, unit) sio" where
  "complete_drain_t R el S drainTimeout now sh = (case sh_bucket sh of None \<Rightarrow> return_io ()
     | Some b \<Rightarrow> if drain_due drainTimeout now sh then
         catch_io (quietly (CompleteDrainSeal S b)) (\<lambda>_. touch (IncStandbyExhausted R b) (return_io ()))
           (\<lambda>_. measure_then el (ObserveSealDuration R) (touch (IncSeal R b) (return_io ())))
       else return_io ())"

definition seal_tick_t :: "'m registry \<Rightarrow> (world \<Rightarrow> int) \<Rightarrow> Store \<Rightarrow> int \<Rightarrow> gtime \<Rightarrow> (world \<times> 'm, unit) sio" where
  "seal_tick_t R el S drainTimeout now =
    catch_io (GetConfig_t R S) (\<lambda>_. return_io ()) (\<lambda>cfg.
      bind_io (catch_io (quietly (ShardsDraining S)) (\<lambda>_. return_io ()) (for_io (complete_drain_t R el S drainTimeout now))) (\<lambda>_.
      catch_io (quietly (ShardsNeedingSeal S (cc_max_bytes cfg))) (\<lambda>_. return_io ()) (\<lambda>need.
        bind_io (for_io (\<lambda>sh. quietly (begin_drain S sh)) need) (\<lambda>_.
          catch_io (quietly (CountStandbyPool S)) (\<lambda>_. touch (SetStandbyPool R 0) (return_io ()))
            (\<lambda>n. touch (SetStandbyPool R n) (return_io ()))))))"

definition retention_evict_t :: "'m registry \<Rightarrow> Store \<Rightarrow> string \<Rightarrow> (world \<times> 'm, unit) sio" where
  "retention_evict_t R S pid =
    catch_io (quietly (HasActiveInBucket S pid)) (\<lambda>_. return_io ()) (\<lambda>active.
      if active then return_io ()
      else catch_io (quietly (MarkBucketCleaning S pid)) (\<lambda>_. return_io ())
        (\<lambda>n. if 0 < n then touch (IncRetentionClean R pid) (return_io ()) else return_io ()))"

definition retention_tick_t :: "'m registry \<Rightarrow> Store \<Rightarrow> gtime \<Rightarrow> (world \<times> 'm, unit) sio" where
  "retention_tick_t R S now =
    bind_io (GetConfig_t R S) (\<lambda>cfg. case cc_retention cfg of None \<Rightarrow> return_io ()
      | Some depth \<Rightarrow>
        if cc_axis cfg \<noteq> AxisTime then return_io ()
        else bind_io (quietly (DistinctBucketIDs S)) (\<lambda>known.
          case BucketsOutsideRetention (cc_spec cfg) now depth known of Inl e \<Rightarrow> fail_io e
          | Inr evict \<Rightarrow> for_io (retention_evict_t R S) evict))"

definition health_failover_t :: "'m registry \<Rightarrow> (world \<Rightarrow> int) \<Rightarrow> Store \<Rightarrow> (srv, unit) sio option \<Rightarrow> Shard \<Rightarrow> (srv \<times> 'm, unit) sio" where
  "health_failover_t R el S notify sh = (case sh_bucket sh of None \<Rightarrow> return_io ()
     | Some b \<Rightarrow> catch_io (quietly (on_store (SealRotate S b))) (\<lambda>_. return_io ()) (\<lambda>_.
         measure_then (\<lambda>s. el (sv_world s)) (ObserveSealDuration R) (touch (IncHeartbeatFailover R b)
           (case notify of None \<Rightarrow> return_io () | Some f \<Rightarrow> quietly f))))"

definition health_tick_t :: "'m registry \<Rightarrow> (world \<Rightarrow> int) \<Rightarrow> Store \<Rightarrow> (srv, unit) sio option \<Rightarrow> (srv \<times> 'm, unit) sio" where
  "health_tick_t R el S notify =
    catch_io (quietly (on_store (ListStaleActives S))) (\<lambda>_. return_io ()) (\<lambda>stale.
      touch (SetStaleActiveShards R (int (length stale))) (for_io (health_failover_t R el S notify) stale))"

section \<open>Handlers\<close>

type_synonym ('m, 'c, 'a) thandler = "(srv \<times> 'm \<times> 'c, 'a) shandler"

definition Write_t :: "'m registry \<Rightarrow> 'c tracer \<Rightarrow> (world \<Rightarrow> int) \<Rightarrow> Server \<Rightarrow> gtime \<Rightarrow> shard_key option \<Rightarrow>
    ('m, 'c, ResolveWriteResponse) thandler" where
  "Write_t R T el gs now key = deferred (\<lambda>s. el (sv_world s)) (\<lambda>d. apfst (ObserveResolve R ''write'' d))
    (case valueToAny key of Inl _ \<Rightarrow> status InvalidArgument
     | Inr k \<Rightarrow> call (with_span (on_store_t (ResolveWrite_t R el (gs_lib gs) (gs_uuid gs) (gs_store gs) now k)))
         (\<lambda>e. if e = ErrNotFound then status Unavailable else status Internal)
         (\<lambda>res. touch (apsnd (SetResolveAttrs T (wres_bucket res) (wres_uuid res) (kind_string (wres_routing res))))
           (reply (writeResultToProto res))))"

definition Read_t :: "'m registry \<Rightarrow> 'c tracer \<Rightarrow> (world \<Rightarrow> int) \<Rightarrow> Server \<Rightarrow> gtime \<Rightarrow> shard_key option \<Rightarrow>
    ('m, 'c, ResolveReadResponse) thandler" where
  "Read_t R T el gs now key = deferred (\<lambda>s. el (sv_world s)) (\<lambda>d. apfst (ObserveResolve R ''read'' d))
    (case valueToAny key of Inl _ \<Rightarrow> status InvalidArgument
     | Inr k \<Rightarrow> call (with_span (on_store_t (ResolveRead_t R el (gs_lib gs) (gs_uuid gs) (gs_store gs) now k)))
         (\<lambda>_. status Internal)
         (\<lambda>res. touch (apsnd (SetResolveAttrs T (rres_bucket res)
             (case rres_shards res of [] \<Rightarrow> [] | sh # _ \<Rightarrow> rs_uuid sh) (kind_string (rres_routing res))))
           (reply (readResultToProto res))))"

definition buildTopology_t :: "'m registry \<Rightarrow> Server \<Rightarrow> ('m, 'c, Topology) thandler" where
  "buildTopology_t R gs =
    (let rest = (\<lambda>v.
       (let finish = (\<lambda>cfg. call (quietly (on_store (ListShards (gs_store gs)))) (\<lambda>_. status Internal) (\<lambda>shards.
              reply \<lparr>tp_version = v, tp_config = map_option config_proto cfg,
                tp_shards = map (shardToProto (gs_uuid gs)) shards\<rparr>)) in
        call (with_span (on_store_t (GetConfig_t R (gs_store gs)))) (\<lambda>_. finish None) (\<lambda>cfg. finish (Some cfg)))) in
     call (quietly (on_store (GetTopologyVersion (gs_store gs))))
       (\<lambda>e. if e = ErrNotBootstrapped then rest 0 else status Internal) rest)"

definition notify_then_t :: "Server \<Rightarrow> (srv \<times> 't, 'a) shandler \<Rightarrow> (srv \<times> 't, 'a) shandler" where
  "notify_then_t gs h = call (quietly (notifyTopology (gs_store gs))) (\<lambda>_. status Internal) (\<lambda>_. h)"

definition AdminSealRotate_t :: "'m registry \<Rightarrow> Server \<Rightarrow> metadata \<Rightarrow> string \<Rightarrow> ('m, 'c, string \<times> string) thandler" where
  "AdminSealRotate_t R gs md b = with_key gs md
    (call (quietly (on_store (SealRotate (gs_store gs) b)))
      (\<lambda>e. if e = ErrNotFound then status NotFound else status Aborted)
      (\<lambda>_. touch (apfst (IncSeal R b)) (notify_then_t gs (reply (''rotated'', b)))))"

definition RetentionTick_t :: "'m registry \<Rightarrow> Server \<Rightarrow> metadata \<Rightarrow> gtime \<Rightarrow> ('m, 'c, string) thandler" where
  "RetentionTick_t R gs md now = with_key gs md
    (if \<not> gs_retention gs then status Unavailable
     else call (with_span (on_store_t (retention_tick_t R (gs_store gs) now))) (\<lambda>_. status Internal)
       (\<lambda>_. notify_then_t gs (reply ''ok'')))"

definition ReportStats_t :: "'m registry \<Rightarrow> Server \<Rightarrow> metadata \<Rightarrow> string \<Rightarrow> int \<Rightarrow> ('m, 'c, string \<times> string) thandler" where
  "ReportStats_t R gs md uid bytes = with_key gs md
    (case uuid_Parse (gs_uuid gs) uid of None \<Rightarrow> status InvalidArgument
     | Some u \<Rightarrow> call (quietly (on_store (UpdateStats (gs_store gs) u bytes)))
         (\<lambda>_. touch (apfst (IncAgentStatsError R)) (status NotFound)) (\<lambda>_.
         call (quietly (on_store (GetShardByUUID (gs_store gs) u)))
           (\<lambda>_. touch (apfst (SetAgentLastSeen R uid (Seconds 0))) (reply (''ok'', [])))
           (\<lambda>sh. touch (apfst (SetAgentLastSeen R uid (Seconds 0) \<circ>
               (if sh_role sh = RoleError then SetErrorShardBytes R bytes else id)))
             (reply (''ok'', state_string (sh_state sh))))))"

section \<open>Calls\<close>

primrec full_method :: "srv_call \<Rightarrow> string" where
  "full_method (CallWrite _ _) = ''/shardman.v1.ResolveService/Write''"
| "full_method (CallRead _ _) = ''/shardman.v1.ResolveService/Read''"
| "full_method (CallListBucket _) = ''/shardman.v1.ResolveService/ListBucketShards''"
| "full_method CallGetTopology = ''/shardman.v1.TopologyService/Get''"
| "full_method (CallBootstrap _) = ''/shardman.v1.AdminService/Bootstrap''"
| "full_method CallListShards = ''/shardman.v1.AdminService/ListShards''"
| "full_method (CallRegister _) = ''/shardman.v1.AdminService/RegisterShard''"
| "full_method (CallSealRotate _) = ''/shardman.v1.AdminService/SealRotate''"
| "full_method (CallPatch _ _) = ''/shardman.v1.AdminService/PatchShardState''"
| "full_method (CallRetention _) = ''/shardman.v1.AdminService/RetentionTick''"
| "full_method (CallStats _ _) = ''/shardman.v1.InternalService/ReportStats''"
| "full_method (CallCleaned _) = ''/shardman.v1.InternalService/ReportCleaned''"
| "full_method (CallDrained _) = ''/shardman.v1.InternalService/ReportDrainComplete''"
| "full_method (TickSeal _ _) = []"
| "full_method (TickRetention _) = []"
| "full_method TickHealth = []"
| "full_method TickRefresh = []"

definition unary :: "'c tracer \<Rightarrow> srv_call \<Rightarrow> ('m, 'c, 'a) thandler \<Rightarrow> srv \<times> 'm \<times> 'c \<Rightarrow> code option \<times> srv \<times> 'm \<times> 'c" where
  "unary T c h x = outcome (UnaryServerInterceptor T (full_method c) h x)"

definition refresh_t :: "'m registry \<Rightarrow> Server \<Rightarrow> gtime \<Rightarrow> (srv \<times> 'm, unit) sio" where
  "refresh_t R gs now x = (Inr (), RefreshGauges gs R now x)"

primrec run_call_t :: "'m registry \<Rightarrow> 'c tracer \<Rightarrow> (world \<Rightarrow> int) \<Rightarrow> gtime \<Rightarrow> Server \<Rightarrow> metadata \<Rightarrow> srv_call \<Rightarrow>
    srv \<times> 'm \<times> 'c \<Rightarrow> code option \<times> srv \<times> 'm \<times> 'c" where
  "run_call_t R T el clk gs md (CallWrite now k) x = unary T (CallWrite now k) (Write_t R T el gs now k) x"
| "run_call_t R T el clk gs md (CallRead now k) x = unary T (CallRead now k) (Read_t R T el gs now k) x"
| "run_call_t R T el clk gs md (CallListBucket b) x = unary T (CallListBucket b) (quietly (ListBucketShards gs b)) x"
| "run_call_t R T el clk gs md CallGetTopology x = unary T CallGetTopology (buildTopology_t R gs) x"
| "run_call_t R T el clk gs md (CallBootstrap req) x = unary T (CallBootstrap req) (quietly (BootstrapCluster gs md req)) x"
| "run_call_t R T el clk gs md CallListShards x = unary T CallListShards (quietly (AdminListShards gs md)) x"
| "run_call_t R T el clk gs md (CallRegister req) x = unary T (CallRegister req) (quietly (AdminRegisterShard gs md req)) x"
| "run_call_t R T el clk gs md (CallSealRotate b) x = unary T (CallSealRotate b) (AdminSealRotate_t R gs md b) x"
| "run_call_t R T el clk gs md (CallPatch i st) x = unary T (CallPatch i st) (quietly (PatchShardState gs md i st)) x"
| "run_call_t R T el clk gs md (CallRetention now) x = unary T (CallRetention now) (RetentionTick_t R gs md now) x"
| "run_call_t R T el clk gs md (CallStats u n) x = unary T (CallStats u n) (ReportStats_t R gs md u n) x"
| "run_call_t R T el clk gs md (CallCleaned u) x = unary T (CallCleaned u) (quietly (ReportCleaned gs md u)) x"
| "run_call_t R T el clk gs md (CallDrained u) x = unary T (CallDrained u) (quietly (ReportDrainComplete gs md u)) x"
| "run_call_t R T el clk gs md (TickSeal timeout now) x = with_span (worker (on_store_t (seal_tick_t R el (gs_store gs) timeout now))) x"
| "run_call_t R T el clk gs md (TickRetention now) x = with_span (worker (on_store_t (ignore_io (retention_tick_t R (gs_store gs) now)))) x"
| "run_call_t R T el clk gs md TickHealth x =
    with_span (worker (health_tick_t R el (gs_store gs) (Some (notifyTopology (gs_store gs))))) x"
| "run_call_t R T el clk gs md TickRefresh x = with_span (worker (refresh_t R gs clk)) x"

section \<open>Telemetry changes nothing\<close>

text \<open>Code with telemetry that returns what the plain code returns and leaves what it leaves.\<close>

definition erases :: "('s \<times> 't \<Rightarrow> 'r \<times> 's \<times> 't) \<Rightarrow> ('s \<Rightarrow> 'r \<times> 's) \<Rightarrow> bool" where
  "erases h m \<longleftrightarrow> (\<forall>s t. fst (h (s, t)) = fst (m s) \<and> fst (snd (h (s, t))) = snd (m s))"

named_theorems erase_rules \<open>composition rules for code with telemetry\<close>

lemma erasesD: "erases h m \<Longrightarrow> \<exists>t'. h (s, t) = (fst (m s), snd (m s), t')"
  by (simp add: erases_def prod_eq_iff)

lemma erases_const [erase_rules]:
  "erases (return_io x) (return_io x)" "erases (fail_io e) (fail_io e)" "erases (reply y) (reply y)" "erases (status c) (status c)"
  by (simp_all add: erases_def return_io_def fail_io_def reply_def status_def)

lemma erases_quietly [erase_rules]: "erases (quietly m) m"
  by (simp add: erases_def quietly_def split: prod.split)

lemma erases_touch [erase_rules]: "erases h m \<Longrightarrow> erases (touch f h) m" "erases h m \<Longrightarrow> erases (measure_then el g h) m"
  by (simp_all add: erases_def touch_def measure_then_def)

lemma erases_case:
  assumes "erases h m" and "\<And>e. erases (h1 e) (m1 e)" and "\<And>x. erases (h2 x) (m2 x)"
  shows "erases (\<lambda>x. case h x of (Inl e, x') \<Rightarrow> h1 e x' | (Inr y, x') \<Rightarrow> h2 y x')
    (\<lambda>s. case m s of (Inl e, s') \<Rightarrow> m1 e s' | (Inr y, s') \<Rightarrow> m2 y s')"
  unfolding erases_def
proof (intro allI)
  fix s t
  obtain t' where h: "h (s, t) = (fst (m s), snd (m s), t')" using erasesD [OF assms(1)] by blast
  have "fst (h1 e (s', t')) = fst (m1 e s') \<and> fst (snd (h1 e (s', t'))) = snd (m1 e s')"
    "fst (h2 x (s', t')) = fst (m2 x s') \<and> fst (snd (h2 x (s', t'))) = snd (m2 x s')" for e x s'
    using assms(2,3) by (simp_all add: erases_def)
  then show "fst (case h (s, t) of (Inl e, x') \<Rightarrow> h1 e x' | (Inr y, x') \<Rightarrow> h2 y x') =
      fst (case m s of (Inl e, s') \<Rightarrow> m1 e s' | (Inr y, s') \<Rightarrow> m2 y s') \<and>
    fst (snd (case h (s, t) of (Inl e, x') \<Rightarrow> h1 e x' | (Inr y, x') \<Rightarrow> h2 y x')) =
      snd (case m s of (Inl e, s') \<Rightarrow> m1 e s' | (Inr y, s') \<Rightarrow> m2 y s')"
    by (simp add: h split: prod.split sum.split)
qed

lemma erases_catch [erase_rules]:
  "erases h m \<Longrightarrow> (\<And>e. erases (h1 e) (m1 e)) \<Longrightarrow> (\<And>x. erases (h2 x) (m2 x)) \<Longrightarrow> erases (catch_io h h1 h2) (catch_io m m1 m2)"
  "erases h m \<Longrightarrow> (\<And>e. erases (k1 e) (n1 e)) \<Longrightarrow> (\<And>x. erases (k2 x) (n2 x)) \<Longrightarrow> erases (call h k1 k2) (call m n1 n2)"
  unfolding catch_io_def [abs_def] call_def [abs_def] by (rule erases_case, assumption+)+

lemma erases_bind [erase_rules]:
  "erases h m \<Longrightarrow> (\<And>x. erases (k x) (n x)) \<Longrightarrow> erases (bind_io h k) (bind_io m n)"
  unfolding bind_io_def by (intro erases_catch(1) erases_const)

lemma erases_for [erase_rules]: "(\<And>x. erases (f x) (g x)) \<Longrightarrow> erases (for_io f xs) (for_io g xs)"
  by (induction xs) (auto intro: erase_rules)

lemma erases_on_store [erase_rules]: "erases h m \<Longrightarrow> erases (on_store_t h) (on_store m)"
  by (simp add: erases_def on_store_t_def on_store_def case_prod_beta)

lemma erases_with_span [erase_rules]: "erases h m \<Longrightarrow> erases (with_span h) m"
  by (simp add: erases_def with_span_def case_prod_beta)

lemma erases_deferred [erase_rules]: "erases h m \<Longrightarrow> erases (deferred el f h) m"
  by (simp add: erases_def deferred_def case_prod_beta)

lemma erases_with_key [erase_rules]: "erases h m \<Longrightarrow> erases (with_key gs md h) (with_key gs md m)"
  by (auto simp: with_key_def intro: erase_rules split: option.split)

lemma erases_notify [erase_rules]: "erases h m \<Longrightarrow> erases (notify_then_t gs h) (notify_then gs m)"
  unfolding notify_then_t_def notify_then_def by (intro erases_catch(2) erase_rules)

lemma erases_if [erase_rules]:
  "(P \<Longrightarrow> erases h m) \<Longrightarrow> (\<not> P \<Longrightarrow> erases h' m') \<Longrightarrow> erases (if P then h else h') (if P then m else m')"
  by simp

subsection \<open>The operations\<close>

lemma erases_GetConfig [erase_rules]: "erases (GetConfig_t R S) (GetConfig S)"
  by (simp add: erases_def GetConfig_t_def quietly_def split: prod.split)

lemma erases_failover [erase_rules]: "erases (failoverStaleActive_t R el S b) (failoverStaleActive S b)"
  unfolding failoverStaleActive_t_def failoverStaleActive_def by (intro erase_rules)

lemma erases_ensureActive [erase_rules]: "erases (ensureActive_t R el S b) (ensureActive S b)"
proof -
  have "erases (if e = ErrNotFound then touch (IncStandbyExhausted R b) (fail_io ErrNotFound) else fail_io e) (fail_io e)" for e
    by (auto intro: erase_rules)
  moreover have "erases (case p of None \<Rightarrow> quietly (ActiveForBucket S b) | Some sh \<Rightarrow> touch (IncPromote R b) (return_io sh))
      (case p of None \<Rightarrow> ActiveForBucket S b | Some sh \<Rightarrow> return_io sh)" for p
    by (auto intro: erase_rules split: option.split)
  ultimately show ?thesis
    unfolding ensureActive_t_def ensureActive_def bind_io_def [of "AutoPromoteIfNoActive S b"] by (intro erase_rules)
qed

lemma erases_ResolveWrite [erase_rules]: "erases (ResolveWrite_t R el L U S now k) (ResolveWrite L U S now k)"
  unfolding ResolveWrite_t_def ResolveWrite_def by (intro erases_bind erases_GetConfig) (auto intro!: erase_rules split: sum.split)

lemma erases_ResolveRead [erase_rules]: "erases (ResolveRead_t R el L U S now k) (ResolveRead L U S now k)"
  unfolding ResolveRead_t_def ResolveRead_def by (intro erases_bind erases_GetConfig) (auto intro!: erase_rules split: sum.split)

lemma erases_complete_drain [erase_rules]: "erases (complete_drain_t R el S timeout now sh) (complete_drain S timeout now sh)"
  by (auto simp: complete_drain_t_def complete_drain_def ignore_io_def intro!: erase_rules split: option.split)

lemma erases_seal_tick [erase_rules]: "erases (seal_tick_t R el S timeout now) (seal_tick S timeout now)"
  unfolding seal_tick_t_def seal_tick_def ignore_io_def [of "CountStandbyPool S"] by (intro erase_rules)

lemma erases_retention_evict [erase_rules]: "erases (retention_evict_t R S b) (retention_evict S b)"
proof -
  have "erases (if 0 < n then touch (IncRetentionClean R b) (return_io ()) else return_io ()) (return_io ())" for n :: int
    by (auto intro: erase_rules)
  then show ?thesis unfolding retention_evict_t_def retention_evict_def ignore_io_def by (intro erase_rules)
qed

lemma erases_retention_tick [erase_rules]: "erases (retention_tick_t R S now) (retention_tick S now)"
  unfolding retention_tick_t_def retention_tick_def
  by (intro erases_bind erases_GetConfig) (auto intro!: erase_rules split: option.split sum.split)

lemma erases_health_tick [erase_rules]: "erases (health_tick_t R el S notify) (health_tick S notify)"
proof -
  have "erases (health_failover_t R el S notify sh) (health_failover S notify sh)" for sh
    by (auto simp: health_failover_t_def health_failover_def intro!: erase_rules split: option.split)
  then show ?thesis unfolding health_tick_t_def health_tick_def by (intro erase_rules)
qed

lemma erases_refresh: "erases (worker (refresh_t R gs now)) (worker (RefreshMetrics gs))"
  by (simp add: erases_def worker_def refresh_t_def RefreshGauges_server)

lemma erases_ignore [erase_rules]: "erases h m \<Longrightarrow> erases (ignore_io h) (ignore_io m)"
  unfolding ignore_io_def by (intro erase_rules)

lemma erases_worker [erase_rules]: "erases h m \<Longrightarrow> erases (worker h) (worker m)"
  by (simp add: erases_def worker_def)

lemma erases_unary [erase_rules]:
  assumes "erases h m"
  shows "erases (unary T c h) (\<lambda>s. outcome (m s))"
  unfolding erases_def
proof (intro allI)
  fix s t
  obtain t' where "h (s, t) = (fst (m s), snd (m s), t')" using erasesD [OF assms, of s t] by blast
  then show "fst (unary T c h (s, t)) = fst (outcome (m s)) \<and> fst (snd (unary T c h (s, t))) = snd (outcome (m s))"
    by (cases t'; cases "m s"; cases "fst (m s)") (auto simp: unary_def UnaryServerInterceptor_def outcome_def)
qed

lemma erases_Write [erase_rules]: "erases (Write_t R T el gs now k) (Write gs now k)"
  unfolding Write_t_def Write_def by (cases k) (auto intro!: erase_rules)

lemma erases_Read [erase_rules]: "erases (Read_t R T el gs now k) (Read gs now k)"
  unfolding Read_t_def Read_def by (cases k) (auto intro!: erase_rules)

lemma erases_buildTopology [erase_rules]: "erases (buildTopology_t R gs) (GetTopology gs)"
  unfolding GetTopology_def buildTopology_t_def buildTopology_def Let_def by (intro erase_rules)

lemma erases_admin [erase_rules]:
  "erases (AdminSealRotate_t R gs md b) (AdminSealRotate gs md b)" "erases (RetentionTick_t R gs md now) (RetentionTick gs md now)"
  unfolding AdminSealRotate_t_def AdminSealRotate_def RetentionTick_t_def RetentionTick_def by (intro erase_rules)+

lemma erases_ReportStats [erase_rules]: "erases (ReportStats_t R gs md u n) (ReportStats gs md u n)"
  unfolding ReportStats_t_def ReportStats_def by (intro erases_with_key) (auto intro!: erase_rules split: option.split)

lemma erases_cong: "erases h m \<Longrightarrow> (\<And>x. h' x = h x) \<Longrightarrow> (\<And>s. m' s = m s) \<Longrightarrow> erases h' m'"
  by (simp add: erases_def)

lemma run_call_erases: "erases (run_call_t R T el clk gs md c) (run_call gs md c)"
proof (cases "c = TickRefresh")
  case True
  then show ?thesis using erases_with_span [OF erases_refresh] by (simp add: erases_def)
next
  case False
  then show ?thesis
    by (cases c) (hypsubst, rule erases_cong [rotated], rule run_call_t.simps, rule run_call.simps, (rule erase_rules)+ | simp)+
qed

definition run_calls_t :: "'m registry \<Rightarrow> 'c tracer \<Rightarrow> 'c \<Rightarrow> (world \<Rightarrow> int) \<Rightarrow> gtime \<Rightarrow> Server \<Rightarrow> (metadata \<times> srv_call) list \<Rightarrow> srv \<times> 'm \<Rightarrow> srv \<times> 'm" where
  "run_calls_t R T span el clk gs calls x =
    fold (\<lambda>(md, c) (s, m). case run_call_t R T el clk gs md c (s, m, span) of (_, s', m', _) \<Rightarrow> (s', m')) calls x"

lemma run_calls_erases: "fst (run_calls_t R T span el clk gs calls (s, m)) = run_calls gs calls s"
proof (induction calls arbitrary: s m)
  case (Cons call calls)
  obtain md c where [simp]: "call = (md, c)" by fastforce
  obtain t' where "run_call_t R T el clk gs md c (s, m, span) = (fst (run_call gs md c s), snd (run_call gs md c s), t')"
    using erasesD [OF run_call_erases] by blast
  then show ?case using Cons by (cases t') (simp add: run_calls_t_def run_calls_def)
qed (simp add: run_calls_t_def run_calls_def)


section \<open>Writes to a draining bucket\<close>

lemma HasActive_busy:
  assumes "healthy S (w_orc w)" and "sh \<in> set (db_shards (w_db w))" and "writes_to b sh"
  shows "HasActiveInBucket S b w = (Inr True, w\<lparr>w_pc := Suc (w_pc w)\<rparr>)"
proof -
  have "sql_count (\<lambda>sh. data_in StateActive b sh \<or> data_in StateDraining b sh) (db_shards (w_db w)) \<noteq> 0"
    using assms(2,3) by (auto simp: sql_count_0 writes_to_def)
  then show ?thesis
    using assms(1) by (simp add: HasActiveInBucket_def bind_io_def catch_io_def pool_stmt_healthy count_rows_def return_io_def)
qed

lemma ensureActive_t_draining:
  assumes h: "healthy S (w_orc w)" and none: "\<And>r. r \<in> set (db_shards (w_db w)) \<Longrightarrow> \<not> data_in StateActive b r"
    and sh: "sh \<in> set (db_shards (w_db w))" "data_in StateDraining b sh"
  shows "ensureActive_t R el S b (w, m) = (Inl ErrNotFound, w\<lparr>w_pc := w_pc w + 5\<rparr>, IncStandbyExhausted R b m)"
proof -
  have a: "ActiveForBucket S b v = (Inl ErrNotFound, v\<lparr>w_pc := Suc (w_pc v)\<rparr>)"
      "StaleActiveForBucket S b v = (Inl ErrNotFound, v\<lparr>w_pc := Suc (w_pc v)\<rparr>)"
      "HasActiveInBucket S b v = (Inr True, v\<lparr>w_pc := Suc (w_pc v)\<rparr>)" if "w_orc v = w_orc w" "w_db v = w_db w" for v
    using h none that HasActive_busy [of S v sh b] sh
    by (auto simp: ActiveForBucket_def StaleActiveForBucket_def writes_to_def intro!: no_row_healthy)
  have "AutoPromoteIfNoActive S b v = (Inl ErrNotFound, v\<lparr>w_pc := Suc (Suc (w_pc v))\<rparr>)"
    if "w_orc v = w_orc w" "w_db v = w_db w" for v
    using a that by (simp add: AutoPromoteIfNoActive_def catch_io_def bind_io_def fail_io_def)
  then show ?thesis
    using a by (simp add: ensureActive_t_def failoverStaleActive_t_def catch_io_def bind_io_def quietly_def return_io_def
        fail_io_def touch_def)
qed

text \<open>
  C38: while a bucket drains, writes to it are refused and counted as an exhausted pool. When the
  database answers, the bucket has a draining shard and no active one, a write of the bucket ends with
  \<open>Unavailable\<close>, changes no table and raises the counter of missing standby shards, however many
  shards the pool holds.
\<close>

theorem draining_bucket_refuses_writes:
  assumes "registry_ok R" and "healthy (gs_store gs) (w_orc (sv_world s))" and "w_cache (sv_world s) = Some cfg"
    and "ClassifyWrite (gs_lib gs) (cc_spec cfg) now k (opt_int (cc_retention cfg)) (opt_int (cc_future cfg)) = Inr (bucket_route b)"
    and "\<forall>r \<in> set (db_shards (w_db (sv_world s))). \<not> data_in StateActive b r"
    and "sh \<in> set (db_shards (w_db (sv_world s)))" and "data_in StateDraining b sh"
  shows "\<exists>s' m' span'. run_call_t R T el clk gs md (CallWrite now (Some k)) (s, m, span) = (Some Unavailable, s', m', span') \<and>
    w_db (sv_world s') = w_db (sv_world s) \<and>
    rg_value R StandbyExhausted [b] m' = Some (inc_sample (rg_value R StandbyExhausted [b] m))"
proof -
  let ?w = "sv_world s" and ?h = "IncResolveConfigCacheHit R m"
  have e: "ensureActive_t R el (gs_store gs) b (?w, ?h) = (Inl ErrNotFound, ?w\<lparr>w_pc := w_pc ?w + 5\<rparr>, IncStandbyExhausted R b ?h)"
    using assms by (intro ensureActive_t_draining) auto
  have "ResolveWrite_t R el (gs_lib gs) (gs_uuid gs) (gs_store gs) now k (?w, m) =
      (Inl ErrNotFound, ?w\<lparr>w_pc := w_pc ?w + 5\<rparr>, IncStandbyExhausted R b ?h)"
    using e assms(3,4)
    by (simp add: ResolveWrite_t_def GetConfig_t_def GetConfig_def quietly_def bind_io_def catch_io_def fail_io_def bucket_route_def)
  then have "Write_t R T el gs now (Some k) (s, m, span) = (Inl Unavailable, s\<lparr>sv_world := ?w\<lparr>w_pc := w_pc ?w + 5\<rparr>\<rparr>,
      ObserveResolve R ''write'' (el (?w\<lparr>w_pc := w_pc ?w + 5\<rparr>)) (IncStandbyExhausted R b ?h), span)"
    by (simp add: Write_t_def deferred_def call_def with_span_def on_store_t_def status_def)
  then show ?thesis
    by (simp add: unary_def UnaryServerInterceptor_def outcome_def ObserveResolve_def IncStandbyExhausted_def
        IncResolveConfigCacheHit_def registryD [OF assms(1)])
qed

definition demo_tracer :: "((string \<times> string) list) tracer" where
  "demo_tracer = \<lparr>tr_recording = (\<lambda>_. True), tr_attr = (\<lambda>k v c. (k, v) # c), tr_error = (\<lambda>c. (''status'', ''Error'') # c),
     tr_code = (\<lambda>c. if c = None then ''OK'' else if c = Some Unavailable then ''Unavailable'' else ''Internal'')\<rparr>"

definition draining_srv :: srv where
  "draining_srv = \<lparr>sv_world = draining_world, sv_bcast = Some NewBroadcast\<rparr>"

theorem draining_bucket_refuses_writes_witness:
  "\<exists>s' m' span'. run_call_t demo_registry demo_tracer (\<lambda>_. 0) 0 demo_server None (CallWrite 0 (Some (KInt 5))) (draining_srv, \<lambda>_ _. None, []) =
      (Some Unavailable, s', m', span') \<and> m' StandbyExhausted [''n0''] = Some (Whole 1) \<and>
    next_standby (db_shards (w_db (sv_world s'))) = Some (demo_shard 2 StateStandby None)"
proof -
  have d: "w_orc draining_world = demo_slot" "w_cache draining_world = Some demo_config"
    "db_shards (w_db draining_world) = [draining_shard, demo_shard 2 StateStandby None]"
    by (simp_all add: draining_world_def)
  have c: "ClassifyWrite (gs_lib demo_server) (cc_spec demo_config) 0 (KInt 5) (opt_int (cc_retention demo_config)) (opt_int (cc_future demo_config)) =
      Inr (bucket_route ''n0'')" "next_standby [draining_shard, demo_shard 2 StateStandby None] = Some (demo_shard 2 StateStandby None)"
    "inc_sample None = Whole 1" by code_simp+
  have r: "data_in StateDraining ''n0'' draining_shard" "\<not> data_in StateActive ''n0'' draining_shard"
      "\<not> data_in StateActive ''n0'' (demo_shard 2 StateStandby None)"
    by (simp_all add: draining_shard_def data_in_def demo_shard_def new_row_def)
  show ?thesis
    using draining_bucket_refuses_writes [OF demo_registry_ok, of demo_server draining_srv demo_config 0 "KInt 5" "''n0''" draining_shard
        demo_tracer "\<lambda>_. 0" 0 None "\<lambda>_ _. None" "[]"] d c r demo_healthy
    by (auto simp: draining_srv_def demo_server_def demo_registry_def)
qed

end
