(* ===== verification/Watch.thy ===== *)
theory Watch
  imports GrpcApi
begin

text \<open>
  The stream of topology events, \<open>Watch\<close> of \<^verbatim>\<open>internal/grpcapi/server.go\<close>, as a step relation. One
  watcher runs beside everything else in the process: other sessions change the database, threads
  that changed the topology read its version and pass it to the hub, and other watchers come,
  receive and go. Each step is one access to the database, to the hub or to the stream.
\<close>

section \<open>The watcher\<close>

text \<open>The version of the first event, and of the event after a wake-up with the version \<open>v\<close>.\<close>

definition first_event :: "int \<Rightarrow> int \<Rightarrow> int option" where
  "first_event since tv = (if 0 < since then (if since < tv then Some tv else None) else Some tv)"

definition next_event :: "int \<Rightarrow> int \<Rightarrow> int" where
  "next_event v tv = (if tv < v then v else tv)"

text \<open>
  Where the watcher stands: before its first snapshot, with the version of that snapshot read, waiting
  on its channel, woken up with a version, with the version of the next snapshot read, gone.
\<close>

datatype watch_phase = WStart | WFirst int | WIdle | WGot int | WNext int int | WDone

record watch_sys =
  ws_db :: db
  ws_hub :: Broadcast
  ws_read :: "int list"
  ws_high :: int
  ws_phase :: watch_phase
  ws_sent :: "int list"

definition stored_version :: "db \<Rightarrow> int" where
  "stored_version d = (case db_config d of None \<Rightarrow> 0 | Some c \<Rightarrow> cr_version c)"

text \<open>
  \<open>ws_read\<close> holds the versions that other threads have read and not yet passed on, \<open>ws_high\<close> the highest
  version passed to the hub so far, \<open>ws_sent\<close> the versions of the events sent. The watcher's channel
  is \<open>ch\<close>, its request \<open>since\<close>.
\<close>

inductive watch_step :: "nat \<Rightarrow> int \<Rightarrow> watch_sys \<Rightarrow> watch_sys \<Rightarrow> bool" for ch :: nat and since :: int where
  ws_env: "db_steps UNIV (ws_db x) d \<Longrightarrow> watch_step ch since x (x\<lparr>ws_db := d\<rparr>)"
| ws_version: "db_config (ws_db x) \<noteq> None \<Longrightarrow>
    watch_step ch since x (x\<lparr>ws_read := stored_version (ws_db x) # ws_read x\<rparr>)"
| ws_notify: "v \<in> set (ws_read x) \<Longrightarrow> Notify v (ws_hub x) = Inr hub \<Longrightarrow>
    watch_step ch since x (x\<lparr>ws_read := remove1 v (ws_read x), ws_hub := hub, ws_high := max v (ws_high x)\<rparr>)"
| ws_other_subscribe: "Subscribe (ws_hub x) = (c, cur, hub) \<Longrightarrow> watch_step ch since x (x\<lparr>ws_hub := hub\<rparr>)"
| ws_other_receive: "c \<noteq> ch \<Longrightarrow> receive c (ws_hub x) = Some (v, hub) \<Longrightarrow> watch_step ch since x (x\<lparr>ws_hub := hub\<rparr>)"
| ws_other_leave: "c \<noteq> ch \<Longrightarrow> c \<in> set (bc_subs (ws_hub x)) \<Longrightarrow> unsubscribe c (ws_hub x) = Inr hub \<Longrightarrow>
    watch_step ch since x (x\<lparr>ws_hub := hub\<rparr>)"
| ws_read_first: "ws_phase x = WStart \<Longrightarrow> watch_step ch since x (x\<lparr>ws_phase := WFirst (stored_version (ws_db x))\<rparr>)"
| ws_send_first: "ws_phase x = WFirst tv \<Longrightarrow>
    watch_step ch since x (x\<lparr>ws_phase := WIdle, ws_sent := ws_sent x @ opt_list (first_event since tv)\<rparr>)"
| ws_receive: "ws_phase x = WIdle \<Longrightarrow> receive ch (ws_hub x) = Some (v, hub) \<Longrightarrow>
    watch_step ch since x (x\<lparr>ws_phase := WGot v, ws_hub := hub\<rparr>)"
| ws_read_next: "ws_phase x = WGot v \<Longrightarrow> watch_step ch since x (x\<lparr>ws_phase := WNext v (stored_version (ws_db x))\<rparr>)"
| ws_send_next: "ws_phase x = WNext v tv \<Longrightarrow>
    watch_step ch since x (x\<lparr>ws_phase := WIdle, ws_sent := ws_sent x @ [next_event v tv]\<rparr>)"
| ws_leave: "ws_phase x \<noteq> WDone \<Longrightarrow> unsubscribe ch (ws_hub x) = Inr hub \<Longrightarrow>
    watch_step ch since x (x\<lparr>ws_phase := WDone, ws_hub := hub\<rparr>)"

text \<open>A watcher that has just subscribed to a hub in order; other threads may hold versions read before.\<close>

definition watch_start :: "nat \<Rightarrow> watch_sys \<Rightarrow> bool" where
  "watch_start ch x \<longleftrightarrow> db_constraints (ws_db x) \<and> (\<exists>hub cur. bc_ok hub \<and> Subscribe hub = (ch, cur, ws_hub x)) \<and>
     (\<forall>v \<in> set (ws_read x). v \<le> stored_version (ws_db x)) \<and> ws_high x = 0 \<and> ws_phase x = WStart \<and> ws_sent x = [] \<and>
     0 \<le> stored_version (ws_db x)"

section \<open>The version never decreases\<close>

lemma csteps_version:
  assumes "csteps L (cluster_of d) (cluster_of d')"
  shows "stored_version d \<le> stored_version d'"
proof (cases "db_config d")
  case None
  have "case cl_config (cluster_of d') of None \<Rightarrow> True | Some r \<Rightarrow> 0 \<le> cr_version r"
    using assms
  proof (induction rule: csteps_induct)
    case (step l a b)
    show ?case using step.hyps(3) step.IH by cases (auto simp: cl_defs bump_config_def split: option.splits)
  qed (simp add: None)
  then show ?thesis using None by (simp add: stored_version_def split: option.splits)
next
  case (Some r)
  then obtain r' where "db_config d' = Some r'" "cr_version r \<le> cr_version r'"
    using csteps_config [OF assms, of r] by (auto simp: config_follows_def)
  then show ?thesis using Some by (simp add: stored_version_def)
qed

section \<open>No update is lost\<close>

definition chan_empty :: "nat \<Rightarrow> watch_sys \<Rightarrow> bool" where
  "chan_empty ch x \<longleftrightarrow> ch_buf (bc_heap (ws_hub x) ! ch) = None"

text \<open>The client knows the version it asked for and those of the events it got.\<close>

definition known :: "int \<Rightarrow> watch_sys \<Rightarrow> int" where
  "known since x = fold max (ws_sent x) since"

fun phase_ok :: "int \<Rightarrow> watch_sys \<Rightarrow> watch_phase \<Rightarrow> bool" where
  "phase_ok since x WStart \<longleftrightarrow> ws_sent x = []"
| "phase_ok since x (WFirst tv) \<longleftrightarrow> ws_sent x = [] \<and> tv \<le> stored_version (ws_db x)"
| "phase_ok since x (WGot v) \<longleftrightarrow> v \<le> stored_version (ws_db x)"
| "phase_ok since x (WNext v tv) \<longleftrightarrow> v \<le> tv \<and> tv \<le> stored_version (ws_db x) \<and> (\<forall>s \<in> set (ws_sent x). s \<le> tv)"
| "phase_ok since x _ \<longleftrightarrow> True"

fun caught_up :: "int \<Rightarrow> watch_sys \<Rightarrow> watch_phase \<Rightarrow> bool" where
  "caught_up since x (WFirst tv) \<longleftrightarrow> ws_high x \<le> tv"
| "caught_up since x WIdle \<longleftrightarrow> ws_high x \<le> known since x"
| "caught_up since x (WNext v tv) \<longleftrightarrow> ws_high x \<le> tv"
| "caught_up since x _ \<longleftrightarrow> True"

definition watch_inv :: "nat \<Rightarrow> int \<Rightarrow> watch_sys \<Rightarrow> bool" where
  "watch_inv ch since x \<longleftrightarrow> db_constraints (ws_db x) \<and> bc_ok (ws_hub x) \<and>
     (ws_phase x \<noteq> WDone \<longrightarrow> ch \<in> set (bc_subs (ws_hub x))) \<and>
     (\<forall>v \<in> set (ws_read x). v \<le> stored_version (ws_db x)) \<and> ws_high x \<le> stored_version (ws_db x) \<and>
     (\<forall>v. ch_buf (bc_heap (ws_hub x) ! ch) = Some v \<longrightarrow> v \<le> stored_version (ws_db x)) \<and>
     sorted (ws_sent x) \<and> (\<forall>s \<in> set (ws_sent x). s \<le> stored_version (ws_db x)) \<and>
     phase_ok since x (ws_phase x) \<and> (chan_empty ch x \<longrightarrow> caught_up since x (ws_phase x)) \<and>
     ch < length (bc_heap (ws_hub x))"

lemma known_append: "known since (x\<lparr>ws_phase := p, ws_sent := ws_sent x @ ys\<rparr>) = fold max ys (known since x)"
  by (simp add: known_def)

lemma phase_ok_mono:
  "phase_ok since x p \<Longrightarrow> stored_version (ws_db x) \<le> stored_version (ws_db y) \<Longrightarrow> ws_sent y = ws_sent x \<Longrightarrow> phase_ok since y p"
  by (cases p) auto

lemma caught_up_cong:
  "ws_high y = ws_high x \<Longrightarrow> ws_sent y = ws_sent x \<Longrightarrow> caught_up since y p = caught_up since x p"
  by (cases p) (simp_all add: known_def)

text \<open>Steps of others that leave the watcher's channel alone.\<close>

lemma watch_inv_hub:
  assumes "watch_inv ch since x" and "bc_ok hub" and "bc_heap hub ! ch = bc_heap (ws_hub x) ! ch"
    and "ch < length (bc_heap hub)" and "ch \<in> set (bc_subs (ws_hub x)) \<Longrightarrow> ch \<in> set (bc_subs hub)"
  shows "watch_inv ch since (x\<lparr>ws_hub := hub\<rparr>)"
  using assms phase_ok_mono [of since x "ws_phase x" "x\<lparr>ws_hub := hub\<rparr>"]
    caught_up_cong [of "x\<lparr>ws_hub := hub\<rparr>" x since "ws_phase x"]
  unfolding watch_inv_def chan_empty_def by simp

lemma watch_inv_env:
  assumes "watch_inv ch since x" and "db_steps UNIV (ws_db x) d"
  shows "watch_inv ch since (x\<lparr>ws_db := d\<rparr>)"
proof -
  have d: "db_constraints d" "stored_version (ws_db x) \<le> stored_version d"
    using assms csteps_version [of UNIV "ws_db x" d] by (simp_all add: watch_inv_def db_steps_def)
  then show ?thesis
    using assms(1) phase_ok_mono [of since x "ws_phase x" "x\<lparr>ws_db := d\<rparr>"]
      caught_up_cong [of "x\<lparr>ws_db := d\<rparr>" x since "ws_phase x"]
    unfolding watch_inv_def chan_empty_def by (auto intro: order_trans)
qed

lemma watch_inv_notify:
  assumes "watch_inv ch since x" and "v \<in> set (ws_read x)" and "Notify v (ws_hub x) = Inr hub"
  shows "watch_inv ch since (x\<lparr>ws_read := remove1 v (ws_read x), ws_hub := hub, ws_high := max v (ws_high x)\<rparr>)"
proof -
  let ?h = "ws_hub x" and ?y = "x\<lparr>ws_read := remove1 v (ws_read x), ws_hub := hub, ws_high := max v (ws_high x)\<rparr>"
  have b: "bc_ok ?h" "ch < length (bc_heap ?h)" and v: "v \<le> stored_version (ws_db x)"
    using assms(1,2) by (auto simp: watch_inv_def)
  have hub: "hub = ?h\<lparr>bc_version := v, bc_heap := filled v (bc_subs ?h) (bc_heap ?h)\<rparr>"
    using Notify_ok [OF b(1), of v] assms(3) by simp
  have ok: "bc_ok hub" unfolding hub by (rule bc_ok_Notify [OF b(1)])
  have full: "ch_buf (bc_heap hub ! ch) \<noteq> None" if "ws_phase x \<noteq> WDone"
    using that assms(1) b(2) by (auto simp: hub filled_nth watch_inv_def)
  have buf: "u \<le> stored_version (ws_db x)" if "ch_buf (bc_heap hub ! ch) = Some u" for u
    using that assms(1) b(2) v by (auto simp: hub filled_nth watch_inv_def split: if_splits)
  have "caught_up since ?y (ws_phase x)" if "ch_buf (bc_heap hub ! ch) = None"
    using that full by (cases "ws_phase x") auto
  then show ?thesis
    using assms(1) ok buf v b(2) phase_ok_mono [of since x "ws_phase x" ?y] notin_set_remove1
    unfolding watch_inv_def chan_empty_def by (auto simp: hub dest: notin_set_remove1)
qed

lemma receive_Some:
  "receive c b = Some (v, b') \<longleftrightarrow> ch_buf (bc_heap b ! c) = Some v \<and>
     b' = b\<lparr>bc_heap := (bc_heap b)[c := (bc_heap b ! c)\<lparr>ch_buf := None\<rparr>]\<rparr>"
  by (auto simp: receive_def split: option.splits)

lemma watch_inv_others:
  assumes "watch_inv ch since x"
  shows "Subscribe (ws_hub x) = (c, cur, hub) \<Longrightarrow> watch_inv ch since (x\<lparr>ws_hub := hub\<rparr>)"
    and "c \<noteq> ch \<Longrightarrow> receive c (ws_hub x) = Some (v, hub) \<Longrightarrow> watch_inv ch since (x\<lparr>ws_hub := hub\<rparr>)"
    and "c \<noteq> ch \<Longrightarrow> c \<in> set (bc_subs (ws_hub x)) \<Longrightarrow> unsubscribe c (ws_hub x) = Inr hub \<Longrightarrow>
      watch_inv ch since (x\<lparr>ws_hub := hub\<rparr>)"
proof -
  have b: "bc_ok (ws_hub x)" "ch < length (bc_heap (ws_hub x))" using assms by (simp_all add: watch_inv_def)
  show "watch_inv ch since (x\<lparr>ws_hub := hub\<rparr>)" if s: "Subscribe (ws_hub x) = (c, cur, hub)"
    using s b(2) by (intro watch_inv_hub [OF assms bc_ok_Subscribe(1) [OF b(1) s]]) (auto simp: Subscribe_def Let_def nth_append)
  show "watch_inv ch since (x\<lparr>ws_hub := hub\<rparr>)" if "c \<noteq> ch" and r: "receive c (ws_hub x) = Some (v, hub)"
    using that b(2) by (intro watch_inv_hub [OF assms bc_ok_receive [OF b(1) r]]) (auto simp: receive_Some)
  show "watch_inv ch since (x\<lparr>ws_hub := hub\<rparr>)"
    if "c \<noteq> ch" "c \<in> set (bc_subs (ws_hub x))" "unsubscribe c (ws_hub x) = Inr hub"
  proof (rule watch_inv_hub [OF assms])
    show "bc_ok hub" using bc_ok_unsubscribe [OF b(1) that(2)] that(3) by auto
  qed (use that b(2) in \<open>auto simp: unsubscribe_def split: if_splits\<close>)
qed

text \<open>The watcher's own steps.\<close>

lemma watch_inv_read_first:
  assumes "watch_inv ch since x" and "ws_phase x = WStart"
  shows "watch_inv ch since (x\<lparr>ws_phase := WFirst (stored_version (ws_db x))\<rparr>)"
  using assms by (auto simp: watch_inv_def chan_empty_def)

lemma watch_inv_send_first:
  assumes "watch_inv ch since x" and "ws_phase x = WFirst tv"
  shows "watch_inv ch since (x\<lparr>ws_phase := WIdle, ws_sent := ws_sent x @ opt_list (first_event since tv)\<rparr>)"
  using assms
  by (auto simp: watch_inv_def chan_empty_def known_append first_event_def opt_list_def known_def split: if_splits)

lemma watch_inv_receive:
  assumes "watch_inv ch since x" and "ws_phase x = WIdle" and "receive ch (ws_hub x) = Some (v, hub)"
  shows "watch_inv ch since (x\<lparr>ws_phase := WGot v, ws_hub := hub\<rparr>)"
proof -
  have "bc_ok hub" using assms by (intro bc_ok_receive [OF _ assms(3)]) (simp add: watch_inv_def)
  then show ?thesis using assms by (auto simp: watch_inv_def chan_empty_def receive_Some)
qed

lemma watch_inv_read_next:
  assumes "watch_inv ch since x" and "ws_phase x = WGot v"
  shows "watch_inv ch since (x\<lparr>ws_phase := WNext v (stored_version (ws_db x))\<rparr>)"
  using assms by (auto simp: watch_inv_def chan_empty_def)

lemma watch_inv_send_next:
  assumes "watch_inv ch since x" and "ws_phase x = WNext v tv"
  shows "watch_inv ch since (x\<lparr>ws_phase := WIdle, ws_sent := ws_sent x @ [next_event v tv]\<rparr>)"
  using assms
  by (auto simp: watch_inv_def chan_empty_def known_append next_event_def sorted_append)

lemma watch_inv_leave:
  assumes "watch_inv ch since x" and "ws_phase x \<noteq> WDone" and "unsubscribe ch (ws_hub x) = Inr hub"
  shows "watch_inv ch since (x\<lparr>ws_phase := WDone, ws_hub := hub\<rparr>)"
proof -
  have "bc_ok hub" using assms bc_ok_unsubscribe [of "ws_hub x" ch] by (auto simp: watch_inv_def)
  then show ?thesis
    using assms by (auto simp: watch_inv_def chan_empty_def unsubscribe_def split: if_splits)
qed

lemma watch_inv_step: "watch_step ch since x y \<Longrightarrow> watch_inv ch since x \<Longrightarrow> watch_inv ch since y"
proof (induction rule: watch_step.induct)
  case (ws_version x)
  then show ?case
    using phase_ok_mono [of since x "ws_phase x" "x\<lparr>ws_read := stored_version (ws_db x) # ws_read x\<rparr>"]
      caught_up_cong [of "x\<lparr>ws_read := stored_version (ws_db x) # ws_read x\<rparr>" x since "ws_phase x"]
    by (simp add: watch_inv_def chan_empty_def)
qed (auto intro: watch_inv_env watch_inv_notify watch_inv_others watch_inv_read_first watch_inv_send_first
    watch_inv_receive watch_inv_read_next watch_inv_send_next watch_inv_leave)

lemma watch_inv_start:
  assumes "watch_start ch x"
  shows "watch_inv ch since x"
proof -
  obtain hub cur where h: "bc_ok hub" "Subscribe hub = (ch, cur, ws_hub x)" using assms by (auto simp: watch_start_def)
  note b = bc_ok_Subscribe [OF h]
  have "ch = length (bc_heap hub)" "bc_heap (ws_hub x) = bc_heap hub @ [\<lparr>ch_buf = None, ch_closed = False\<rparr>]"
    using h(2) by (auto simp: Subscribe_def Let_def dest: arg_cong [where f = bc_heap])
  then have "ch_buf (bc_heap (ws_hub x) ! ch) = None" by simp
  then show ?thesis using assms b bc_okD [OF b] by (simp add: watch_start_def watch_inv_def)
qed

lemma watch_inv_reachable:
  assumes "watch_start ch x0" and "(watch_step ch since)\<^sup>*\<^sup>* x0 x"
  shows "watch_inv ch since x"
  using assms(2) by (induction rule: rtranclp_induct) (auto intro: watch_inv_start [OF assms(1)] watch_inv_step)

text \<open>
  C6: a watcher misses no update. In every interleaving, the versions of the events it sends never
  decrease and are versions the database has reached; no notification panics; and whenever the watcher
  waits on an empty channel, the client has an event, or asked for a version, at least as new as
  every version anyone has passed to the hub, even though a full channel drops notifications.
\<close>

theorem watch_loses_no_update:
  assumes "watch_start ch x0" and "(watch_step ch since)\<^sup>*\<^sup>* x0 x"
  shows "sorted (ws_sent x) \<and> list_all (\<lambda>s. s \<le> stored_version (ws_db x)) (ws_sent x) \<and>
    is_ok (Notify v (ws_hub x)) \<and> (ws_phase x = WIdle \<and> chan_empty ch x \<longrightarrow> ws_high x \<le> known since x)"
  using watch_inv_reachable [OF assms] by (auto simp: watch_inv_def list_all_iff Notify_ok)

definition watch_demo :: watch_sys where
  "watch_demo = \<lparr>ws_db = demo_db, ws_hub = snd (snd (Subscribe NewBroadcast)), ws_read = [7], ws_high = 0,
     ws_phase = WStart, ws_sent = []\<rparr>"

theorem watch_loses_no_update_witness:
  "\<exists>x. (watch_step 0 0)\<^sup>*\<^sup>* watch_demo x \<and> ws_phase x = WIdle \<and> chan_empty 0 x \<and> ws_high x = 7 \<and> 7 \<le> known 0 x"
proof -
  define x1 where "x1 = watch_demo\<lparr>ws_read := [], ws_hub := \<lparr>bc_version = 7, bc_subs = [0],
    bc_heap = [\<lparr>ch_buf = Some 7, ch_closed = False\<rparr>]\<rparr>, ws_high := 7\<rparr>"
  define x2 where "x2 = x1\<lparr>ws_phase := WFirst 7\<rparr>"
  define x3 where "x3 = x2\<lparr>ws_phase := WIdle, ws_sent := [7]\<rparr>"
  define x4 where "x4 = x3\<lparr>ws_phase := WGot 7, ws_hub := \<lparr>bc_version = 7, bc_subs = [0],
    bc_heap = [\<lparr>ch_buf = None, ch_closed = False\<rparr>]\<rparr>\<rparr>"
  define x5 where "x5 = x4\<lparr>ws_phase := WNext 7 7\<rparr>"
  define x6 where "x6 = x5\<lparr>ws_phase := WIdle, ws_sent := [7, 7]\<rparr>"
  note defs = x1_def x2_def x3_def x4_def x5_def x6_def
  have v: "stored_version demo_db = 7" by (simp add: stored_version_def demo_db_def)
  have s1: "watch_step 0 0 watch_demo x1"
    using ws_notify [of 7 watch_demo "ws_hub x1" 0 0]
    by (simp add: x1_def watch_demo_def NewBroadcast_def Subscribe_def Let_def Notify_def try_send_def)
  have s2: "watch_step 0 0 x1 x2" using ws_read_first [of x1 0 0] v by (simp add: defs watch_demo_def)
  have s3: "watch_step 0 0 x2 x3" using ws_send_first [of x2 7 0 0] by (simp add: defs watch_demo_def first_event_def opt_list_def)
  have s4: "watch_step 0 0 x3 x4" using ws_receive [of x3 0 7 "ws_hub x4" 0] by (simp add: defs watch_demo_def receive_def)
  have s5: "watch_step 0 0 x4 x5" using ws_read_next [of x4 7 0 0] v by (simp add: defs watch_demo_def)
  have s6: "watch_step 0 0 x5 x6" using ws_send_next [of x5 7 7 0 0] by (simp add: defs watch_demo_def next_event_def)
  have run: "(watch_step 0 0)\<^sup>*\<^sup>* watch_demo x6"
    using s1 s2 s3 s4 s5 s6 by (meson converse_rtranclp_into_rtranclp rtranclp.rtrancl_refl)
  have start: "watch_start 0 watch_demo"
    using bc_ok_New v unfolding watch_start_def
    by (auto simp: watch_demo_def demo_db_constraints Subscribe_def Let_def NewBroadcast_def intro!: exI [of _ NewBroadcast])
  have x: "ws_phase x6 = WIdle" "chan_empty 0 x6" "ws_high x6 = 7" by (simp_all add: defs chan_empty_def)
  show ?thesis using watch_loses_no_update [OF start run] run x by auto
qed

end
