(* ===== verification/Client.thy ===== *)
theory Client
  imports GrpcApi
begin

text \<open>
  \<^verbatim>\<open>pkg/client\<close>: the client library with its cached topology. \<^verbatim>\<open>local.go\<close> resolves keys from the cache,
  \<^verbatim>\<open>client.go\<close> asks the server when the cache has no answer. The server behind the gRPC connection is
  the record \<open>remote\<close> over a state \<open>'r\<close>; the conversion of a key to the protocol's value and back, a
  third-party package, is \<open>rm_value\<close>, none when it refuses the key.
\<close>

section \<open>Resolution from the cache\<close>

record localClusterConfig =
  lc_spec :: Spec
  lc_retention :: "int option"
  lc_future :: "int option"

definition clusterConfigFromProto :: "PConfig option \<Rightarrow> localClusterConfig res" where
  "clusterConfigFromProto cfg = (case cfg of None \<Rightarrow> Inl (ErrMsg ''cluster config required'')
     | Some c \<Rightarrow> (case ParseSpec (axis_of_string (pc_axis c)) (pc_spec c) of Inl e \<Rightarrow> Inl e
        | Inr spec \<Rightarrow> Inr \<lparr>lc_spec = spec, lc_retention = pc_retention c, lc_future = pc_future c\<rparr>))"

definition retentionArgs :: "localClusterConfig \<Rightarrow> int \<times> int" where
  "retentionArgs cfg = (opt_int (lc_retention cfg), opt_int (lc_future cfg))"

definition shardEndpoint :: "PShard \<Rightarrow> string" where
  "shardEndpoint sh = (if ps_advertise sh \<noteq> [] then ps_advertise sh else ps_dsn sh)"

definition findErrorShard :: "PShard list \<Rightarrow> PShard option" where
  "findErrorShard shards = find (\<lambda>sh. ps_role sh = role_string RoleError) shards"

definition findActiveForBucket :: "PShard list \<Rightarrow> string \<Rightarrow> PShard option" where
  "findActiveForBucket shards b = find (\<lambda>sh. ps_role sh = role_string RoleData \<and>
     ps_state sh = state_string StateActive \<and> ps_bucket sh = b) shards"

definition shardsForBucketRead :: "PShard list \<Rightarrow> string \<Rightarrow> PShard list" where
  "shardsForBucketRead shards b = filter (\<lambda>sh. \<not> (ps_role sh \<noteq> role_string RoleData \<or> ps_bucket sh \<noteq> b) \<and>
     (ps_state sh = state_string StateActive \<or> ps_state sh = state_string StateSealed)) shards"

definition local_write :: "RouteKind \<Rightarrow> string \<Rightarrow> RouteReason \<Rightarrow> PShard \<Rightarrow> WriteResult" where
  "local_write kind b reason sh =
    \<lparr>wres_routing = kind, wres_bucket = b, wres_reason = reason, wres_shard = ps_id sh, wres_uuid = ps_uuid sh,
     wres_endpoint = shardEndpoint sh, wres_state = state_of_string (ps_state sh)\<rparr>"

definition local_read :: "PShard \<Rightarrow> ReadShard" where
  "local_read sh = \<lparr>rs_shard = ps_id sh, rs_uuid = ps_uuid sh, rs_endpoint = shardEndpoint sh,
     rs_state = state_of_string (ps_state sh)\<rparr>"

definition tryResolveWriteLocal :: "golib \<Rightarrow> gtime \<Rightarrow> Topology option \<Rightarrow> shard_key \<Rightarrow> WriteResult option" where
  "tryResolveWriteLocal L now topo shardKey = (case topo of None \<Rightarrow> None
     | Some t \<Rightarrow> if tp_config t = None then None
        else case clusterConfigFromProto (tp_config t) of Inl _ \<Rightarrow> None
        | Inr cfg \<Rightarrow>
          (let (retention, maxFuture) = retentionArgs cfg in
           case ClassifyWrite L (lc_spec cfg) now shardKey retention maxFuture of Inl _ \<Rightarrow> None
           | Inr route \<Rightarrow>
               if wr_kind route = RouteError then
                 map_option (local_write RouteError ErrorBucketID (wr_reason route)) (findErrorShard (tp_shards t))
               else
                 map_option (local_write RouteBucket (wr_bucket route) ReasonNone)
                   (findActiveForBucket (tp_shards t) (wr_bucket route))))"

definition tryResolveReadLocal :: "golib \<Rightarrow> gtime \<Rightarrow> Topology option \<Rightarrow> shard_key \<Rightarrow> ReadResult option" where
  "tryResolveReadLocal L now topo shardKey = (case topo of None \<Rightarrow> None
     | Some t \<Rightarrow> if tp_config t = None then None
        else case clusterConfigFromProto (tp_config t) of Inl _ \<Rightarrow> None
        | Inr cfg \<Rightarrow>
          (let (retention, maxFuture) = retentionArgs cfg in
           case ClassifyRead L (lc_spec cfg) now shardKey retention maxFuture of Inl _ \<Rightarrow> None
           | Inr route \<Rightarrow>
               if wr_kind route = RouteError then
                 if wr_reason route = ReasonEvicted then
                   Some \<lparr>rres_routing = RouteError, rres_bucket = [], rres_reason = wr_reason route, rres_shards = []\<rparr>
                 else map_option (\<lambda>sh. \<lparr>rres_routing = RouteError, rres_bucket = ErrorBucketID,
                     rres_reason = wr_reason route, rres_shards = [local_read sh]\<rparr>) (findErrorShard (tp_shards t))
               else
                 (let matches = shardsForBucketRead (tp_shards t) (wr_bucket route) in
                  if matches = [] then None
                  else Some \<lparr>rres_routing = RouteBucket, rres_bucket = wr_bucket route, rres_reason = ReasonNone,
                    rres_shards = map local_read matches\<rparr>)))"

section \<open>The client\<close>

datatype cerr = RpcError code | ClientError goerr

record Client =
  ct_topo :: "Topology option"
  ct_topoVer :: int

record 'r remote =
  rm_value :: "shard_key \<Rightarrow> shard_key option"
  rm_get :: "'r \<Rightarrow> (code + Topology) \<times> 'r"
  rm_write :: "shard_key \<Rightarrow> 'r \<Rightarrow> (code + ResolveWriteResponse) \<times> 'r"
  rm_read :: "shard_key \<Rightarrow> 'r \<Rightarrow> (code + ResolveReadResponse) \<times> 'r"
  rm_bootstrap :: "BootstrapRequest \<Rightarrow> 'r \<Rightarrow> (code + string \<times> int) \<times> 'r"
  rm_register :: "RegisterShardRequest \<Rightarrow> 'r \<Rightarrow> (code + PShard) \<times> 'r"
  rm_seal :: "string \<Rightarrow> 'r \<Rightarrow> (code + string \<times> string) \<times> 'r"

definition store_topology :: "Topology \<Rightarrow> int \<Rightarrow> Client \<Rightarrow> Client" where
  "store_topology topo v c = c\<lparr>ct_topo := Some topo, ct_topoVer := v\<rparr>"

definition refreshTopology :: "'r remote \<Rightarrow> Client \<times> 'r \<Rightarrow> (code + unit) \<times> Client \<times> 'r" where
  "refreshTopology R = (\<lambda>(c, s). case rm_get R s of
     (Inl e, s') \<Rightarrow> (Inl e, c, s')
   | (Inr topo, s') \<Rightarrow> (Inr (), store_topology topo (tp_version topo) c, s'))"

text \<open>\<open>Dial\<close> once the connection is set up: an empty client that has tried to fetch the topology.\<close>

definition Dial :: "'r remote \<Rightarrow> 'r \<Rightarrow> Client \<times> 'r" where
  "Dial R s = snd (refreshTopology R (\<lparr>ct_topo = None, ct_topoVer = 0\<rparr>, s))"

text \<open>The body of \<open>WatchTopology\<close> for one event of the stream.\<close>

definition watch_event :: "int \<Rightarrow> Topology option \<Rightarrow> Client \<Rightarrow> Client" where
  "watch_event v topo c = (case topo of None \<Rightarrow> c | Some t \<Rightarrow> store_topology t v c)"

text \<open>\<open>WatchTopology\<close>: the stream is opened or not, and its events are applied until it ends.\<close>

definition WatchTopology :: "code option \<Rightarrow> (int \<times> Topology option) list \<Rightarrow> Client \<Rightarrow> code option \<times> Client" where
  "WatchTopology opened events c = (case opened of Some e \<Rightarrow> (Some e, c)
     | None \<Rightarrow> (None, fold (\<lambda>(v, topo). watch_event v topo) events c))"

definition TopologyVersion :: "Client \<Rightarrow> int" where
  "TopologyVersion c = ct_topoVer c"

definition write_of_response :: "ResolveWriteResponse \<Rightarrow> WriteResult" where
  "write_of_response res =
    \<lparr>wres_routing = rw_routing res, wres_bucket = rw_bucket res, wres_reason = rw_reason res, wres_shard = rw_shard res,
     wres_uuid = rw_uuid res, wres_endpoint = rw_endpoint res, wres_state = state_of_string (rw_state res)\<rparr>"

definition read_of_response :: "ResolveReadResponse \<Rightarrow> ReadResult" where
  "read_of_response res =
    \<lparr>rres_routing = rr_routing res, rres_bucket = rr_bucket res, rres_reason = rr_reason res,
     rres_shards = map (\<lambda>sh. \<lparr>rs_shard = prs_shard sh, rs_uuid = prs_uuid sh, rs_endpoint = prs_endpoint sh,
       rs_state = state_of_string (prs_state sh)\<rparr>) (rr_shards res)\<rparr>"

definition refresh_if_unavailable :: "'r remote \<Rightarrow> code \<Rightarrow> Client \<times> 'r \<Rightarrow> Client \<times> 'r" where
  "refresh_if_unavailable R e cs = (if e = Unavailable then snd (refreshTopology R cs) else cs)"

definition ClientResolveWrite :: "golib \<Rightarrow> 'r remote \<Rightarrow> gtime \<Rightarrow> shard_key \<Rightarrow> Client \<times> 'r \<Rightarrow>
    (cerr + WriteResult) \<times> Client \<times> 'r" where
  "ClientResolveWrite L R now shardKey = (\<lambda>(c, s). case tryResolveWriteLocal L now (ct_topo c) shardKey of
     Some res \<Rightarrow> (Inr res, c, s)
   | None \<Rightarrow> (case rm_value R shardKey of None \<Rightarrow> (Inl (ClientError (ErrMsg ''invalid value'')), c, s)
      | Some v \<Rightarrow> (case rm_write R v s of
          (Inl e, s') \<Rightarrow> (Inl (RpcError e), refresh_if_unavailable R e (c, s'))
        | (Inr res, s') \<Rightarrow> (Inr (write_of_response res), c, s'))))"

definition ClientResolveRead :: "golib \<Rightarrow> 'r remote \<Rightarrow> gtime \<Rightarrow> shard_key \<Rightarrow> Client \<times> 'r \<Rightarrow>
    (cerr + ReadResult) \<times> Client \<times> 'r" where
  "ClientResolveRead L R now shardKey = (\<lambda>(c, s). case tryResolveReadLocal L now (ct_topo c) shardKey of
     Some res \<Rightarrow> (Inr res, c, s)
   | None \<Rightarrow> (case rm_value R shardKey of None \<Rightarrow> (Inl (ClientError (ErrMsg ''invalid value'')), c, s)
      | Some v \<Rightarrow> (case rm_read R v s of
          (Inl e, s') \<Rightarrow> (Inl (RpcError e), refresh_if_unavailable R e (c, s'))
        | (Inr res, s') \<Rightarrow> (Inr (read_of_response res), c, s'))))"

text \<open>The endpoints that \<open>ScatterQuery\<close> contacts; without any it returns an error.\<close>

definition scatter_endpoints :: "Client \<Rightarrow> string list \<Rightarrow> (string list) res" where
  "scatter_endpoints c endpoints =
    (let eps = (if endpoints \<noteq> [] then endpoints
       else case ct_topo c of None \<Rightarrow> []
       | Some t \<Rightarrow> map (\<lambda>sh. if ps_advertise sh = [] then ps_dsn sh else ps_advertise sh)
           (filter (\<lambda>sh. ps_role sh = ''data'' \<and> ps_state sh = ''active'') (tp_shards t))) in
     if eps = [] then Inl (ErrMsg ''no endpoints'') else Inr eps)"

text \<open>
  \<open>ScatterQuery\<close>: the callbacks run concurrently, and \<open>run\<close> gives their results in the order in which they
  end; the group of goroutines returns the first error.
\<close>

definition first_error :: "goerr option list \<Rightarrow> goerr option" where
  "first_error rs = (case filter (\<lambda>r. r \<noteq> None) rs of [] \<Rightarrow> None | r # _ \<Rightarrow> r)"

definition ScatterQuery :: "Client \<Rightarrow> string list \<Rightarrow> (string list \<Rightarrow> goerr option list) option \<Rightarrow> goerr option" where
  "ScatterQuery c endpoints fn = (case fn of None \<Rightarrow> Some (ErrMsg ''fn required'')
     | Some run \<Rightarrow> (case scatter_endpoints c endpoints of Inl e \<Rightarrow> Some e | Inr eps \<Rightarrow> first_error (run eps)))"

definition refresh_after :: "'r remote \<Rightarrow> (code + 'a) \<times> 'r \<Rightarrow> Client \<Rightarrow> (code + 'a) \<times> Client \<times> 'r" where
  "refresh_after R r c = (case r of (Inl e, s) \<Rightarrow> (Inl e, c, s)
     | (Inr x, s) \<Rightarrow> (Inr x, snd (refreshTopology R (c, s))))"

definition ClientBootstrap :: "'r remote \<Rightarrow> BootstrapRequest \<Rightarrow> Client \<times> 'r \<Rightarrow> (code + string \<times> int) \<times> Client \<times> 'r" where
  "ClientBootstrap R req = (\<lambda>(c, s). refresh_after R (rm_bootstrap R req s) c)"

definition ClientRegisterShard :: "'r remote \<Rightarrow> RegisterShardRequest \<Rightarrow> Client \<times> 'r \<Rightarrow> (code + PShard) \<times> Client \<times> 'r" where
  "ClientRegisterShard R req = (\<lambda>(c, s). refresh_after R (rm_register R req s) c)"

definition ClientSealRotate :: "'r remote \<Rightarrow> string \<Rightarrow> Client \<times> 'r \<Rightarrow> (code + unit) \<times> Client \<times> 'r" where
  "ClientSealRotate R b = (\<lambda>(c, s). (case refresh_after R (rm_seal R b s) c of (r, cs) \<Rightarrow> (map_sum id (\<lambda>_. ()) r, cs)))"

text \<open>The connection to the modelled server: a transport that delivers, with the client's key in the header.\<close>

definition adminCtx :: "string \<Rightarrow> metadata" where
  "adminCtx clusterKey = (if clusterKey = [] then Some [] else Some [clusterKey])"

definition server_remote :: "Server \<Rightarrow> string \<Rightarrow> (shard_key \<Rightarrow> shard_key option) \<Rightarrow> gtime \<Rightarrow> srv remote" where
  "server_remote gs key conv now = \<lparr>rm_value = conv, rm_get = GetTopology gs, rm_write = (\<lambda>k. Write gs now (Some k)),
     rm_read = (\<lambda>k. Read gs now (Some k)), rm_bootstrap = BootstrapCluster gs (adminCtx key),
     rm_register = AdminRegisterShard gs (adminCtx key), rm_seal = AdminSealRotate gs (adminCtx key)\<rparr>"

section \<open>Local resolution agrees with the store\<close>

text \<open>A cached shard and the stored row that a router cannot tell from it.\<close>

definition shows_row :: "uuidlib \<Rightarrow> PShard \<Rightarrow> Shard \<Rightarrow> bool" where
  "shows_row U p sh \<longleftrightarrow> ps_id p = sh_id sh \<and> ps_uuid p = uuid_String U (sh_uuid sh) \<and> ps_role p = role_string (sh_role sh) \<and>
     ps_bucket p = opt_str (sh_bucket sh) \<and> ps_state p = state_string (sh_state sh) \<and> ps_dsn p = sh_dsn sh \<and>
     ps_advertise p = opt_str (sh_advertise sh)"

lemma proto_view_mem:
  assumes "distinct (map ps_id shards)" and "p \<in> set shards"
  shows "proto_view shards (ps_id p) = Some (ps_uuid p, ps_role p, ps_bucket p, ps_state p, ps_dsn p, ps_advertise p)"
  unfolding proto_view_def using assms by (intro map_of_is_SomeI) (auto simp: o_def)

lemma proto_view_row:
  assumes "distinct (map ps_id shards)" and "proto_view shards = proto_view (map (shardToProto U) rows)" and "p \<in> set shards"
  shows "\<exists>sh \<in> set rows. shows_row U p sh"
proof -
  have "proto_view (map (shardToProto U) rows) (ps_id p) = Some (ps_uuid p, ps_role p, ps_bucket p, ps_state p, ps_dsn p, ps_advertise p)"
    using proto_view_mem [OF assms(1,3)] assms(2) by simp
  then show ?thesis
    unfolding proto_view_def by (auto dest!: map_of_SomeD simp: shows_row_def shardToProto_def)
qed

lemma known_row:
  assumes "db_constraints d" and "sh \<in> set (db_shards d)"
  shows "role_of_string (role_string (sh_role sh)) = sh_role sh" and "state_of_string (state_string (sh_state sh)) = sh_state sh"
proof -
  have "shard_row_ok sh" using assms by (auto simp: db_constraints_def list_all_iff)
  then show "role_of_string (role_string (sh_role sh)) = sh_role sh" "state_of_string (state_string (sh_state sh)) = sh_state sh"
    using known_canonical by (simp_all add: shard_row_ok_def state_canonical_def role_canonical_def)
qed

lemma shardEndpoint_row: "shows_row U p sh \<Longrightarrow> shardEndpoint p = Endpoint sh"
  by (auto simp: shows_row_def shardEndpoint_def Endpoint_def opt_str_def split: option.splits)

lemma local_write_row:
  assumes "db_constraints d" and "sh \<in> set (db_shards d)" and "shows_row U p sh"
  shows "local_write kind b reason p = write_result U kind b reason sh"
  using known_row(2) [OF assms(1,2)] assms(3) shardEndpoint_row [OF assms(3)]
  by (simp add: local_write_def write_result_def shows_row_def)

lemma ID_nonempty: "ID L s k = Inr b \<Longrightarrow> b \<noteq> []"
  by (auto simp: ID_def hash_bucket_id_def timeID_def layout_hour_def layout_day_def layout_month_def time_Format_Cons
      split: Axis.splits sum.splits if_splits TimeUnit.splits)

lemma ClassifyWrite_bucket_nonempty:
  assumes "ClassifyWrite L s now k depth future = Inr route" and "wr_kind route = RouteBucket"
  shows "wr_bucket route \<noteq> []"
  using assms ID_nonempty [of L s k]
  by (auto simp: ClassifyWrite_def route_by_index_def bucket_route_def error_route_def Let_def split: sum.splits if_splits goerr.splits)

text \<open>The configuration of a snapshot is the server's.\<close>

lemma buildTopology_config:
  assumes "rely (db_steps UNIV) (w_orc (sv_world s))" and "db_constraints (w_db (sv_world s))" and "cache_ok (sv_world s)"
    and "buildTopology gs s = (Inr topo, s')" and "tp_config topo = Some pc"
  shows "\<exists>cfg. w_cache (sv_world s') = Some cfg \<and> pc = config_proto cfg \<and>
    ParseSpec (cc_axis cfg) (cc_raw cfg) = Inr (cc_spec cfg) \<and> int32_opt (cc_retention cfg) \<and> int32_opt (cc_future cfg)"
proof -
  let ?S = "gs_store gs"
  obtain rv w1 rc w2 rows where b: "GetTopologyVersion ?S (sv_world s) = (rv, w1)" "GetConfig ?S w1 = (rc, w2)"
      "ListShards ?S w2 = (Inr rows, sv_world s')"
      "tp_config topo = map_option config_proto (case rc of Inl _ \<Rightarrow> None | Inr cfg \<Rightarrow> Some cfg)"
    by (rule buildTopology_steps [OF assms(4)]) auto
  obtain cfg where rc: "rc = Inr cfg" "pc = config_proto cfg" using b(4) assms(5) by (cases rc) auto
  have m1: "moves UNIV (sv_world s) w1" using keepsD [OF keeps_GetTopologyVersion assms(1), of ?S] b(1) by simp
  then have 1: "rely (db_steps UNIV) (w_orc w1)" "db_constraints (w_db w1)" using assms(1,2) by (simp_all add: moves_def db_steps_def)
  have "same_cache (GetTopologyVersion ?S)"
    unfolding GetTopologyVersion_def by (intro cache_rules) (auto intro: cache_rules split: option.split)
  then have c1: "cache_ok w1" using cache_ok_moves [OF m1 assms(2,3)] same_cacheD b(1) by blast
  have m2: "moves UNIV w1 w2" using keepsD [OF keeps_GetConfig 1(1), of ?S] b(2) by simp
  then have d2: "db_constraints (w_db w2)" using 1(2) by (simp add: moves_def db_steps_def)
  have c2: "cache_ok w2" "w_cache w2 = Some cfg" using cache_ok_GetConfig [OF 1 c1, of ?S] GetConfig_Inr [of ?S w1 cfg w2] b(2) rc by simp_all
  then have "ParseSpec (cc_axis cfg) (cc_raw cfg) = Inr (cc_spec cfg)" "int32_opt (cc_retention cfg)" "int32_opt (cc_future cfg)"
    using d2 by (auto simp: cache_ok_def db_constraints_def config_row_ok_def)
  moreover have "w_cache (sv_world s') = Some cfg"
    using same_cacheD [OF same_cache_basic(4) b(3) [unfolded ListShards_def]] c2(2) by simp
  ultimately show ?thesis using rc(2) by blast
qed

lemma clusterConfig_roundtrip:
  assumes "ParseSpec (cc_axis cfg) (cc_raw cfg) = Inr (cc_spec cfg)" and "int32_opt (cc_retention cfg)" and "int32_opt (cc_future cfg)"
  shows "clusterConfigFromProto (Some (config_proto cfg)) =
    Inr \<lparr>lc_spec = cc_spec cfg, lc_retention = cc_retention cfg, lc_future = cc_future cfg\<rparr>"
proof -
  have "axis_of_string (axis_string (cc_axis cfg)) = cc_axis cfg"
  proof (cases "cc_axis cfg")
    case (AxisOther a)
    then have False using assms(1) by (cases "unmarshal_members (cc_raw cfg)") (simp_all add: ParseSpec_def Let_def split: if_splits)
    then show ?thesis ..
  qed (simp_all add: axis_of_string_def)
  moreover have "map_option wrap32 v = v" if "int32_opt v" for v
    using that by (cases v) (simp_all add: int32_opt_def wrap32_id)
  ultimately show ?thesis using assms by (simp add: clusterConfigFromProto_def config_proto_def)
qed

lemma snapshot_ids:
  assumes "db_constraints d" and "shards = map (shardToProto U) (sort_key sh_id (db_shards d))"
  shows "distinct (map ps_id shards)"
proof -
  have "map ps_id shards = map sh_id (sort_key sh_id (db_shards d))" by (simp add: assms(2) shardToProto_def)
  moreover have "mset (map sh_id (sort_key sh_id (db_shards d))) = mset (map sh_id (db_shards d))" by simp
  ultimately show ?thesis
    using db_constraintsD(1) [OF assms(1)] mset_eq_imp_distinct_iff by (metis key_unique_def)
qed

text \<open>
  C14: local resolution is as good as the server's. While the stored topology version is the one of
  the client's snapshot, a write resolved from the cache names the shard that is stored as the
  active data shard of the key's bucket, or the stored error shard, with its endpoint and state,
  for the classification that the server itself makes: what \<open>ResolveWrite\<close> promises.
\<close>

theorem local_write_current:
  assumes "rely (db_steps UNIV) (w_orc (sv_world s))" and "db_constraints (w_db (sv_world s))" and "cache_ok (sv_world s)"
    and "buildTopology gs s = (Inr topo, s')" and "0 < tp_version topo"
    and "db_steps UNIV (w_db (sv_world s')) d" and "db_config d = Some r" and "cr_version r = tp_version topo"
    and "tryResolveWriteLocal L now (Some topo) k = Some res"
  shows "\<exists>cfg route sh. w_cache (sv_world s') = Some cfg \<and> sh \<in> set (db_shards d) \<and>
    ClassifyWrite L (cc_spec cfg) now k (opt_int (cc_retention cfg)) (opt_int (cc_future cfg)) = Inr route \<and>
    (if wr_kind route = RouteError
     then sh_role sh = RoleError \<and> res = write_result (gs_uuid gs) RouteError ErrorBucketID (wr_reason route) sh
     else data_in StateActive (wr_bucket route) sh \<and>
       res = write_result (gs_uuid gs) RouteBucket (wr_bucket route) ReasonNone sh)"
proof -
  let ?U = "gs_uuid gs"
  obtain w1 where m: "moves UNIV (sv_world s) w1" "moves UNIV w1 (sv_world s')"
    and rows: "tp_shards topo = map (shardToProto ?U) (sort_key sh_id (db_shards (w_db (sv_world s'))))"
    using buildTopology_reads [OF assms(1,4,5)] by metis
  have ok': "db_constraints (w_db (sv_world s'))" using m assms(2) by (simp add: moves_def db_steps_def)
  have ok: "db_constraints d" using ok' assms(6) by (simp add: db_steps_def)
  note view = snapshot_current [OF assms(1,2,4-8)]
  note row = proto_view_row [OF snapshot_ids [OF ok' rows] view]
  obtain pc where pc: "tp_config topo = Some pc" using assms(9) by (auto simp: tryResolveWriteLocal_def split: if_splits)
  obtain cfg where cfg: "w_cache (sv_world s') = Some cfg" "pc = config_proto cfg"
      "ParseSpec (cc_axis cfg) (cc_raw cfg) = Inr (cc_spec cfg)" "int32_opt (cc_retention cfg)" "int32_opt (cc_future cfg)"
    using buildTopology_config [OF assms(1-4) pc] by blast
  obtain route where route: "ClassifyWrite L (cc_spec cfg) now k (opt_int (cc_retention cfg)) (opt_int (cc_future cfg)) = Inr route"
    and res: "(if wr_kind route = RouteError then map_option (local_write RouteError ErrorBucketID (wr_reason route)) (findErrorShard (tp_shards topo))
      else map_option (local_write RouteBucket (wr_bucket route) ReasonNone) (findActiveForBucket (tp_shards topo) (wr_bucket route))) = Some res"
    using assms(9) pc cfg(2) clusterConfig_roundtrip [OF cfg(3-5)]
    by (auto simp: tryResolveWriteLocal_def retentionArgs_def split: sum.splits)
  show ?thesis
  proof (cases "wr_kind route = RouteError")
    case True
    then obtain p where p: "p \<in> set (tp_shards topo)" "ps_role p = role_string RoleError"
        "res = local_write RouteError ErrorBucketID (wr_reason route) p"
      using res by (auto simp: findErrorShard_def find_Some_iff in_set_conv_nth)
    then obtain sh where sh: "sh \<in> set (db_shards d)" "shows_row ?U p sh" using row by blast
    have "sh_role sh = RoleError"
      using known_row(1) [OF ok sh(1)] sh(2) p(2) by (simp add: shows_row_def role_string_def role_of_string_def)
    then show ?thesis using cfg(1) route True sh(1) p(3) local_write_row [OF ok sh] by auto
  next
    case False
    then obtain p where p: "p \<in> set (tp_shards topo)" "ps_role p = role_string RoleData" "ps_state p = state_string StateActive"
        "ps_bucket p = wr_bucket route" "res = local_write RouteBucket (wr_bucket route) ReasonNone p"
      using res by (auto simp: findActiveForBucket_def find_Some_iff in_set_conv_nth)
    then obtain sh where sh: "sh \<in> set (db_shards d)" "shows_row ?U p sh" using row by blast
    have "sh_role sh = RoleData" "sh_state sh = StateActive"
      using known_row [OF ok sh(1)] sh(2) p(2,3)
      by (simp_all add: shows_row_def role_string_def role_of_string_def state_string_def state_of_string_def)
    moreover have "sh_bucket sh = Some (wr_bucket route)"
      using sh(2) p(4) ClassifyWrite_bucket_nonempty [OF route] False
      by (cases "wr_kind route"; cases "sh_bucket sh") (auto simp: shows_row_def opt_str_def)
    ultimately show ?thesis using cfg(1) route False sh(1) p(5) local_write_row [OF ok sh] by (auto simp: data_in_def)
  qed
qed

theorem local_write_current_witness:
  "\<exists>topo s' res sh. buildTopology demo_server (demo_srv demo_db) = (Inr topo, s') \<and>
     tryResolveWriteLocal demo_lib 0 (Some topo) (KInt64 7) = Some res \<and>
     sh \<in> set (db_shards demo_db) \<and> data_in StateActive ''n0'' sh \<and> res = write_result demo_uuid RouteBucket ''n0'' ReasonNone sh"
proof -
  let ?b = "buildTopology demo_server (demo_srv demo_db)"
  have "(case ?b of (Inl _, _) \<Rightarrow> False | (Inr t, s) \<Rightarrow> tp_version t = 7 \<and> w_db (sv_world s) = demo_db \<and>
      w_cache (sv_world s) = Some (demo_config\<lparr>cc_raw := cr_spec (the (db_config demo_db))\<rparr>) \<and>
      tryResolveWriteLocal demo_lib 0 (Some t) (KInt64 7) \<noteq> None)" by code_simp
  then obtain topo s' res where t: "?b = (Inr topo, s')" "tp_version topo = 7" "w_db (sv_world s') = demo_db"
      "w_cache (sv_world s') = Some (demo_config\<lparr>cc_raw := cr_spec (the (db_config demo_db))\<rparr>)"
      "tryResolveWriteLocal demo_lib 0 (Some topo) (KInt64 7) = Some res"
    by (auto split: prod.splits sum.splits)
  have q: "rely (db_steps UNIV) (w_orc (sv_world (demo_srv demo_db)))" by (simp add: demo_srv_def quiet_rely)
  have c: "cache_ok (sv_world (demo_srv demo_db))" by (simp add: demo_srv_def demo_world_def cache_ok_def)
  have d: "db_constraints (w_db (sv_world (demo_srv demo_db)))" by (simp add: demo_srv_def demo_db_constraints)
  have cl: "ClassifyWrite demo_lib demo_numeric 0 (KInt64 7) (opt_int None) (opt_int None) = Inr (bucket_route ''n0'')"
    by code_simp
  have v: "0 < tp_version topo" "cr_version (the (db_config demo_db)) = tp_version topo" "db_config demo_db = Some (the (db_config demo_db))"
    using t(2) by (simp_all add: demo_db_def)
  have s: "db_steps UNIV (w_db (sv_world s')) demo_db" using t(3) by (simp add: contract.G_refl)
  show ?thesis
    using local_write_current [OF q d c t(1) v(1) s v(3,2) t(5)] t cl
    by (auto simp: demo_config_def bucket_route_def demo_server_def)
qed

section \<open>Where the client and the server disagree\<close>

lemma quiet_snapshot:
  assumes "healthy (gs_store gs) (w_orc (sv_world s))" and "buildTopology gs s = (Inr topo, s')"
  shows "w_db (sv_world s') = w_db (sv_world s)" and "w_orc (sv_world s') = w_orc (sv_world s)"
    and "tp_shards topo = map (shardToProto (gs_uuid gs)) (sort_key sh_id (db_shards (w_db (sv_world s))))"
    and "w_cache (sv_world s) = Some cfg \<Longrightarrow> w_cache (sv_world s') = Some cfg \<and> tp_config topo = Some (config_proto cfg)"
proof -
  let ?S = "gs_store gs"
  obtain rv w1 rc w2 rows where b: "GetTopologyVersion ?S (sv_world s) = (rv, w1)" "GetConfig ?S w1 = (rc, w2)"
      "ListShards ?S w2 = (Inr rows, sv_world s')"
      "topo = \<lparr>tp_version = tp_version topo, tp_config = map_option config_proto (case rc of Inl _ \<Rightarrow> None | Inr cfg \<Rightarrow> Some cfg),
        tp_shards = map (shardToProto (gs_uuid gs)) rows\<rparr>"
    by (rule buildTopology_steps [OF assms(2)]) auto
  have ro: "reads_only (GetTopologyVersion ?S)"
    unfolding GetTopologyVersion_def by (intro read_rules) (auto intro: read_rules split: option.split)
  have sc: "same_cache (GetTopologyVersion ?S)" "same_cache (ListShards ?S)"
    unfolding GetTopologyVersion_def ListShards_def by (intro cache_rules; auto intro: cache_rules split: option.split)+
  note q = healthyD(1) [OF assms(1)]
  have 1: "w_db w1 = w_db (sv_world s)" "w_orc w1 = w_orc (sv_world s)" using reads_onlyD [OF ro q b(1)] by simp_all
  have 2: "w_db w2 = w_db (sv_world s)" "w_orc w2 = w_orc (sv_world s)"
    using reads_onlyD [OF reads_only_GetConfig _ b(2)] q 1 by simp_all
  show 3: "w_db (sv_world s') = w_db (sv_world s)" "w_orc (sv_world s') = w_orc (sv_world s)"
    using reads_onlyD [OF reads_only_queries(1) _ b(3)] q 2 by simp_all
  have "tp_shards topo = map (shardToProto (gs_uuid gs)) rows" using b(4) by (metis Topology.select_convs(3))
  then show "tp_shards topo = map (shardToProto (gs_uuid gs)) (sort_key sh_id (db_shards (w_db (sv_world s))))"
    using ListShards_reads [OF b(3)] 3 by simp
  assume c: "w_cache (sv_world s) = Some cfg"
  have "w_cache w1 = Some cfg" using same_cacheD [OF sc(1) b(1)] c by simp
  then have "rc = Inr cfg" "w_cache w2 = Some cfg" using b(2) by (auto simp: GetConfig_def)
  moreover have "tp_config topo = map_option config_proto (case rc of Inl _ \<Rightarrow> None | Inr cfg \<Rightarrow> Some cfg)"
    using b(4) by (metis Topology.select_convs(2))
  ultimately show "w_cache (sv_world s') = Some cfg \<and> tp_config topo = Some (config_proto cfg)"
    using same_cacheD [OF sc(2) b(3)] by simp
qed

lemma findActive_snapshot:
  assumes "db_constraints d" and "cur \<in> set (db_shards d)" and "data_in StateActive b cur" and "b \<noteq> []"
  shows "findActiveForBucket (map (shardToProto U) (sort_key sh_id (db_shards d))) b = Some (shardToProto U cur)"
proof -
  let ?shards = "map (shardToProto U) (sort_key sh_id (db_shards d))"
  let ?P = "\<lambda>p. ps_role p = role_string RoleData \<and> ps_state p = state_string StateActive \<and> ps_bucket p = b"
  have "shardToProto U cur \<in> set ?shards" using assms(2) by simp
  moreover have "?P (shardToProto U cur)" using assms(3) by (simp add: shardToProto_def data_in_def opt_str_def)
  ultimately obtain p where p: "find ?P ?shards = Some p" by (cases "find ?P ?shards") (auto simp: find_None_iff)
  then have "p \<in> set ?shards" "?P p" by (metis (mono_tags, lifting) find_Some_iff nth_mem)+
  then obtain sh where sh: "sh \<in> set (db_shards d)" "p = shardToProto U sh" by auto
  have "data_in StateActive b sh"
    using \<open>?P p\<close> sh(2) known_row [OF assms(1) sh(1)] assms(4)
    by (cases "sh_bucket sh") (simp_all add: shardToProto_def data_in_def opt_str_def role_string_def role_of_string_def
        state_string_def state_of_string_def)
  then have "sh = cur" using active_unique [OF assms(1) sh(1) assms(2) _ assms(3)] by blast
  then show ?thesis using p sh(2) by (simp add: findActiveForBucket_def)
qed

text \<open>
  C37: local resolution does not see heartbeats. On a snapshot of a cluster whose active shard of a bucket
  went silent, the client keeps resolving writes to the silent shard from its cache, where the server
  would seal it and resolve the same write to a standby shard.
\<close>

theorem local_resolve_misses_failover:
  assumes "healthy (gs_store gs) (w_orc (sv_world s))" and "db_constraints (w_db (sv_world s))" and "db_room (w_db (sv_world s))"
    and "cache_ok (sv_world s)" and "w_cache (sv_world s) = Some cfg"
    and "ClassifyWrite L (cc_spec cfg) now k (opt_int (cc_retention cfg)) (opt_int (cc_future cfg)) = Inr (bucket_route b)"
    and "cur \<in> set (db_shards (w_db (sv_world s)))" and "data_in StateActive b cur"
    and "stale_throughout (gs_store gs) (w_orc (sv_world s)) cur"
    and "next_standby (db_shards (w_db (sv_world s))) = Some sb" and "buildTopology gs s = (Inr topo, s')"
  shows "\<exists>res res' w'. tryResolveWriteLocal L now (Some topo) k = Some res \<and> wres_shard res = sh_id cur \<and>
    ResolveWrite L (gs_uuid gs) (gs_store gs) now k (sv_world s') = (Inr res', w') \<and> wres_shard res' = sh_id sb \<and> sh_id sb \<noteq> sh_id cur"
proof -
  note q = quiet_snapshot [OF assms(1,11)]
  have cfg: "w_cache (sv_world s') = Some cfg" "tp_config topo = Some (config_proto cfg)" using q(4) assms(5) by auto
  have ne: "b \<noteq> []" using ClassifyWrite_bucket_nonempty [OF assms(6)] by (simp add: bucket_route_def)
  have "clusterConfigFromProto (Some (config_proto cfg)) = Inr \<lparr>lc_spec = cc_spec cfg, lc_retention = cc_retention cfg, lc_future = cc_future cfg\<rparr>"
    using assms(2,4,5) by (intro clusterConfig_roundtrip) (auto simp: cache_ok_def db_constraints_def config_row_ok_def)
  then have 1: "tryResolveWriteLocal L now (Some topo) k = Some (local_write RouteBucket b ReasonNone (shardToProto (gs_uuid gs) cur))"
    using cfg(2) assms(6) findActive_snapshot [OF assms(2,7,8) ne] q(3)
    by (simp add: tryResolveWriteLocal_def retentionArgs_def bucket_route_def)
  obtain w' t where 2: "ensureActive (gs_store gs) b (sv_world s') = (Inr (promote_row b t sb), w')"
    using failover_ensureActive [of "gs_store gs" "sv_world s'" cur b sb] assms q by auto
  have "sb \<in> set (db_shards (w_db (sv_world s)))" "pool_row sb" using next_standby_Some [OF assms(10)] by auto
  then have "sh_id sb \<noteq> sh_id cur"
    using key_unique_eq [OF db_constraintsD(1) [OF assms(2)] _ assms(7), of sb] assms(8) by (auto simp: pool_row_def data_in_def)
  then show ?thesis
    using 1 2 cfg(1) assms(6)
    by (simp add: ResolveWrite_def bind_io_def catch_io_def GetConfig_def return_io_def bucket_route_def local_write_def
        shardToProto_def write_result_def promote_row_def)
qed

definition stale_srv :: srv where
  "stale_srv = \<lparr>sv_world = stale_world, sv_bcast = Some NewBroadcast\<rparr>"

theorem local_resolve_misses_failover_witness:
  "\<exists>topo s' res res' w'. buildTopology demo_server stale_srv = (Inr topo, s') \<and>
     tryResolveWriteLocal demo_lib 0 (Some topo) (KInt64 7) = Some res \<and> wres_shard res = 1 \<and>
     ResolveWrite demo_lib demo_uuid demo_store 0 (KInt64 7) (sv_world s') = (Inr res', w') \<and> wres_shard res' = 2"
proof -
  have "case buildTopology demo_server stale_srv of (Inl _, _) \<Rightarrow> False | _ \<Rightarrow> True" by code_simp
  then obtain topo s' where t: "buildTopology demo_server stale_srv = (Inr topo, s')" by (auto split: prod.splits sum.splits)
  have c: "cache_ok stale_world"
    by (simp add: cache_ok_def stale_world_def demo_config_def demo_db_def demo_numeric_parse)
  have gs: "gs_store demo_server = demo_store" "gs_uuid demo_server = demo_uuid" "sv_world stale_srv = stale_world"
    by (simp_all add: demo_server_def stale_srv_def)
  have ids: "sh_id stale_shard = 1" "sh_id (demo_shard 2 StateStandby None) = 2"
    by (simp_all add: stale_shard_def demo_shard_def new_row_def)
  show ?thesis
    using local_resolve_misses_failover [of demo_server stale_srv demo_config demo_lib 0 "KInt64 7" "''n0''" stale_shard
        "demo_shard 2 StateStandby None" topo s'] t c demo_healthy demo_classify
    unfolding gs stale_world_facts ids by (auto simp: stale_world_facts)
qed

lemma promote_exhausted:
  assumes "healthy S (w_orc w)" and "filter pool_row (db_shards (w_db w)) = []"
  shows "\<exists>w'. PromoteStandbyToActive S b w = (Inl ErrNotFound, w')"
proof -
  have n: "filter (\<lambda>sh. pool_row sh \<and> P sh) (db_shards (w_db w)) = []" for P
    using assms(2) by (auto simp: filter_empty_conv)
  define w0 where "w0 = w\<lparr>w_pc := Suc (w_pc w), w_aborted := False, w_now := sl_now (w_orc w (w_pc w))\<rparr>"
  have eq: "w\<lparr>w_pc := Suc (w_pc w), w_db := sl_other (w_orc w (w_pc w)) (w_db w), w_aborted := False,
      w_now := sl_now (w_orc w (w_pc w))\<rparr> = w0"
    using healthyD(5) [OF assms(1)] by (simp add: w0_def)
  have "healthy S (w_orc w0)" "\<not> w_aborted w0" "w_db w0 = w_db w" using assms(1) by (simp_all add: w0_def)
  then have "promote_tx S b w0 = (Inl ErrNotFound, w0\<lparr>w_pc := Suc (w_pc w0)\<rparr>)"
    by (simp add: promote_tx_def bind_io_def catch_io_def tx_stmt_healthy select_standby_def n fail_io_def)
  then show ?thesis
    using healthyD(2) [OF assms(1)]
    by (simp add: PromoteStandbyToActive_def run_tx_def bind_io_def catch_io_def Let_def eq fail_io_def)
qed

lemma ensureActive_exhausted:
  assumes h: "healthy S (w_orc w)" and "\<And>r. r \<in> set (db_shards (w_db w)) \<Longrightarrow> sh_bucket r \<noteq> Some b"
    and "filter pool_row (db_shards (w_db w)) = []"
  shows "\<exists>w'. ensureActive S b w = (Inl ErrNotFound, w')"
proof -
  have no: "\<not> data_in st b r" if "r \<in> set (db_shards (w_db w))" for st r using assms(2) [OF that] by (simp add: data_in_def)
  have q: "ActiveForBucket S b w1 = (Inl ErrNotFound, w1\<lparr>w_pc := Suc (w_pc w1)\<rparr>)"
    "StaleActiveForBucket S b w1 = (Inl ErrNotFound, w1\<lparr>w_pc := Suc (w_pc w1)\<rparr>)"
    "HasActiveInBucket S b w1 = (Inr False, w1\<lparr>w_pc := Suc (w_pc w1)\<rparr>)"
    if "w_orc w1 = w_orc w" "w_db w1 = w_db w" for w1
    using that h no unfolding ActiveForBucket_def StaleActiveForBucket_def
    by (auto intro!: no_row_healthy HasActive_healthy simp: writes_to_def)
  define w6 where "w6 = w\<lparr>w_pc := 6 + w_pc w\<rparr>"
  obtain w' where "PromoteStandbyToActive S b w6 = (Inl ErrNotFound, w')"
    using promote_exhausted [of S w6 b] h assms(3) by (auto simp: w6_def)
  then show ?thesis
    by (simp add: ensureActive_def failoverStaleActive_def AutoPromoteIfNoActive_def bind_io_def catch_io_def q return_io_def
        fail_io_def w6_def eval_nat_numeral)
qed

lemma read_exhausted:
  assumes "healthy S (w_orc w)" and "\<And>r. r \<in> set (db_shards (w_db w)) \<Longrightarrow> sh_bucket r \<noteq> Some b"
  shows "ShardsForBucketRead S b w = (Inr [], w\<lparr>w_pc := Suc (w_pc w)\<rparr>)"
  using assms by (simp add: ShardsForBucketRead_def pool_stmt_healthy select_by_id_def filter_False)

lemma ResolveRead_exhausted:
  assumes h: "healthy S (w_orc w)" and cfg: "w_cache w = Some cfg"
    and cl: "ClassifyRead L (cc_spec cfg) now k (opt_int (cc_retention cfg)) (opt_int (cc_future cfg)) = Inr (bucket_route b)"
    and no: "\<And>r. r \<in> set (db_shards (w_db w)) \<Longrightarrow> sh_bucket r \<noteq> Some b" and pool: "filter pool_row (db_shards (w_db w)) = []"
  shows "\<exists>w'. ResolveRead L U S now k w = (Inl ErrNotFound, w')"
proof -
  define w0 where "w0 = w\<lparr>w_pc := Suc (w_pc w)\<rparr>"
  have w0: "w_orc w0 = w_orc w" "w_db w0 = w_db w" by (simp_all add: w0_def)
  obtain w2 where w2: "ensureActive S b w0 = (Inl ErrNotFound, w2)"
    using ensureActive_exhausted [of S w0 b] h no pool unfolding w0 by blast
  have "ShardsForBucketRead S b w = (Inr [], w0)" using read_exhausted [OF h] no unfolding w0_def by blast
  then have "ResolveRead L U S now k w = (Inl ErrNotFound, w2)"
    using w2 cfg cl by (simp add: ResolveRead_def bind_io_def catch_io_def GetConfig_def fail_io_def bucket_route_def)
  then show ?thesis by blast
qed

text \<open>
  A read hides that the pool is exhausted. When a bucket has no shard and the pool is empty, a write
  ends with \<open>Unavailable\<close> and the client refreshes its topology, but a read ends with \<open>Internal\<close>, so
  that the client keeps the topology it has.
\<close>

lemma read_hides_exhaustion:
  assumes "healthy (gs_store gs) (w_orc (sv_world s))" and "w_cache (sv_world s) = Some cfg"
    and "ClassifyWrite (gs_lib gs) (cc_spec cfg) now k (opt_int (cc_retention cfg)) (opt_int (cc_future cfg)) = Inr (bucket_route b)"
    and "\<forall>r \<in> set (db_shards (w_db (sv_world s))). sh_bucket r \<noteq> Some b" and "filter pool_row (db_shards (w_db (sv_world s))) = []"
    and "ct_topo c = None" and "conv k = Some k"
  shows "\<exists>s1 s2. ClientResolveWrite (gs_lib gs) (server_remote gs key conv now) now k (c, s) =
      (Inl (RpcError Unavailable), snd (refreshTopology (server_remote gs key conv now) (c, s1))) \<and>
    ClientResolveRead (gs_lib gs) (server_remote gs key conv now) now k (c, s) = (Inl (RpcError Internal), c, s2)"
proof -
  let ?S = "gs_store gs" and ?w = "sv_world s"
  obtain w1 where w1: "ensureActive ?S b ?w = (Inl ErrNotFound, w1)"
    using ensureActive_exhausted [OF assms(1) _ assms(5)] assms(4) by blast
  have "ResolveWrite (gs_lib gs) (gs_uuid gs) ?S now k ?w = (Inl ErrNotFound, w1)"
    using w1 assms(2,3) by (simp add: ResolveWrite_def bind_io_def catch_io_def GetConfig_def fail_io_def bucket_route_def)
  then have w: "Write gs now (Some k) s = (Inl Unavailable, s\<lparr>sv_world := w1\<rparr>)"
    by (simp add: Write_def call_def on_store_def status_def)
  obtain w2 where "ResolveRead (gs_lib gs) (gs_uuid gs) ?S now k ?w = (Inl ErrNotFound, w2)"
    using ResolveRead_exhausted [OF assms(1,2) _ _ assms(5), of "gs_lib gs" now k b] assms(3,4) unfolding ClassifyRead_def by blast
  then have r: "Read gs now (Some k) s = (Inl Internal, s\<lparr>sv_world := w2\<rparr>)"
    by (simp add: Read_def call_def on_store_def status_def)
  show ?thesis
    using w r assms(6,7)
    by (simp add: ClientResolveWrite_def ClientResolveRead_def tryResolveWriteLocal_def tryResolveReadLocal_def server_remote_def
        refresh_if_unavailable_def) blast
qed

definition empty_client :: Client where
  "empty_client = \<lparr>ct_topo = None, ct_topoVer = 0\<rparr>"

definition bare_srv :: srv where
  "bare_srv = \<lparr>sv_world = (demo_world (demo_db\<lparr>db_shards := []\<rparr>))\<lparr>w_cache := Some demo_config\<rparr>, sv_bcast = None\<rparr>"

lemma read_hides_exhaustion_example:
  "\<exists>s1 s2. ClientResolveWrite demo_lib (server_remote demo_server [] Some 0) 0 (KInt64 7) (empty_client, bare_srv) =
      (Inl (RpcError Unavailable), snd (refreshTopology (server_remote demo_server [] Some 0) (empty_client, s1))) \<and>
    ClientResolveRead demo_lib (server_remote demo_server [] Some 0) 0 (KInt64 7) (empty_client, bare_srv) =
      (Inl (RpcError Internal), empty_client, s2)"
proof -
  have gs: "gs_lib demo_server = demo_lib" "gs_store demo_server = demo_store" by (simp_all add: demo_server_def)
  show ?thesis
    using read_hides_exhaustion [of demo_server bare_srv demo_config 0 "KInt64 7" "''n0''" empty_client Some "[]"]
      demo_healthy demo_classify
    unfolding gs by (simp add: bare_srv_def empty_client_def)
qed

end
