(* ===== verification/Agent.thy ===== *)
theory Agent
  imports Client Config
begin

text \<open>
  \<^verbatim>\<open>internal/agent/agent.go\<close> and the start of \<^verbatim>\<open>cmd/agent/main.go\<close>: the process beside a shard's database
  that reports its size and carries out drains and cleanings. The shard's database, reached through a
  third-party driver, is the record \<open>shard_conn\<close> over a state \<open>'d\<close>, its statements the datatype
  \<open>agent_sql\<close>; the server behind the connection is the record \<open>internal\<close> over a state \<open>'r\<close>.
\<close>

section \<open>The environment of the agent\<close>

datatype agent_sql =
    SizeOfRelations
  | SizeOfDatabase
  | TerminateOtherBackends
  | RevokeWritesFrom string
  | TruncateAllTables

record 'd shard_conn =
  sc_connect :: "string \<Rightarrow> 'd \<Rightarrow> unit res \<times> 'd"
  sc_query :: "agent_sql \<Rightarrow> 'd \<Rightarrow> int res \<times> 'd"
  sc_exec :: "agent_sql \<Rightarrow> 'd \<Rightarrow> unit res \<times> 'd"

record 'r internal =
  in_stats :: "metadata \<Rightarrow> string \<Rightarrow> int \<Rightarrow> 'r \<Rightarrow> (code + string \<times> string) \<times> 'r"
  in_drained :: "metadata \<Rightarrow> string \<Rightarrow> 'r \<Rightarrow> (code + string) \<times> 'r"
  in_cleaned :: "metadata \<Rightarrow> string \<Rightarrow> 'r \<Rightarrow> (code + string) \<times> 'r"

definition server_internal :: "Server \<Rightarrow> srv internal" where
  "server_internal gs = \<lparr>in_stats = ReportStats gs, in_drained = ReportDrainComplete gs, in_cleaned = ReportCleaned gs\<rparr>"

section \<open>One tick\<close>

definition quoteIdent :: "string \<Rightarrow> string" where
  "quoteIdent s = [CHR 0x22] @ s @ [CHR 0x22]"

definition MeasureSize :: "'d shard_conn \<Rightarrow> string \<Rightarrow> 'd \<Rightarrow> int res \<times> 'd" where
  "MeasureSize A source d = (if source = ''relations'' then sc_query A SizeOfRelations d else sc_query A SizeOfDatabase d)"

definition DrainShard :: "'d shard_conn \<Rightarrow> AgentConfig \<Rightarrow> 'd \<Rightarrow> unit res \<times> 'd" where
  "DrainShard A cfg d =
    (if ac_drain cfg = ''terminate'' then sc_exec A TerminateOtherBackends d
     else if ac_role cfg \<noteq> [] then sc_exec A (RevokeWritesFrom (quoteIdent (ac_role cfg))) d
     else (Inr (), d))"

definition CleanDatabase :: "'d shard_conn \<Rightarrow> 'd \<Rightarrow> unit res \<times> 'd" where
  "CleanDatabase A d = sc_exec A TruncateAllTables d"

definition agent_md :: "AgentConfig \<Rightarrow> metadata" where
  "agent_md cfg = (if ac_key cfg \<noteq> [] then Some [ac_key cfg] else Some [])"

definition rpc_error :: "(code + 'a) \<times> 'r \<Rightarrow> cerr option \<times> 'r" where
  "rpc_error r = (case r of (Inl e, s) \<Rightarrow> (Some (RpcError e), s) | (Inr _, s) \<Rightarrow> (None, s))"

definition agent_Tick :: "'d shard_conn \<Rightarrow> 'r internal \<Rightarrow> AgentConfig \<Rightarrow> 'd \<times> 'r \<Rightarrow> cerr option \<times> 'd \<times> 'r" where
  "agent_Tick A I cfg = (\<lambda>(d, r).
    case sc_connect A (ac_dsn cfg) d of (Inl e, d1) \<Rightarrow> (Some (ClientError e), d1, r)
    | (Inr _, d1) \<Rightarrow> (case MeasureSize A (ac_size cfg) d1 of (Inl e, d2) \<Rightarrow> (Some (ClientError e), d2, r)
    | (Inr sz, d2) \<Rightarrow> (case in_stats I (agent_md cfg) (ac_uuid cfg) sz r of (Inl e, r1) \<Rightarrow> (Some (RpcError e), d2, r1)
    | (Inr (_, state), r1) \<Rightarrow>
        if state = state_string StateDraining then
          (case DrainShard A cfg d2 of (Inl e, d3) \<Rightarrow> (Some (ClientError e), d3, r1)
           | (Inr _, d3) \<Rightarrow> (case rpc_error (in_drained I (agent_md cfg) (ac_uuid cfg) r1) of (e, r2) \<Rightarrow> (e, d3, r2)))
        else if state = state_string StateCleaning then
          (case CleanDatabase A d2 of (Inl e, d3) \<Rightarrow> (Some (ClientError e), d3, r1)
           | (Inr _, d3) \<Rightarrow> (case rpc_error (in_cleaned I (agent_md cfg) (ac_uuid cfg) r1) of (e, r2) \<Rightarrow> (e, d3, r2)))
        else (None, d2, r1))))"

section \<open>The process\<close>

text \<open>
  The argument \<open>dial\<close> stands for the set-up of
  tracing and of the connection to the coordinator, third-party code. A tick that fails is only logged.
\<close>

definition agent_start :: "(string \<Rightarrow> unit res) \<Rightarrow> environ \<Rightarrow> (AgentConfig \<times> int) res" where
  "agent_start dial env = (case LoadAgent env of Inl e \<Rightarrow> Inl e
     | Inr cfg \<Rightarrow> (case dial (ac_addr cfg) of Inl e \<Rightarrow> Inl e
     | Inr _ \<Rightarrow> (case NewTicker (ac_interval cfg) of Inl e \<Rightarrow> Inl e | Inr t \<Rightarrow> Inr (cfg, t))))"

fun agent_ticks :: "'d shard_conn \<Rightarrow> 'r internal \<Rightarrow> AgentConfig \<Rightarrow> nat \<Rightarrow> 'd \<times> 'r \<Rightarrow> 'd \<times> 'r" where
  "agent_ticks A I cfg 0 s = s"
| "agent_ticks A I cfg (Suc n) s = agent_ticks A I cfg n (snd (agent_Tick A I cfg s))"

definition agent_main :: "'d shard_conn \<Rightarrow> 'r internal \<Rightarrow> (string \<Rightarrow> unit res) \<Rightarrow> environ \<Rightarrow> nat \<Rightarrow> 'd \<times> 'r \<Rightarrow> ('d \<times> 'r) res" where
  "agent_main A I dial env n s = (case agent_start dial env of Inl e \<Rightarrow> Inl e
     | Inr (cfg, _) \<Rightarrow> Inr (agent_ticks A I cfg (Suc n) s))"

text \<open>
  An interval that is not positive stops the agent. The configuration is accepted for every
  duration that parses; the agent then starts exactly for the positive ones and panics for the
  others when it creates its ticker, where the workers of the server fall back to a default.
\<close>

lemma agent_interval_unchecked:
  assumes "env ''PG_DSN'' \<noteq> []" and "env ''SHARD_UUID'' \<noteq> []" and "env ''COORDINATOR_ADDR'' \<noteq> []" and "env ''SIZE_SOURCE'' = []"
    and "ParseDuration (env ''STATS_INTERVAL'') = Some d" and "is_ok (dial (env ''COORDINATOR_ADDR''))"
  shows "is_ok (LoadAgent env) \<and> (d \<le> 0 \<longrightarrow> agent_start dial env = Inl ErrPanic) \<and> (0 < d \<longrightarrow> is_ok (agent_start dial env))"
proof -
  have "env ''STATS_INTERVAL'' \<noteq> []" using assms(5) by (auto simp: ParseDuration_def)
  then have "ac_interval cfg = d \<and> ac_addr cfg = env ''COORDINATOR_ADDR''" if "LoadAgent env = Inr cfg" for cfg
    using that assms(3,5) by (auto simp: LoadAgent_def durationEnv_def getenv_def Let_def split: if_splits)
  moreover have "is_ok (LoadAgent env)" using assms(1-4) by (simp add: LoadAgent_def getenv_def Let_def)
  ultimately show ?thesis
    using assms(6) by (auto simp: agent_start_def NewTicker_def split: sum.splits)
qed

definition zero_env :: environ where
  "zero_env = (\<lambda>_. [])(''PG_DSN'' := ''x'', ''SHARD_UUID'' := ''u'', ''COORDINATOR_ADDR'' := ''a'', ''STATS_INTERVAL'' := ''0s'')"

lemma agent_interval_unchecked_example: "is_ok (LoadAgent zero_env) \<and> agent_start (\<lambda>_. Inr ()) zero_env = Inl ErrPanic"
proof -
  have "ParseDuration (zero_env ''STATS_INTERVAL'') = Some 0" by code_simp
  then show ?thesis using agent_interval_unchecked [of zero_env 0 "\<lambda>_. Inr ()"] by (auto simp: zero_env_def)
qed

section \<open>Recycling a shard\<close>

text \<open>
  The reports of the agent on a database that answers: the stats leave the row's state alone, the
  end of a cleaning returns the row to the pool.
\<close>

lemma checkKey_same: "k \<noteq> [] \<Longrightarrow> checkKey k k"
proof -
  have "collect_diff k k 0 = 0" by (induction k) simp_all
  then show "k \<noteq> [] \<Longrightarrow> checkKey k k" by (simp add: checkKey_def ConstantTimeCompare_def)
qed

lemma with_key_agent: "gs_key gs = ac_key cfg \<Longrightarrow> ac_key cfg \<noteq> [] \<Longrightarrow> with_key gs (agent_md cfg) h = h"
  by (simp add: with_key_def requireKey_def agent_md_def checkKey_same)

definition stats_world :: "uuid \<Rightarrow> int \<Rightarrow> world \<Rightarrow> world" where
  "stats_world u n w = w\<lparr>w_pc := Suc (w_pc w), w_db := (w_db w)\<lparr>db_shards :=
     sql_update (\<lambda>r. sh_uuid r = u) (stats_row n (sl_now (w_orc w (w_pc w)))) (db_shards (w_db w))\<rparr>\<rparr>"

lemma stats_constraints:
  assumes "db_constraints d"
  shows "db_constraints (d\<lparr>db_shards := sql_update P (stats_row n now) (db_shards d)\<rparr>)"
proof (rule db_constraints_update [OF assms])
  fix r assume "r \<in> set (db_shards d)"
  then show "shard_row_ok (stats_row n now r)"
    using db_constraintsD(5) [OF assms] by (auto simp: shard_row_ok_def stats_row_def list_all_iff)
next
  fix r r' assume r: "r \<in> set (db_shards d)" "r' \<in> set (db_shards d)" "active_row (stats_row n now r)"
    "active_row (if P r' then stats_row n now r' else r')"
    "sh_bucket (stats_row n now r) = sh_bucket (if P r' then stats_row n now r' else r')"
  then have "r \<in> set (filter active_row (db_shards d))" "r' \<in> set (filter active_row (db_shards d))" "sh_bucket r = sh_bucket r'"
    by (auto simp: stats_row_def active_row_def split: if_splits)
  then show "sh_id r = sh_id r'" using key_unique_eq [OF db_constraintsD(3) [OF assms]] by blast
qed (auto simp: stats_row_def)

lemma UpdateStats_healthy:
  assumes "healthy S (w_orc w)" and "db_constraints (w_db w)" and "sh \<in> set (db_shards (w_db w))"
  shows "UpdateStats S (sh_uuid sh) n w = (Inr (), stats_world (sh_uuid sh) n w)"
proof -
  have "int (sql_count (\<lambda>r. sh_uuid r = sh_uuid sh) (db_shards (w_db w))) \<noteq> 0" using assms(3) by (intro sql_count_pos) auto
  then show ?thesis
    using assms(1) stats_constraints [OF assms(2)]
    by (simp add: UpdateStats_def bind_io_def catch_io_def pool_stmt_healthy update_shards_def write_db_def return_io_def stats_world_def)
qed

lemma GetShardByUUID_healthy:
  assumes "healthy S (w_orc w)" and "db_constraints (w_db w)" and "sh \<in> set (db_shards (w_db w))"
  shows "GetShardByUUID S (sh_uuid sh) w = (Inr sh, w\<lparr>w_pc := Suc (w_pc w)\<rparr>)"
proof -
  have "first_row (filter (\<lambda>r. sh_uuid r = sh_uuid sh) (db_shards (w_db w))) = Some sh"
    using key_unique_eq [OF db_constraintsD(2) [OF assms(2)] _ assms(3)] assms(3) by (intro first_row_unique) auto
  then show ?thesis
    using assms(1) by (simp add: GetShardByUUID_def bind_io_def catch_io_def pool_stmt_healthy select_row_def
        row_or_not_found_def return_io_def)
qed

lemma notifyTopology_healthy:
  assumes "healthy S (w_orc (sv_world s))" and "hub_ok s"
  obtains s' where "notifyTopology S s = (Inr (), s')" and "w_db (sv_world s') = w_db (sv_world s)"
proof (cases "sv_bcast s")
  case None
  then show thesis by (intro that [of s]) (simp_all add: notifyTopology_def)
next
  case (Some b)
  show thesis using assms Some
    by (intro that [of "snd (notifyTopology S s)"])
       (auto simp: notifyTopology_def catch_io_def on_store_def GetTopologyVersion_def bind_io_def pool_stmt_healthy
         return_io_def fail_io_def broadcast_io_def hub_ok_def select_config_def Notify_ok split: option.splits prod.splits sum.splits)
qed

lemma ReportStats_healthy:
  assumes "healthy (gs_store gs) (w_orc (sv_world s))" and d: "db_constraints (w_db (sv_world s))"
    and "gs_key gs = ac_key cfg" and "ac_key cfg \<noteq> []" and "uuid_Parse (gs_uuid gs) (ac_uuid cfg) = Some (sh_uuid sh)"
    and sh: "sh \<in> set (db_shards (w_db (sv_world s)))"
  obtains s1 now where "ReportStats gs (agent_md cfg) (ac_uuid cfg) n s = (Inr (''ok'', state_string (sh_state sh)), s1)"
    and "w_orc (sv_world s1) = w_orc (sv_world s)" and "sv_bcast s1 = sv_bcast s"
    and "w_db (sv_world s1) = (w_db (sv_world s))\<lparr>db_shards :=
      sql_update (\<lambda>r. sh_uuid r = sh_uuid sh) (stats_row n now) (db_shards (w_db (sv_world s)))\<rparr>"
proof -
  define w where "w = sv_world s"
  define w1 where "w1 = stats_world (sh_uuid sh) n w"
  let ?now = "sl_now (w_orc w (w_pc w))"
  have w1: "w_orc w1 = w_orc w" "w_db w1 = (w_db w)\<lparr>db_shards :=
      sql_update (\<lambda>r. sh_uuid r = sh_uuid sh) (stats_row n ?now) (db_shards (w_db w))\<rparr>" by (simp_all add: w1_def stats_world_def)
  have "stats_row n ?now sh \<in> set (db_shards (w_db w1))"
    using sh by (auto simp: w1 w_def set_sql_update intro: rev_image_eqI)
  then have "GetShardByUUID (gs_store gs) (sh_uuid sh) w1 = (Inr (stats_row n ?now sh), w1\<lparr>w_pc := Suc (w_pc w1)\<rparr>)"
    using GetShardByUUID_healthy [of "gs_store gs" w1 "stats_row n ?now sh"] assms(1) stats_constraints [OF d] w1
    by (simp add: w_def stats_row_def)
  moreover have "UpdateStats (gs_store gs) (sh_uuid sh) n w = (Inr (), w1)"
    using UpdateStats_healthy [OF assms(1) d sh] by (simp add: w1_def w_def)
  ultimately have "ReportStats gs (agent_md cfg) (ac_uuid cfg) n s =
      (Inr (''ok'', state_string (sh_state sh)), s\<lparr>sv_world := w1\<lparr>w_pc := Suc (w_pc w1)\<rparr>\<rparr>)"
    using assms(3-5) by (simp add: ReportStats_def with_key_agent call_def on_store_def reply_def w_def [symmetric])
       (simp add: stats_row_def)
  then show thesis using w1 by (intro that [of "s\<lparr>sv_world := w1\<lparr>w_pc := Suc (w_pc w1)\<rparr>\<rparr>" ?now]) (simp_all add: w_def)
qed

lemma ReportCleaned_healthy:
  assumes "healthy (gs_store gs) (w_orc (sv_world s))" and "db_constraints (w_db (sv_world s))" and "db_room (w_db (sv_world s))"
    and "hub_ok s" and "gs_key gs = ac_key cfg" and "ac_key cfg \<noteq> []"
    and "uuid_Parse (gs_uuid gs) (ac_uuid cfg) = Some (sh_uuid sh)"
    and sh: "sh \<in> set (db_shards (w_db (sv_world s)))" "sh_state sh = StateCleaning"
  obtains s' now where "ReportCleaned gs (agent_md cfg) (ac_uuid cfg) s = (Inr ''standby'', s')"
    and "finish_row now sh \<in> set (db_shards (w_db (sv_world s')))"
proof -
  obtain w' now where w': "FinishCleaning (gs_store gs) (sh_uuid sh) (sv_world s) = (Inr (), w')" "w_orc w' = w_orc (sv_world s)"
      "db_shards (w_db w') = sql_update (\<lambda>r. sh_uuid r = sh_uuid sh \<and> sh_state r = StateCleaning) (finish_row now)
        (db_shards (w_db (sv_world s)))"
    using FinishCleaning_healthy [OF assms(1-3) sh] by metis
  let ?s1 = "s\<lparr>sv_world := w'\<rparr>"
  obtain s' where s': "notifyTopology (gs_store gs) ?s1 = (Inr (), s')" "w_db (sv_world s') = w_db w'"
    using notifyTopology_healthy [of "gs_store gs" ?s1] assms(1,4) w'(2) by (auto simp: hub_ok_def)
  have "ReportCleaned gs (agent_md cfg) (ac_uuid cfg) s = (Inr ''standby'', s')"
    using assms(5-7) w'(1) s'(1)
    by (simp add: ReportCleaned_def with_key_agent call_def on_store_def notify_then_def reply_def)
  moreover have "finish_row now sh \<in> set (db_shards (w_db (sv_world s')))"
    using sh by (auto simp: s'(2) w'(3) set_sql_update intro: rev_image_eqI)
  ultimately show thesis by (rule that)
qed

text \<open>
  C10: a shard returns to the pool only after its tables are empty. When the coordinator answers and
  the agent of a shard in the cleaning state reaches its own database, one tick truncates the tables
  and then makes the row standby without bucket; when the truncation fails, the tick returns that
  error and the row stays in the cleaning state with its bucket, for the next tick to try again.
\<close>

theorem agent_recycles_shard:
  assumes "healthy (gs_store gs) (w_orc (sv_world s))" and d: "db_constraints (w_db (sv_world s))" and "db_room (w_db (sv_world s))"
    and "hub_ok s" and key: "gs_key gs = ac_key cfg" "ac_key cfg \<noteq> []"
    and uid: "uuid_Parse (gs_uuid gs) (ac_uuid cfg) = Some (sh_uuid sh)"
    and sh: "sh \<in> set (db_shards (w_db (sv_world s)))" "sh_role sh = RoleData" "sh_state sh = StateCleaning"
    and conn: "sc_connect A (ac_dsn cfg) t = (Inr (), t1)" "MeasureSize A (ac_size cfg) t1 = (Inr n, t2)"
  shows "\<exists>s' sh'. sh' \<in> set (db_shards (w_db (sv_world s'))) \<and> sh_id sh' = sh_id sh \<and>
    (case sc_exec A TruncateAllTables t2 of
       (Inr _, t3) \<Rightarrow> agent_Tick A (server_internal gs) cfg (t, s) = (None, t3, s') \<and> pool_row sh'
     | (Inl e, t3) \<Rightarrow> agent_Tick A (server_internal gs) cfg (t, s) = (Some (ClientError e), t3, s') \<and>
         sh_state sh' = StateCleaning \<and> sh_bucket sh' = sh_bucket sh)"
proof -
  obtain s1 now where s1: "ReportStats gs (agent_md cfg) (ac_uuid cfg) n s = (Inr (''ok'', state_string (sh_state sh)), s1)"
      "w_orc (sv_world s1) = w_orc (sv_world s)" "sv_bcast s1 = sv_bcast s"
      "w_db (sv_world s1) = (w_db (sv_world s))\<lparr>db_shards :=
        sql_update (\<lambda>r. sh_uuid r = sh_uuid sh) (stats_row n now) (db_shards (w_db (sv_world s)))\<rparr>"
    using ReportStats_healthy [OF assms(1) d key uid sh(1)] by metis
  let ?sh1 = "stats_row n now sh"
  have sh1: "?sh1 \<in> set (db_shards (w_db (sv_world s1)))" using sh(1) by (auto simp: s1(4) set_sql_update intro: rev_image_eqI)
  have ok1: "db_constraints (w_db (sv_world s1))" "db_room (w_db (sv_world s1))" "hub_ok s1"
    using stats_constraints [OF d] assms(3,4)
    by (auto simp: s1 hub_ok_def db_room_def list_all_iff set_sql_update stats_row_def)
  obtain s2 now2 where s2: "ReportCleaned gs (agent_md cfg) (ac_uuid cfg) s1 = (Inr ''standby'', s2)"
      "finish_row now2 ?sh1 \<in> set (db_shards (w_db (sv_world s2)))"
    using ReportCleaned_healthy [OF _ ok1 key _ sh1] assms(1) uid sh(3) by (auto simp: s1(2) stats_row_def)
  note tick = agent_Tick_def server_internal_def conn s1(1) sh(3) CleanDatabase_def rpc_error_def state_string_def
  show ?thesis
  proof (cases "sc_exec A TruncateAllTables t2")
    case (Pair r t3)
    then show ?thesis
    proof (cases r)
      case (Inl e)
      with Pair have "agent_Tick A (server_internal gs) cfg (t, s) = (Some (ClientError e), t3, s1)" by (simp add: tick)
      then show ?thesis using Pair Inl sh1 sh(3) by (intro exI [of _ s1] exI [of _ ?sh1]) (simp add: stats_row_def)
    next
      case (Inr u)
      with Pair s2(1) have "agent_Tick A (server_internal gs) cfg (t, s) = (None, t3, s2)" by (simp add: tick)
      then show ?thesis using Pair Inr s2(2) sh(2)
        by (intro exI [of _ s2] exI [of _ "finish_row now2 ?sh1"]) (simp add: finish_row_def stats_row_def pool_row_def)
    qed
  qed
qed

definition demo_conn :: "nat shard_conn" where
  "demo_conn = \<lparr>sc_connect = (\<lambda>_ t. (Inr (), t)), sc_query = (\<lambda>_ t. (Inr (int t), t)),
     sc_exec = (\<lambda>q t. (Inr (), if q = TruncateAllTables then 0 else t))\<rparr>"

definition demo_agent :: AgentConfig where
  "demo_agent = \<lparr>ac_dsn = ''x'', ac_uuid = sh_uuid (demo_shard 1 StateCleaning (Some ''n0'')), ac_addr = ''a'', ac_key = ''secret'',
     ac_interval = second_ns, ac_size = ''database'', ac_role = [], ac_drain = ''revoke''\<rparr>"

theorem agent_recycles_shard_witness:
  "\<exists>s' sh'. agent_Tick demo_conn (server_internal demo_server) demo_agent (7, demo_srv clean_db) = (None, 0, s') \<and>
     sh' \<in> set (db_shards (w_db (sv_world s'))) \<and> sh_id sh' = 1 \<and> pool_row sh'"
proof -
  let ?sh = "demo_shard 1 StateCleaning (Some ''n0'')"
  have ok: "db_constraints clean_db" "db_room clean_db" by code_simp+
  have sh: "?sh \<in> set (db_shards clean_db)" "sh_role ?sh = RoleData" "sh_state ?sh = StateCleaning" "sh_id ?sh = 1"
    by (simp_all add: clean_db_def demo_shard_def new_row_def)
  have srv: "hub_ok (demo_srv clean_db)" "w_db (sv_world (demo_srv clean_db)) = clean_db"
    "healthy (gs_store demo_server) (w_orc (sv_world (demo_srv clean_db)))" "gs_key demo_server = ac_key demo_agent"
    "ac_key demo_agent \<noteq> []" "uuid_Parse (gs_uuid demo_server) (ac_uuid demo_agent) = Some (sh_uuid ?sh)"
    using demo_healthy
    by (simp_all add: hub_ok_def demo_srv_def bc_ok_New demo_server_def demo_agent_def demo_uuid_def)
  have "sc_connect demo_conn (ac_dsn demo_agent) 7 = (Inr (), 7)" "MeasureSize demo_conn (ac_size demo_agent) 7 = (Inr 7, 7)"
    "sc_exec demo_conn TruncateAllTables 7 = (Inr (), 0)"
    by (simp_all add: demo_conn_def demo_agent_def MeasureSize_def)
  then show ?thesis
    using agent_recycles_shard [of demo_server "demo_srv clean_db" demo_agent ?sh demo_conn 7 7 7 7] srv ok sh by auto
qed

end
