(* ===== verification/Startup.thy ===== *)
theory Startup
  imports Watch Agent Tracing
begin

text \<open>
  How the server starts: the two migration scripts as statements on a schema, \<open>New\<close>, \<open>Migrate\<close> and
  \<open>ResetSchema\<close> of \<^verbatim>\<open>internal/store/store.go\<close>, and \<^verbatim>\<open>cmd/server/main.go\<close> up to the point where it serves.
  The connection pool's configuration and opening, the tracing exporter and the listening sockets
  are third-party or system code, the arguments \<open>pgx\<close> and \<open>system\<close>.
\<close>

section \<open>The schema\<close>

text \<open>
  A table with its columns and its checks of a column against a list of values, and the names of the
  indexes. The rows are those of \<open>db\<close>; a column that is not there yet has its default in every row.
\<close>

record table =
  tb_cols :: "string list"
  tb_checks :: "(string \<times> string \<times> string list) list"

record schema =
  sm_tables :: "(string \<times> table) list"
  sm_indexes :: "string list"

datatype ddl =
    CreateTableIfNotExists string table
  | CreateIndexIfNotExists string string
  | AddColumnIfNotExists string string
  | DropConstraintIfExists string string
  | AddCheckConstraint string string string "string list"
  | DropSchemaCascade
  | CreateSchema

definition check_rows :: "string \<Rightarrow> string \<Rightarrow> string list \<Rightarrow> db \<Rightarrow> bool" where
  "check_rows t c vals d =
    (if t = ''shards'' \<and> c = ''state'' then list_all (\<lambda>sh. state_string (sh_state sh) \<in> set vals) (db_shards d)
     else if t = ''shards'' \<and> c = ''role'' then list_all (\<lambda>sh. role_string (sh_role sh) \<in> set vals) (db_shards d)
     else True)"

definition index_rows :: "string \<Rightarrow> db \<Rightarrow> bool" where
  "index_rows i d =
    (if i = ''shards_one_active_per_bucket'' then key_unique sh_bucket (filter active_row (db_shards d))
     else if i = ''shards_one_error'' then at_most_one (\<lambda>sh. sh_role sh = RoleError) (db_shards d)
     else True)"

definition alter :: "string \<Rightarrow> (table \<Rightarrow> table option) \<Rightarrow> schema \<Rightarrow> schema option" where
  "alter t f sm = (case map_of (sm_tables sm) t of None \<Rightarrow> None
     | Some tb \<Rightarrow> (case f tb of None \<Rightarrow> None
        | Some tb' \<Rightarrow> Some (sm\<lparr>sm_tables := map (\<lambda>(n, x). (n, if n = t then tb' else x)) (sm_tables sm)\<rparr>)))"

fun exec_ddl :: "ddl \<Rightarrow> schema \<times> db \<Rightarrow> (schema \<times> db) option" where
  "exec_ddl (CreateTableIfNotExists t tb) (sm, d) =
    Some (if map_of (sm_tables sm) t = None then sm\<lparr>sm_tables := sm_tables sm @ [(t, tb)]\<rparr> else sm, d)"
| "exec_ddl (CreateIndexIfNotExists i t) (sm, d) =
    (if i \<in> set (sm_indexes sm) then Some (sm, d)
     else if map_of (sm_tables sm) t = None \<or> \<not> index_rows i d then None
     else Some (sm\<lparr>sm_indexes := sm_indexes sm @ [i]\<rparr>, d))"
| "exec_ddl (AddColumnIfNotExists t c) (sm, d) = map_option (\<lambda>sm'. (sm', d))
    (alter t (\<lambda>tb. Some (if c \<in> set (tb_cols tb) then tb else tb\<lparr>tb_cols := tb_cols tb @ [c]\<rparr>)) sm)"
| "exec_ddl (DropConstraintIfExists t n) (sm, d) = map_option (\<lambda>sm'. (sm', d))
    (alter t (\<lambda>tb. Some (tb\<lparr>tb_checks := filter (\<lambda>k. fst k \<noteq> n) (tb_checks tb)\<rparr>)) sm)"
| "exec_ddl (AddCheckConstraint t n c vals) (sm, d) =
    (if \<not> check_rows t c vals d then None
     else map_option (\<lambda>sm'. (sm', d)) (alter t (\<lambda>tb. if n \<in> fst ` set (tb_checks tb) then None
       else Some (tb\<lparr>tb_checks := tb_checks tb @ [(n, c, vals)]\<rparr>)) sm))"
| "exec_ddl DropSchemaCascade (sm, d) = Some (sm\<lparr>sm_tables := [], sm_indexes := []\<rparr>, empty_db)"
| "exec_ddl CreateSchema (sm, d) = Some (sm, d)"

text \<open>The statements of one call are one transaction.\<close>

fun exec_script :: "ddl list \<Rightarrow> schema \<times> db \<Rightarrow> (schema \<times> db) option" where
  "exec_script [] s = Some s"
| "exec_script (x # xs) s = (case exec_ddl x s of None \<Rightarrow> None | Some s' \<Rightarrow> exec_script xs s')"

definition migration_001 :: "ddl list" where
  "migration_001 =
    [CreateTableIfNotExists ''cluster_config''
       \<lparr>tb_cols = [''id'', ''mode'', ''bucket_axis'', ''bucket_spec'', ''shard_max_bytes'', ''retention_depth'',
          ''max_future_buckets'', ''bootstrapped_at''],
        tb_checks = [(''cluster_config_id_check'', ''id'', [''1''])]\<rparr>,
     CreateTableIfNotExists ''shards''
       \<lparr>tb_cols = [''id'', ''shard_uuid'', ''role'', ''bucket_id'', ''state'', ''dsn'', ''advertise_url'', ''reported_bytes'',
          ''max_bytes'', ''last_seen_at'', ''sealed_at'', ''version'', ''created_at'', ''updated_at''],
        tb_checks = [(''shards_role_check'', ''role'', [''data'', ''error'']),
          (''shards_state_check'', ''state'', [''standby'', ''active'', ''sealed'', ''cleaning''])]\<rparr>,
     CreateIndexIfNotExists ''shards_one_active_per_bucket'' ''shards'',
     CreateIndexIfNotExists ''shards_one_error'' ''shards'',
     CreateTableIfNotExists ''shard_events''
       \<lparr>tb_cols = [''id'', ''shard_id'', ''bucket_id'', ''event_type'', ''details'', ''created_at''], tb_checks = []\<rparr>,
     CreateIndexIfNotExists ''shards_bucket_id_idx'' ''shards'',
     CreateIndexIfNotExists ''shards_state_idx'' ''shards'']"

definition migration_002 :: "ddl list" where
  "migration_002 =
    [AddColumnIfNotExists ''cluster_config'' ''topology_version'',
     DropConstraintIfExists ''shards'' ''shards_state_check'',
     AddCheckConstraint ''shards'' ''shards_state_check'' ''state'' [''standby'', ''active'', ''draining'', ''sealed'', ''cleaning''],
     AddColumnIfNotExists ''shards'' ''drain_started_at'',
     AddColumnIfNotExists ''shards'' ''drain_ready'']"

section \<open>Opening the store\<close>

record boot =
  bt_schema :: schema
  bt_world :: world
  bt_open :: bool

definition exec_sql :: "ddl list \<Rightarrow> (boot, unit) sio" where
  "exec_sql script b =
    (let w = bt_world b; sl = w_orc w (w_pc w); d = sl_other sl (w_db w); b' = b\<lparr>bt_world := w\<lparr>w_pc := Suc (w_pc w), w_db := d\<rparr>\<rparr> in
     if sl_fault sl = FailBefore then (Inl ErrDB, b')
     else case exec_script script (bt_schema b, d) of None \<Rightarrow> (Inl ErrDB, b')
     | Some (sm, d') \<Rightarrow> (if sl_fault sl = FailAfter then Inl ErrDB else Inr (),
         b'\<lparr>bt_schema := sm, bt_world := (bt_world b')\<lparr>w_db := d'\<rparr>\<rparr>))"

definition migrations_ReadFile :: "string \<Rightarrow> (ddl list) res" where
  "migrations_ReadFile f =
    (if f = ''migrations/001_init.sql'' then Inr migration_001
     else if f = ''migrations/002_topology_draining.sql'' then Inr migration_002
     else Inl (ErrMsg ''file does not exist''))"

text \<open>\<open>fmt.Errorf("%s: %w", f, err)\<close>: the error keeps its identity and gets a longer text.\<close>

definition Errorf_wrap :: "string \<Rightarrow> goerr \<Rightarrow> goerr" where
  "Errorf_wrap f e = (case e of ErrMsg m \<Rightarrow> ErrMsg (f @ '': '' @ m) | _ \<Rightarrow> e)"

definition Migrate :: "(boot, unit) sio" where
  "Migrate = for_io (\<lambda>f. case migrations_ReadFile f of Inl e \<Rightarrow> fail_io e
       | Inr sql \<Rightarrow> catch_io (exec_sql sql) (\<lambda>e. fail_io (Errorf_wrap f e)) return_io)
     [''migrations/001_init.sql'', ''migrations/002_topology_draining.sql'']"

definition ResetSchema :: "(boot, unit) sio" where
  "ResetSchema = bind_io (exec_sql [DropSchemaCascade, CreateSchema]) (\<lambda>_. Migrate)"

record pool_config =
  px_params :: "(string \<times> string) list"
  px_maxconns :: int

record pgx =
  px_parse :: "string \<Rightarrow> pool_config res"
  px_open :: "pool_config \<Rightarrow> unit res"

definition pool_settings :: "int \<Rightarrow> pool_config \<Rightarrow> pool_config" where
  "pool_settings maxConns cfg =
    (let cfg = (if map_of (px_params cfg) ''statement_timeout'' = None
       then cfg\<lparr>px_params := (''statement_timeout'', ''5000'') # px_params cfg\<rparr> else cfg) in
     cfg\<lparr>px_maxconns := (if maxConns \<le> 0 then 20 else maxConns)\<rparr>)"

definition store_New :: "pgx \<Rightarrow> pglib \<Rightarrow> string \<Rightarrow> int \<Rightarrow> int \<Rightarrow> (boot, Store \<times> pool_config) sio" where
  "store_New px pg dsn maxConns heartbeat b =
    (case px_parse px dsn of Inl e \<Rightarrow> (Inl e, b)
     | Inr cfg0 \<Rightarrow>
        (let cfg = pool_settings maxConns cfg0 in
         case px_open px cfg of Inl e \<Rightarrow> (Inl e, b)
         | Inr _ \<Rightarrow> catch_io Migrate (\<lambda>e b. (Inl e, b\<lparr>bt_open := False\<rparr>)) (\<lambda>_. return_io (New heartbeat pg, cfg))
             (b\<lparr>bt_open := True, bt_world := (bt_world b)\<lparr>w_cache := None\<rparr>\<rparr>)))"

section \<open>The server process\<close>

record system =
  sy_exporter :: "string \<Rightarrow> unit res"
  sy_listen :: "string \<Rightarrow> unit res"

text \<open>The workers' intervals after their defaults; a goroutine that panics ends the process.\<close>

definition or_15s :: "int \<Rightarrow> int" where
  "or_15s d = (if d \<le> 0 then 15 * second_ns else d)"

definition worker_tickers :: "Config \<Rightarrow> int res list" where
  "worker_tickers c = [NewTicker (or_30s (cf_seal c)), NewTicker (or_30s (cf_seal c)), NewTicker (or_15s (cf_health c)),
     NewTicker (15 * second_ns)]"

record running =
  rn_config :: Config
  rn_pool :: pool_config
  rn_server :: Server
  rn_drain :: int
  rn_hub :: Broadcast
  rn_tracing :: tracing

definition server_main :: "pgx \<Rightarrow> system \<Rightarrow> golib \<Rightarrow> uuidlib \<Rightarrow> pglib \<Rightarrow> environ \<Rightarrow> (boot, running) sio" where
  "server_main px sy L U pg env =
    (case LoadServer env of Inl e \<Rightarrow> fail_io e
     | Inr cfg \<Rightarrow> (case Setup (sy_exporter sy) env of Inl e \<Rightarrow> fail_io e
     | Inr tc \<Rightarrow> bind_io (store_New px pg (cf_dsn cfg) (cf_conns cfg) (cf_heartbeat cfg)) (\<lambda>(st, pool).
         if \<not> list_all is_ok (worker_tickers cfg) then fail_io ErrPanic
         else case sy_listen sy (cf_grpc cfg) of Inl e \<Rightarrow> fail_io e
         | Inr _ \<Rightarrow> return_io \<lparr>rn_config = cfg, rn_pool = pool,
             rn_server = \<lparr>gs_lib = L, gs_uuid = U, gs_store = st, gs_key = cf_key cfg, gs_retention = True\<rparr>,
             rn_drain = or_30s (cf_drain cfg), rn_hub = NewBroadcast, rn_tracing = tc\<rparr>)))"

definition serving :: "running \<Rightarrow> boot \<Rightarrow> srv" where
  "serving rn b = \<lparr>sv_world = bt_world b, sv_bcast = Some (rn_hub rn)\<rparr>"

section \<open>Migration\<close>

text \<open>The schemas after none, one and both of the scripts.\<close>

definition after_script :: "ddl list \<Rightarrow> schema \<Rightarrow> schema" where
  "after_script script sm = (case exec_script script (sm, empty_db) of None \<Rightarrow> sm | Some (sm', _) \<Rightarrow> sm')"

definition schema_0 :: schema where
  "schema_0 = \<lparr>sm_tables = [], sm_indexes = []\<rparr>"

definition schema_1 :: schema where
  "schema_1 = after_script migration_001 schema_0"

definition schema_2 :: schema where
  "schema_2 = after_script migration_002 schema_1"

definition schema_accepts :: "schema \<Rightarrow> db \<Rightarrow> bool" where
  "schema_accepts sm d \<longleftrightarrow> list_all (\<lambda>(t, tb). list_all (\<lambda>(n, c, vals). check_rows t c vals d) (tb_checks tb)) (sm_tables sm) \<and>
     list_all (\<lambda>i. index_rows i d) (sm_indexes sm)"

lemma known_state_string: "known_state st \<Longrightarrow> state_string st \<in> {''standby'', ''active'', ''draining'', ''sealed'', ''cleaning''}"
  by (cases st) (simp_all add: known_state_def state_string_def)

lemma known_role_string: "known_role r \<Longrightarrow> role_string r \<in> {''data'', ''error''}"
  by (cases r) (simp_all add: known_role_def role_string_def)

lemma constraints_rows:
  assumes "db_constraints d"
  shows "index_rows i d" and "check_rows t ''state'' [''standby'', ''active'', ''draining'', ''sealed'', ''cleaning''] d"
    and "check_rows t ''role'' [''data'', ''error''] d"
  using assms known_state_string known_role_string
  by (auto simp: index_rows_def check_rows_def db_constraints_def list_all_iff shard_row_ok_def)

lemma schema_1_def': "schema_1 = \<lparr>sm_tables =
    [(''cluster_config'', \<lparr>tb_cols = [''id'', ''mode'', ''bucket_axis'', ''bucket_spec'', ''shard_max_bytes'', ''retention_depth'',
        ''max_future_buckets'', ''bootstrapped_at''], tb_checks = [(''cluster_config_id_check'', ''id'', [''1''])]\<rparr>),
     (''shards'', \<lparr>tb_cols = [''id'', ''shard_uuid'', ''role'', ''bucket_id'', ''state'', ''dsn'', ''advertise_url'', ''reported_bytes'',
        ''max_bytes'', ''last_seen_at'', ''sealed_at'', ''version'', ''created_at'', ''updated_at''],
        tb_checks = [(''shards_role_check'', ''role'', [''data'', ''error'']),
          (''shards_state_check'', ''state'', [''standby'', ''active'', ''sealed'', ''cleaning''])]\<rparr>),
     (''shard_events'', \<lparr>tb_cols = [''id'', ''shard_id'', ''bucket_id'', ''event_type'', ''details'', ''created_at''], tb_checks = []\<rparr>)],
   sm_indexes = [''shards_one_active_per_bucket'', ''shards_one_error'', ''shards_bucket_id_idx'', ''shards_state_idx'']\<rparr>"
  by code_simp

lemma schema_2_def': "schema_2 = \<lparr>sm_tables =
    [(''cluster_config'', \<lparr>tb_cols = [''id'', ''mode'', ''bucket_axis'', ''bucket_spec'', ''shard_max_bytes'', ''retention_depth'',
        ''max_future_buckets'', ''bootstrapped_at'', ''topology_version''],
        tb_checks = [(''cluster_config_id_check'', ''id'', [''1''])]\<rparr>),
     (''shards'', \<lparr>tb_cols = [''id'', ''shard_uuid'', ''role'', ''bucket_id'', ''state'', ''dsn'', ''advertise_url'', ''reported_bytes'',
        ''max_bytes'', ''last_seen_at'', ''sealed_at'', ''version'', ''created_at'', ''updated_at'', ''drain_started_at'', ''drain_ready''],
        tb_checks = [(''shards_role_check'', ''role'', [''data'', ''error'']),
          (''shards_state_check'', ''state'', [''standby'', ''active'', ''draining'', ''sealed'', ''cleaning''])]\<rparr>),
     (''shard_events'', \<lparr>tb_cols = [''id'', ''shard_id'', ''bucket_id'', ''event_type'', ''details'', ''created_at''], tb_checks = []\<rparr>)],
   sm_indexes = [''shards_one_active_per_bucket'', ''shards_one_error'', ''shards_bucket_id_idx'', ''shards_state_idx'']\<rparr>"
  by code_simp

lemma schema_2_accepts: "db_constraints d \<Longrightarrow> schema_accepts schema_2 d"
  using constraints_rows [of d]
  by (simp add: schema_accepts_def schema_2_def') (simp add: check_rows_def)

lemma script_001:
  assumes "db_constraints d"
  shows "exec_script migration_001 (schema_0, d) = Some (schema_1, d)"
    and "exec_script migration_001 (schema_1, d) = Some (schema_1, d)"
    and "exec_script migration_001 (schema_2, d) = Some (schema_2, d)"
  using constraints_rows(1) [OF assms]
  by (simp_all add: migration_001_def schema_0_def schema_1_def' schema_2_def')

lemma script_002:
  assumes "db_constraints d"
  shows "exec_script migration_002 (schema_1, d) = Some (schema_2, d)"
    and "exec_script migration_002 (schema_2, d) = Some (schema_2, d)"
  using constraints_rows(2) [OF assms]
  by (simp_all add: migration_002_def schema_1_def' schema_2_def' alter_def)

text \<open>A script that leaves the rows alone, run by a single server: it takes effect as a whole or not at all.\<close>

lemma exec_sql_quiet:
  assumes "quiet (w_orc (bt_world b))" and "exec_script script (bt_schema b, w_db (bt_world b)) = Some (sm, w_db (bt_world b))"
    and "exec_sql script b = (r, b')"
  shows "w_db (bt_world b') = w_db (bt_world b)" and "w_orc (bt_world b') = w_orc (bt_world b)"
    and "bt_schema b' = bt_schema b \<or> bt_schema b' = sm" and "is_ok r \<Longrightarrow> bt_schema b' = sm"
    and "(\<And>n. sl_fault (w_orc (bt_world b) n) = NoFault) \<Longrightarrow> is_ok r"
  using assms by (auto simp: exec_sql_def Let_def quiet_def split: if_splits)

lemma Migrate_eq:
  "Migrate b = (case exec_sql migration_001 b of
     (Inl e, b1) \<Rightarrow> (Inl (Errorf_wrap ''migrations/001_init.sql'' e), b1)
   | (Inr _, b1) \<Rightarrow> (case exec_sql migration_002 b1 of
       (Inl e, b2) \<Rightarrow> (Inl (Errorf_wrap ''migrations/002_topology_draining.sql'' e), b2) | (Inr _, b2) \<Rightarrow> (Inr (), b2)))"
  by (simp add: Migrate_def migrations_ReadFile_def bind_io_def catch_io_def fail_io_def return_io_def split: prod.split sum.split)

lemma migrate_stages:
  assumes q: "quiet (w_orc (bt_world b))" and d: "db_constraints (w_db (bt_world b))"
    and s: "bt_schema b \<in> {schema_0, schema_1, schema_2}" and m: "Migrate b = (r, b')"
  shows "w_db (bt_world b') = w_db (bt_world b) \<and> w_orc (bt_world b') = w_orc (bt_world b) \<and>
    bt_schema b' \<in> {schema_0, schema_1, schema_2} \<and> (is_ok r \<or> bt_schema b = schema_2 \<longrightarrow> bt_schema b' = schema_2) \<and>
    ((\<forall>n. sl_fault (w_orc (bt_world b) n) = NoFault) \<longrightarrow> is_ok r)"
proof -
  let ?sm = "if bt_schema b = schema_2 then schema_2 else schema_1"
  have 1: "exec_script migration_001 (bt_schema b, w_db (bt_world b)) = Some (?sm, w_db (bt_world b))"
    using s script_001 [OF d] by auto
  have 2: "exec_script migration_002 (?sm, w_db (bt_world b)) = Some (schema_2, w_db (bt_world b))"
    using script_002 [OF d] by simp
  obtain r1 b1 where x: "exec_sql migration_001 b = (r1, b1)" by fastforce
  note a = exec_sql_quiet [OF q 1 x]
  show ?thesis
  proof (cases "is_ok r1")
    case True
    then obtain r2 where y: "exec_sql migration_002 b1 = (r2, b')" "is_ok r \<longleftrightarrow> is_ok r2"
      using m x by (auto simp: Migrate_eq split: sum.splits prod.splits)
    have "quiet (w_orc (bt_world b1))" "exec_script migration_002 (bt_schema b1, w_db (bt_world b1)) = Some (schema_2, w_db (bt_world b1))"
      using a q 2 True by simp_all
    note c = exec_sql_quiet [OF this y(1)]
    show ?thesis using a c y(2) True s by (auto split: if_splits)
  next
    case False
    then show ?thesis using a m x s by (auto simp: Migrate_eq is_ok_def split: sum.splits if_splits)
  qed
qed

text \<open>
  C21: migrations can be run at every start. From an empty database, from one that has only the first
  script and from a complete one, with the connection failing at any point, \<open>Migrate\<close> never changes a
  row, never takes a complete schema back, and leaves the database in one of these three stages, so that
  the next start can go on; when it reports success the schema is complete and accepts every
  database the store can reach, and without a failure it reports success.
\<close>

theorem migrate_restartable:
  assumes "quiet (w_orc (bt_world b))" and "db_constraints (w_db (bt_world b))"
    and "bt_schema b \<in> {schema_0, schema_1, schema_2}" and "Migrate b = (r, b')"
  shows "w_db (bt_world b') = w_db (bt_world b) \<and> bt_schema b' \<in> {schema_0, schema_1, schema_2} \<and>
    (bt_schema b = schema_2 \<longrightarrow> bt_schema b' = schema_2) \<and>
    (is_ok r \<longrightarrow> bt_schema b' = schema_2 \<and> (\<forall>d. db_constraints d \<longrightarrow> schema_accepts (bt_schema b') d)) \<and>
    ((\<forall>n. sl_fault (w_orc (bt_world b) n) = NoFault) \<longrightarrow> is_ok r)"
  using migrate_stages [OF assms] schema_2_accepts by auto

definition demo_boot :: "schema \<Rightarrow> db \<Rightarrow> boot" where
  "demo_boot sm d = \<lparr>bt_schema = sm, bt_world = demo_world d, bt_open = True\<rparr>"

theorem migrate_restartable_witness:
  "w_db (bt_world (snd (Migrate (demo_boot schema_1 demo_db)))) = demo_db \<and>
   bt_schema (snd (Migrate (demo_boot schema_1 demo_db))) = schema_2 \<and> is_ok (fst (Migrate (demo_boot schema_1 demo_db)))"
proof -
  have "\<forall>n. sl_fault (w_orc (bt_world (demo_boot schema_1 demo_db)) n) = NoFault"
    using healthyD(2) demo_healthy by (simp add: demo_boot_def)
  then show ?thesis
    using migrate_restartable [of "demo_boot schema_1 demo_db" "fst (Migrate (demo_boot schema_1 demo_db))"
        "snd (Migrate (demo_boot schema_1 demo_db))"] demo_healthy healthyD(1) demo_db_constraints
    by (auto simp: demo_boot_def)
qed

section \<open>A started server\<close>

lemma pool_settings_ok:
  "1 \<le> px_maxconns (pool_settings (wrap32 n) cfg) \<and> px_maxconns (pool_settings (wrap32 n) cfg) < 2 ^ 31"
  "map_of (px_params (pool_settings m cfg)) ''statement_timeout'' \<noteq> None"
  using wrap32_range [of n] by (auto simp: pool_settings_def Let_def)

lemma pool_settings_conns: "px_maxconns (pool_settings m cfg) = (if m \<le> 0 then 20 else m)"
  by (simp add: pool_settings_def Let_def)

lemma worker_tickers_ok: "list_all is_ok (worker_tickers c)"
  by (simp add: worker_tickers_def NewTicker_def or_30s_def or_15s_def second_ns_def)

lemma LoadServer_fields:
  "LoadServer env = Inr c \<Longrightarrow> cf_key c = env ''CLUSTER_KEY'' \<and> cf_conns c = wrap32 (intEnv env ''METADATA_PG_MAX_CONNS'' 20)"
  by (auto simp: LoadServer_def Let_def split: if_splits)

lemma store_New_cases:
  assumes "store_New px pg dsn n hb b = (Inr (st, pool), b')"
  obtains cfg b0 where "px_parse px dsn = Inr cfg" and "pool = pool_settings n cfg" and "st = New hb pg"
    and "b0 = b\<lparr>bt_open := True, bt_world := (bt_world b)\<lparr>w_cache := None\<rparr>\<rparr>" and "Migrate b0 = (Inr (), b')"
  using assms by (auto simp: store_New_def Let_def catch_io_def return_io_def split: sum.splits prod.splits)

lemma server_main_cases:
  assumes "server_main px sy L U pg env b = (Inr rn, b')"
  obtains c pool tc where "LoadServer env = Inr c" and "Setup (sy_exporter sy) env = Inr tc" and "store_New px pg (cf_dsn c) (cf_conns c) (cf_heartbeat c) b = (Inr (New (cf_heartbeat c) pg, pool), b')"
    and "rn = \<lparr>rn_config = c, rn_pool = pool,
      rn_server = \<lparr>gs_lib = L, gs_uuid = U, gs_store = New (cf_heartbeat c) pg, gs_key = cf_key c, gs_retention = True\<rparr>,
      rn_drain = or_30s (cf_drain c), rn_hub = NewBroadcast, rn_tracing = tc\<rparr>"
proof -
  obtain c st pool tc where c: "LoadServer env = Inr c" "store_New px pg (cf_dsn c) (cf_conns c) (cf_heartbeat c) b = (Inr (st, pool), b')"
      "rn = \<lparr>rn_config = c, rn_pool = pool, rn_server = \<lparr>gs_lib = L, gs_uuid = U, gs_store = st, gs_key = cf_key c, gs_retention = True\<rparr>,
        rn_drain = or_30s (cf_drain c), rn_hub = NewBroadcast, rn_tracing = tc\<rparr>"
      "Setup (sy_exporter sy) env = Inr tc"
    using assms worker_tickers_ok
    by (auto simp: server_main_def bind_io_def catch_io_def fail_io_def return_io_def split: sum.splits prod.splits if_splits)
  moreover have "st = New (cf_heartbeat c) pg" using c(2) by (elim store_New_cases) simp
  ultimately show thesis using that by simp
qed

text \<open>
  C20: a server that has started is sound. When the start succeeds, whatever the environment held, the
  schema is complete and the rows are those found; the pool has at least one and at most \<open>2\<^sup>3\<^sup>1 - 1\<close>
  connections (the setting cut to 32 bits, 20 if that is not positive) and a statement timeout; the
  tracing interceptor is installed; every worker's ticker has a positive interval and the drain and
  heartbeat timeouts are positive; without a cluster key no administration or agent call does
  anything; and every sequence of calls and ticks keeps the constraints of the schema and the hub.
\<close>

theorem server_start_sound:
  assumes "server_main px sy L U pg env b = (Inr rn, b')" and "quiet (w_orc (bt_world b))"
    and "db_constraints (w_db (bt_world b))" and "bt_schema b \<in> {schema_0, schema_1, schema_2}"
  shows "bt_schema b' = schema_2 \<and> w_db (bt_world b') = w_db (bt_world b) \<and>
    1 \<le> px_maxconns (rn_pool rn) \<and> px_maxconns (rn_pool rn) < 2 ^ 31 \<and>
    (let n = wrap32 (intEnv env ''METADATA_PG_MAX_CONNS'' 20) in px_maxconns (rn_pool rn) = (if n \<le> 0 then 20 else n)) \<and>
    map_of (px_params (rn_pool rn)) ''statement_timeout'' \<noteq> None \<and>
    ChainUnaryInterceptor \<in> set (tc_server (rn_tracing rn)) \<and>
    list_all is_ok (worker_tickers (rn_config rn)) \<and> 0 < rn_drain rn \<and> 0 < HeartbeatTimeout (gs_store (rn_server rn)) \<and>
    (env ''CLUSTER_KEY'' = [] \<and> guarded c \<longrightarrow> run_call (rn_server rn) md c (serving rn b') = (Some Unavailable, serving rn b')) \<and>
    db_constraints (w_db (sv_world (run_calls (rn_server rn) calls (serving rn b')))) \<and>
    hub_ok (run_calls (rn_server rn) calls (serving rn b'))"
proof -
  obtain cfg pool tc where c: "LoadServer env = Inr cfg"
      "store_New px pg (cf_dsn cfg) (cf_conns cfg) (cf_heartbeat cfg) b = (Inr (New (cf_heartbeat cfg) pg, pool), b')"
      "rn = \<lparr>rn_config = cfg, rn_pool = pool,
        rn_server = \<lparr>gs_lib = L, gs_uuid = U, gs_store = New (cf_heartbeat cfg) pg, gs_key = cf_key cfg, gs_retention = True\<rparr>,
        rn_drain = or_30s (cf_drain cfg), rn_hub = NewBroadcast, rn_tracing = tc\<rparr>"
      "Setup (sy_exporter sy) env = Inr tc"
    using server_main_cases [OF assms(1)] by metis
  obtain cfg0 b0 where n: "pool = pool_settings (cf_conns cfg) cfg0" "Migrate b0 = (Inr (), b')"
      "b0 = b\<lparr>bt_open := True, bt_world := (bt_world b)\<lparr>w_cache := None\<rparr>\<rparr>"
    using store_New_cases [OF c(2)] by metis
  have m: "w_db (bt_world b') = w_db (bt_world b)" "w_orc (bt_world b') = w_orc (bt_world b)" "bt_schema b' = schema_2"
    using migrate_stages [OF _ _ _ n(2)] assms(2-4) by (simp_all add: n(3))
  have f: "cf_key cfg = env ''CLUSTER_KEY''" "cf_conns cfg = wrap32 (intEnv env ''METADATA_PG_MAX_CONNS'' 20)"
    using LoadServer_fields [OF c(1)] by simp_all
  have hub: "hub_ok (serving rn b')" by (simp add: hub_ok_def serving_def c(3) bc_ok_New)
  have "rely (db_steps UNIV) (w_orc (sv_world (serving rn b')))" using assms(2) by (simp add: serving_def m quiet_rely)
  note run = run_calls_keeps [OF this, of calls "rn_server rn"]
  have key: "run_call (rn_server rn) md c (serving rn b') = (Some Unavailable, serving rn b')" if "env ''CLUSTER_KEY'' = []" "guarded c"
    using that f c(3) by (intro guarded_refused) (simp_all add: requireKey_def)
  show ?thesis
    using m run hub key pool_settings_ok assms(3) Setup_cases(1) [OF c(4)] worker_tickers_ok pool_settings_conns
    by (simp add: c(3) n(1) f moves_def db_steps_def serving_def HeartbeatTimeout_def New_def or_30s_def second_ns_def)
qed

definition demo_px :: pgx where
  "demo_px = \<lparr>px_parse = (\<lambda>_. Inr \<lparr>px_params = [], px_maxconns = 4\<rparr>), px_open = (\<lambda>_. Inr ())\<rparr>"

definition demo_system :: system where
  "demo_system = \<lparr>sy_exporter = (\<lambda>_. Inr ()), sy_listen = (\<lambda>_. Inr ())\<rparr>"

definition demo_env :: environ where
  "demo_env = (\<lambda>_. [])(''METADATA_PG_DSN'' := ''x'', ''METADATA_PG_MAX_CONNS'' := ''4294967297'', ''SEAL_CHECK_INTERVAL'' := ''-5s'')"

theorem server_start_sound_witness:
  "\<exists>rn b'. server_main demo_px demo_system demo_lib demo_uuid demo_pg demo_env (demo_boot schema_0 empty_db) = (Inr rn, b') \<and>
     bt_schema b' = schema_2 \<and> px_maxconns (rn_pool rn) = 1 \<and>
     run_call (rn_server rn) (Some [[]]) (CallSealRotate ''n0'') (serving rn b') = (Some Unavailable, serving rn b')"
proof -
  let ?r = "server_main demo_px demo_system demo_lib demo_uuid demo_pg demo_env (demo_boot schema_0 empty_db)"
  have "is_ok (fst ?r)" by code_simp
  then obtain rn b' where r: "?r = (Inr rn, b')" by (metis is_okE prod.collapse)
  have n: "wrap32 (intEnv demo_env ''METADATA_PG_MAX_CONNS'' 20) = 1" by code_simp
  have "db_constraints empty_db" by code_simp
  moreover have "quiet (w_orc (bt_world (demo_boot schema_0 empty_db)))"
    using healthyD(1) [OF demo_healthy] by (simp add: demo_boot_def)
  ultimately show ?thesis
    using server_start_sound [OF r, of "CallSealRotate ''n0''" "Some [[]]" "[]"] r n
    by (auto simp: demo_boot_def demo_env_def Let_def)
qed

end
