(* ===== verification/Process.thy ===== *)
theory Process
  imports Startup
begin

text \<open>
  The life of the server process, \<^verbatim>\<open>cmd/server/main.go\<close> after its start: calls and watch streams come
  and end, the workers tick, one of the two servers may fail, and a signal starts the shutdown. The
  state has the server's state, the unary calls that were accepted and have not ended, and the
  channels of the open watch streams. A call runs in one step. \<open>GracefulStop\<close> of the gRPC library refuses new
  calls and waits for the open ones; it does not cancel them.
\<close>

section \<open>The process\<close>

datatype phase = Serving | GracefulStop | HttpShutdown | OtelShutdown | Exited int

record process =
  pr_phase :: phase
  pr_srv :: srv
  pr_calls :: "(metadata \<times> srv_call) list"
  pr_streams :: "nat list"

datatype event =
    Accept metadata srv_call | Finish nat | Tick srv_call | OpenWatch | Deliver nat | CloseWatch nat
  | ServeFails | HttpFails | Signal | Stopped | HttpDown | OtelDown

definition start_process :: "running \<Rightarrow> boot \<Rightarrow> process" where
  "start_process rn b = \<lparr>pr_phase = Serving, pr_srv = serving rn b, pr_calls = [], pr_streams = []\<rparr>"

definition alive :: "process \<Rightarrow> bool" where
  "alive p \<longleftrightarrow> (case pr_phase p of Exited _ \<Rightarrow> False | _ \<Rightarrow> True)"

text \<open>The workers were started with the background context, so they run until the process ends.\<close>

fun worker_tick :: "running \<Rightarrow> srv_call \<Rightarrow> bool" where
  "worker_tick rn (TickSeal timeout now) \<longleftrightarrow> timeout = rn_drain rn"
| "worker_tick rn (TickRetention now) \<longleftrightarrow> True"
| "worker_tick rn TickHealth \<longleftrightarrow> True"
| "worker_tick rn TickRefresh \<longleftrightarrow> True"
| "worker_tick rn _ \<longleftrightarrow> False"

fun unary_call :: "srv_call \<Rightarrow> bool" where
  "unary_call (TickSeal _ _) \<longleftrightarrow> False"
| "unary_call (TickRetention _) \<longleftrightarrow> False"
| "unary_call TickHealth \<longleftrightarrow> False"
| "unary_call TickRefresh \<longleftrightarrow> False"
| "unary_call _ \<longleftrightarrow> True"

definition run_in :: "running \<Rightarrow> metadata \<Rightarrow> srv_call \<Rightarrow> process \<Rightarrow> process" where
  "run_in rn md c p = p\<lparr>pr_srv := snd (run_call (rn_server rn) md c (pr_srv p))\<rparr>"

text \<open>
  A watch stream subscribes and sends a snapshot, then receives the notifications of its channel and
  sends a snapshot for each, and unsubscribes when it ends, because a snapshot failed or the client went
  away; what it sends is in Watch. A panic ends the process with the code 2,
  \<open>os.Exit(1)\<close> with the code 1, the end of \<open>main\<close> with 0.
\<close>

definition with_hub :: "process \<Rightarrow> (Broadcast \<Rightarrow> process) \<Rightarrow> process" where
  "with_hub p f = (case sv_bcast (pr_srv p) of None \<Rightarrow> p\<lparr>pr_phase := Exited 2\<rparr> | Some b \<Rightarrow> f b)"

definition close_watch :: "nat \<Rightarrow> process \<Rightarrow> process" where
  "close_watch ch p = with_hub p (\<lambda>b. case unsubscribe ch b of Inl _ \<Rightarrow> p\<lparr>pr_phase := Exited 2\<rparr>
     | Inr b' \<Rightarrow> p\<lparr>pr_srv := (pr_srv p)\<lparr>sv_bcast := Some b'\<rparr>, pr_streams := removeAll ch (pr_streams p)\<rparr>)"

definition snapshot :: "running \<Rightarrow> nat \<Rightarrow> Broadcast \<Rightarrow> process \<Rightarrow> process" where
  "snapshot rn ch b p = (case buildTopology (rn_server rn) ((pr_srv p)\<lparr>sv_bcast := Some b\<rparr>) of
     (Inl _, s) \<Rightarrow> close_watch ch (p\<lparr>pr_srv := s\<rparr>) | (Inr _, s) \<Rightarrow> p\<lparr>pr_srv := s\<rparr>)"

definition open_watch :: "running \<Rightarrow> process \<Rightarrow> process" where
  "open_watch rn p = with_hub p (\<lambda>b. case Subscribe b of (ch, _, b') \<Rightarrow>
     snapshot rn ch b' (p\<lparr>pr_streams := ch # pr_streams p\<rparr>))"

definition deliver :: "running \<Rightarrow> nat \<Rightarrow> process \<Rightarrow> process" where
  "deliver rn ch p = with_hub p (\<lambda>b. case receive ch b of None \<Rightarrow> p | Some (_, b') \<Rightarrow> snapshot rn ch b' p)"

text \<open>
  The events that are possible in a state and what they do. Signals after the first stay in the
  channel that nobody reads any more. A delivery without a notification waits. When the shutdown of the HTTP server begins its error is
  expected, before that it ends the process.
\<close>

fun process_step :: "running \<Rightarrow> event \<Rightarrow> process \<Rightarrow> process option" where
  "process_step rn (Accept md c) p =
    (if pr_phase p = Serving \<and> unary_call c then Some (p\<lparr>pr_calls := pr_calls p @ [(md, c)]\<rparr>) else None)"
| "process_step rn (Finish n) p =
    (if alive p \<and> n < length (pr_calls p)
     then Some (case pr_calls p ! n of (md, c) \<Rightarrow>
       run_in rn md c (p\<lparr>pr_calls := take n (pr_calls p) @ drop (Suc n) (pr_calls p)\<rparr>)) else None)"
| "process_step rn (Tick c) p = (if alive p \<and> worker_tick rn c then Some (run_in rn None c p) else None)"
| "process_step rn OpenWatch p = (if pr_phase p = Serving then Some (open_watch rn p) else None)"
| "process_step rn (Deliver ch) p = (if alive p \<and> ch \<in> set (pr_streams p) then Some (deliver rn ch p) else None)"
| "process_step rn (CloseWatch ch) p = (if alive p \<and> ch \<in> set (pr_streams p) then Some (close_watch ch p) else None)"
| "process_step rn ServeFails p = (if pr_phase p = Serving then Some (p\<lparr>pr_phase := Exited 1\<rparr>) else None)"
| "process_step rn HttpFails p = (if pr_phase p \<in> {Serving, GracefulStop} then Some (p\<lparr>pr_phase := Exited 1\<rparr>) else None)"
| "process_step rn Signal p =
    (if pr_phase p = Serving then Some (p\<lparr>pr_phase := GracefulStop\<rparr>) else if alive p then Some p else None)"
| "process_step rn Stopped p =
    (if pr_phase p = GracefulStop \<and> pr_calls p = [] \<and> pr_streams p = [] then Some (p\<lparr>pr_phase := HttpShutdown\<rparr>) else None)"
| "process_step rn HttpDown p = (if pr_phase p = HttpShutdown then Some (p\<lparr>pr_phase := OtelShutdown\<rparr>) else None)"
| "process_step rn OtelDown p = (if pr_phase p = OtelShutdown then Some (p\<lparr>pr_phase := Exited 0\<rparr>) else None)"

fun process_run :: "running \<Rightarrow> event list \<Rightarrow> process \<Rightarrow> process option" where
  "process_run rn [] p = Some p"
| "process_run rn (ev # evs) p = (case process_step rn ev p of None \<Rightarrow> None | Some p' \<Rightarrow> process_run rn evs p')"

section \<open>Subscribers\<close>

text \<open>Calls, ticks and snapshots neither subscribe nor unsubscribe.\<close>

definition hub_subs :: "srv \<Rightarrow> (nat list) option" where
  "hub_subs s = map_option bc_subs (sv_bcast s)"

abbreviation keeps_subs :: "(srv \<Rightarrow> 'r \<times> srv) \<Rightarrow> bool" where
  "keeps_subs \<equiv> follows (\<lambda>s s'. hub_subs s' = hub_subs s)"

lemma keeps_subs_store: "keeps_subs (on_store m)"
  by (simp add: follows_def hub_subs_def on_store_def split: prod.split)

interpretation subs: server_rules "\<lambda>s s'. hub_subs s' = hub_subs s"
proof
  show "keeps_subs (broadcast_io v)" for v
    by (auto simp: follows_def hub_subs_def broadcast_io_def Notify_def split: option.split sum.split)
qed (simp_all add: keeps_subs_store)

lemmas subs_rules = subs.follows_server keeps_subs_store

lemma keeps_subs_run_call: "keeps_subs (run_call gs md c)"
proof -
  have "keeps_subs (\<lambda>s. run_call gs md c s)"
    by (cases c) (auto simp: handler_defs RefreshMetrics_def health_tick_def health_failover_def Let_def
      intro!: subs.follows_outcome subs.follows_worker subs_rules split: option.split sum.split)
  then show ?thesis .
qed

section \<open>The process keeps its promises\<close>

definition process_ok :: "process \<Rightarrow> bool" where
  "process_ok p \<longleftrightarrow> hub_ok (pr_srv p) \<and> hub_subs (pr_srv p) = Some (pr_streams p) \<and> pr_phase p \<noteq> Exited 2 \<and>
     (pr_phase p \<in> {HttpShutdown, OtelShutdown, Exited 0} \<longrightarrow> pr_calls p = [] \<and> pr_streams p = [])"

lemma hub_subs_Some: "hub_subs s = Some subs \<Longrightarrow> \<exists>b. sv_bcast s = Some b \<and> bc_subs b = subs"
  by (auto simp: hub_subs_def)

lemma run_in_ok:
  assumes "rely (db_steps UNIV) (w_orc (sv_world (pr_srv p)))" and "process_ok p"
  shows "moves UNIV (sv_world (pr_srv p)) (sv_world (pr_srv (run_in rn md c p))) \<and> process_ok (run_in rn md c p)"
  using assms run_call_keeps [of c UNIV "rn_server rn" md] keeps_subs_run_call [of "rn_server rn" md c]
  by (auto simp: run_in_def process_ok_def srv_keeps_def follows_def [of "\<lambda>s s'. hub_subs s' = hub_subs s"])

lemma close_watch_ok:
  assumes "process_ok p" and "ch \<in> set (pr_streams p)"
  shows "sv_world (pr_srv (close_watch ch p)) = sv_world (pr_srv p)" and "process_ok (close_watch ch p)"
proof -
  obtain b where b: "sv_bcast (pr_srv p) = Some b" "bc_subs b = pr_streams p" "bc_ok b"
    using assms(1) hub_subs_Some by (fastforce simp: process_ok_def hub_ok_def)
  then obtain b2 where u: "unsubscribe ch b = Inr b2" "bc_ok b2" using bc_ok_unsubscribe [OF b(3)] assms(2) by auto
  then have "bc_subs b2 = removeAll ch (pr_streams p)"
    using b(2) by (auto simp: unsubscribe_def removeAll_filter_not_eq split: if_splits intro!: filter_cong)
  then show "sv_world (pr_srv (close_watch ch p)) = sv_world (pr_srv p)" "process_ok (close_watch ch p)"
    using assms u(2) by (auto simp: close_watch_def with_hub_def b(1) u(1) process_ok_def hub_ok_def hub_subs_def)
qed

lemma snapshot_ok:
  assumes "rely (db_steps UNIV) (w_orc (sv_world (pr_srv p)))" and "process_ok (p\<lparr>pr_srv := (pr_srv p)\<lparr>sv_bcast := Some b\<rparr>\<rparr>)"
    and "ch \<in> set (pr_streams p)"
  shows "moves UNIV (sv_world (pr_srv p)) (sv_world (pr_srv (snapshot rn ch b p))) \<and> process_ok (snapshot rn ch b p)"
proof -
  let ?p = "p\<lparr>pr_srv := (pr_srv p)\<lparr>sv_bcast := Some b\<rparr>\<rparr>"
  obtain r s where t: "buildTopology (rn_server rn) (pr_srv ?p) = (r, s)" by fastforce
  have q: "run_in rn None CallGetTopology ?p = p\<lparr>pr_srv := s\<rparr>"
    using t by (simp add: run_in_def GetTopology_def)
  have ok: "moves UNIV (sv_world (pr_srv p)) (sv_world s)" "process_ok (p\<lparr>pr_srv := s\<rparr>)"
    using run_in_ok [of ?p rn None CallGetTopology] assms(1,2) unfolding q by simp_all
  show ?thesis
    using ok close_watch_ok [OF ok(2), of ch] assms(3) t by (cases r) (simp_all add: snapshot_def)
qed

lemma watch_ok:
  assumes r: "rely (db_steps UNIV) (w_orc (sv_world (pr_srv p)))" and ok: "process_ok p"
  shows "pr_phase p = Serving \<Longrightarrow> moves UNIV (sv_world (pr_srv p)) (sv_world (pr_srv (open_watch rn p))) \<and> process_ok (open_watch rn p)"
    and "ch \<in> set (pr_streams p) \<Longrightarrow> moves UNIV (sv_world (pr_srv p)) (sv_world (pr_srv (deliver rn ch p))) \<and> process_ok (deliver rn ch p)"
proof -
  obtain b where b: "sv_bcast (pr_srv p) = Some b" "bc_subs b = pr_streams p" "bc_ok b"
    using ok hub_subs_Some by (fastforce simp: process_ok_def hub_ok_def)
  obtain c cur b' where s: "Subscribe b = (c, cur, b')" by (metis prod_cases3)
  note s' = bc_ok_Subscribe [OF b(3) s]
  have "bc_subs b' = c # pr_streams p" using s b(2) by (auto simp: Subscribe_def Let_def)
  then have "process_ok (p\<lparr>pr_streams := c # pr_streams p, pr_srv := (pr_srv p)\<lparr>sv_bcast := Some b'\<rparr>\<rparr>)" if "pr_phase p = Serving"
    using that s'(1) by (simp add: process_ok_def hub_ok_def hub_subs_def)
  then show "moves UNIV (sv_world (pr_srv p)) (sv_world (pr_srv (open_watch rn p))) \<and> process_ok (open_watch rn p)" if "pr_phase p = Serving"
    using snapshot_ok [of "p\<lparr>pr_streams := c # pr_streams p\<rparr>" b' c rn] r that by (simp add: open_watch_def with_hub_def b(1) s)
  assume ch: "ch \<in> set (pr_streams p)"
  show "moves UNIV (sv_world (pr_srv p)) (sv_world (pr_srv (deliver rn ch p))) \<and> process_ok (deliver rn ch p)"
  proof (cases "receive ch b")
    case (Some vb)
    then obtain v b2 where v: "receive ch b = Some (v, b2)" by (cases vb) auto
    then have "bc_subs b2 = bc_subs b" by (auto simp: receive_def split: option.splits)
    then have "process_ok (p\<lparr>pr_srv := (pr_srv p)\<lparr>sv_bcast := Some b2\<rparr>\<rparr>)"
      using ok b bc_ok_receive [OF b(3) v] by (simp add: process_ok_def hub_ok_def hub_subs_def)
    then show ?thesis using snapshot_ok [OF r _ ch] by (simp add: deliver_def with_hub_def b(1) v)
  qed (use ok in \<open>simp add: deliver_def with_hub_def b(1) moves_refl\<close>)
qed

lemma process_step_ok:
  assumes "process_step rn ev p = Some p'" and "rely (db_steps UNIV) (w_orc (sv_world (pr_srv p)))" and "process_ok p"
  shows "moves UNIV (sv_world (pr_srv p)) (sv_world (pr_srv p')) \<and> process_ok p'"
proof (cases ev)
  case (Finish n)
  then obtain md c where "pr_calls p ! n = (md, c)" "n < length (pr_calls p)"
      "p' = run_in rn md c (p\<lparr>pr_calls := take n (pr_calls p) @ drop (Suc n) (pr_calls p)\<rparr>)"
    using assms(1) by (cases "pr_calls p ! n") (auto split: if_splits)
  moreover have "process_ok (p\<lparr>pr_calls := take n (pr_calls p) @ drop (Suc n) (pr_calls p)\<rparr>)"
    using assms(3) by (auto simp: process_ok_def)
  ultimately show ?thesis using run_in_ok [of "p\<lparr>pr_calls := take n (pr_calls p) @ drop (Suc n) (pr_calls p)\<rparr>" rn md c] assms(2) by simp
next
  case (Tick c)
  then show ?thesis using assms run_in_ok [OF assms(2,3), of rn None c] by (auto split: if_splits)
next
  case OpenWatch
  then show ?thesis using assms watch_ok(1) [OF assms(2,3)] by (auto split: if_splits)
next
  case (Deliver ch)
  then show ?thesis using assms watch_ok(2) [OF assms(2,3), of ch rn] by (auto split: if_splits)
next
  case (CloseWatch ch)
  then show ?thesis using assms close_watch_ok [OF assms(3), of ch] by (auto simp: moves_refl split: if_splits)
qed (use assms in \<open>auto simp: process_ok_def moves_refl split: if_splits\<close>)

lemma process_run_ok:
  assumes "process_run rn evs p = Some p'" and "rely (db_steps UNIV) (w_orc (sv_world (pr_srv p)))" and "process_ok p"
  shows "moves UNIV (sv_world (pr_srv p)) (sv_world (pr_srv p')) \<and> process_ok p'"
  using assms
proof (induction evs arbitrary: p)
  case (Cons ev evs)
  then obtain q where q: "process_step rn ev p = Some q" "process_run rn evs q = Some p'" by (auto split: option.splits)
  note s = process_step_ok [OF q(1) Cons.prems(2,3)]
  then have "rely (db_steps UNIV) (w_orc (sv_world (pr_srv q)))" using Cons.prems(2) by (simp add: moves_def)
  then show ?case using Cons.IH [OF q(2)] s moves_trans by blast
qed (simp add: moves_refl)

section \<open>Shutdown\<close>

definition accepted :: "event list \<Rightarrow> nat" where
  "accepted evs = length (filter (\<lambda>ev. case ev of Accept _ _ \<Rightarrow> True | _ \<Rightarrow> False) evs)"

definition finished :: "event list \<Rightarrow> nat" where
  "finished evs = length (filter (\<lambda>ev. case ev of Finish _ \<Rightarrow> True | _ \<Rightarrow> False) evs)"

lemma pr_calls_step:
  assumes "process_step rn ev p = Some p'"
  shows "length (pr_calls p') + (case ev of Finish _ \<Rightarrow> 1 | _ \<Rightarrow> 0) = length (pr_calls p) + (case ev of Accept _ _ \<Rightarrow> 1 | _ \<Rightarrow> 0)"
  using assms
  by (cases ev) (auto simp: run_in_def open_watch_def deliver_def close_watch_def with_hub_def snapshot_def
      split: if_splits prod.splits option.splits sum.splits)

lemma pr_calls_run:
  "process_run rn evs p = Some p' \<Longrightarrow> length (pr_calls p') + finished evs = length (pr_calls p) + accepted evs"
proof (induction evs arbitrary: p)
  case (Cons ev evs)
  then obtain q where q: "process_step rn ev p = Some q" "process_run rn evs q = Some p'" by (auto split: option.splits)
  show ?case using Cons.IH [OF q(2)] pr_calls_step [OF q(1)] by (cases ev) (auto simp: accepted_def finished_def)
qed (simp add: accepted_def finished_def)

lemma phase_without_signal:
  assumes "process_run rn evs p = Some p'" and "Signal \<notin> set evs" and "pr_phase p \<in> {Serving, Exited 1, Exited 2}"
  shows "pr_phase p' \<in> {Serving, Exited 1, Exited 2}"
  using assms
proof (induction evs arbitrary: p)
  case (Cons ev evs)
  then obtain q where q: "process_step rn ev p = Some q" "process_run rn evs q = Some p'" by (auto split: option.splits)
  have "pr_phase q \<in> {Serving, Exited 1, Exited 2}"
    using q(1) Cons.prems(2,3)
    by (cases ev) (auto simp: run_in_def open_watch_def deliver_def close_watch_def with_hub_def snapshot_def alive_def
      split: if_splits prod.splits option.splits sum.splits)
  then show ?case using Cons.IH [OF q(2)] Cons.prems(2) by simp
qed simp

lemma close_watch_streams: "set (pr_streams (close_watch ch p)) \<subseteq> set (pr_streams p)" "pr_phase (close_watch ch p) \<in> {pr_phase p, Exited 2}"
  by (auto simp: close_watch_def with_hub_def split: option.split sum.split)

lemma deliver_streams: "set (pr_streams (deliver rn ch p)) \<subseteq> set (pr_streams p)" "pr_phase (deliver rn ch p) \<in> {pr_phase p, Exited 2}"
proof -
  have "set (pr_streams (snapshot rn ch b p)) \<subseteq> set (pr_streams p) \<and> pr_phase (snapshot rn ch b p) \<in> {pr_phase p, Exited 2}" for b
  proof (cases "buildTopology (rn_server rn) ((pr_srv p)\<lparr>sv_bcast := Some b\<rparr>)")
    case (Pair r s)
    then show ?thesis using close_watch_streams [of ch "p\<lparr>pr_srv := s\<rparr>"] by (cases r) (simp_all add: snapshot_def)
  qed
  then show "set (pr_streams (deliver rn ch p)) \<subseteq> set (pr_streams p)" "pr_phase (deliver rn ch p) \<in> {pr_phase p, Exited 2}"
    by (auto simp: deliver_def with_hub_def split: option.split)
qed

lemma stopping_step:
  assumes "process_step rn ev p = Some q" and "pr_phase p \<in> {GracefulStop, HttpShutdown, OtelShutdown, Exited 0, Exited 2}" and "ev \<noteq> HttpFails"
  shows "set (pr_streams q) \<subseteq> set (pr_streams p) \<and> pr_phase q \<in> {GracefulStop, HttpShutdown, OtelShutdown, Exited 0, Exited 2}"
proof (cases ev)
  case (Deliver ch)
  then have "q = deliver rn ch p" using assms(1) by (simp split: if_splits)
  then show ?thesis using deliver_streams [where rn = rn and ch = ch and p = p] assms(2) by auto
next
  case (CloseWatch ch)
  then have "q = close_watch ch p" using assms(1) by (simp split: if_splits)
  then show ?thesis using close_watch_streams [where ch = ch and p = p] assms(2) by auto
qed (use assms in \<open>auto simp: run_in_def split: if_splits prod.splits\<close>)

lemma stopping_run:
  assumes "process_run rn evs p = Some p'" and "pr_phase p \<in> {GracefulStop, HttpShutdown, OtelShutdown, Exited 0, Exited 2}" and "HttpFails \<notin> set evs"
  shows "set (pr_streams p') \<subseteq> set (pr_streams p) \<and> pr_phase p' \<in> {GracefulStop, HttpShutdown, OtelShutdown, Exited 0, Exited 2}"
  using assms
proof (induction evs arbitrary: p)
  case (Cons ev evs)
  then obtain q where q: "process_step rn ev p = Some q" "process_run rn evs q = Some p'" by (auto split: option.splits)
  then have "set (pr_streams q) \<subseteq> set (pr_streams p) \<and> pr_phase q \<in> {GracefulStop, HttpShutdown, OtelShutdown, Exited 0, Exited 2}"
    using stopping_step [OF q(1)] Cons.prems(2,3) by auto
  then show ?case using Cons.IH [OF q(2)] Cons.prems(3) by auto
qed simp

lemma process_ok_start: "rn_hub rn = NewBroadcast \<Longrightarrow> process_ok (start_process rn b)"
  by (simp add: process_ok_def start_process_def serving_def hub_ok_def hub_subs_def bc_ok_New) (simp add: NewBroadcast_def)



definition demo_running :: running where
  "demo_running = \<lparr>rn_config = \<lparr>cf_grpc = [], cf_http = [], cf_dsn = ''x'', cf_key = ''secret'', cf_seal = 0, cf_drain = 0,
     cf_heartbeat = 0, cf_health = 0, cf_conns = 4\<rparr>, rn_pool = \<lparr>px_params = [], px_maxconns = 4\<rparr>, rn_server = demo_server,
     rn_drain = or_30s 0, rn_hub = NewBroadcast, rn_tracing = \<lparr>tc_provider = None, tc_server = [], tc_dial = []\<rparr>\<rparr>"

definition demo_events :: "event list" where
  "demo_events = [Accept None (CallWrite 0 (Some (KInt64 7))), OpenWatch, Tick TickRefresh, Deliver 0, Signal, Finish 0]"

definition demo_process :: "process option" where
  "demo_process = process_run demo_running demo_events (start_process demo_running (demo_boot schema_2 demo_db))"

lemma demo_process_facts:
  "demo_process \<noteq> None" "pr_phase (the demo_process) = GracefulStop" "pr_streams (the demo_process) = [0]"
  "map_option pr_phase (process_run demo_running (demo_events @ [CloseWatch 0, Stopped, HttpDown, OtelDown])
     (start_process demo_running (demo_boot schema_2 demo_db))) = Some (Exited 0)"
  "map_option pr_streams (Option.bind demo_process (process_run demo_running [Signal, Tick TickHealth])) = Some [0]"
  by code_simp+

lemma demo_boot_facts: "rn_hub demo_running = NewBroadcast" "bt_world (demo_boot schema_2 demo_db) = demo_world demo_db"
  "rely (db_steps UNIV) (w_orc (bt_world (demo_boot schema_2 demo_db)))"
  by (simp_all add: demo_running_def demo_boot_def quiet_rely)



end
