(* ===== verification/OpsHttp.thy ===== *)
theory OpsHttp
  imports Metrics
begin

text \<open>
  \<^verbatim>\<open>internal/opshttp/ops.go\<close> behind the middleware of \<^verbatim>\<open>internal/metrics/metrics.go\<close>: the health and
  metrics endpoints of the operations server. \<open>ServeMux\<close> of the standard library is modelled for the
  patterns that the code registers, paths without wildcards and without a trailing slash, and for
  requests whose path needs no escaping. The handler that prints the metrics is the metrics
  library's, the argument \<open>expose\<close>.
\<close>

section \<open>Paths\<close>

fun split_path :: "string \<Rightarrow> string list" where
  "split_path [] = [[]]"
| "split_path (c # cs) = (if c = CHR ''/'' then [] # split_path cs
     else (case split_path cs of [] \<Rightarrow> [[c]] | seg # segs \<Rightarrow> (c # seg) # segs))"

text \<open>\<open>path.Clean\<close> of a rooted path: empty and dot elements vanish, a double dot takes its predecessor with it.\<close>

definition clean_step :: "string \<Rightarrow> string list \<Rightarrow> string list" where
  "clean_step seg st = (if seg = [] \<or> seg = ''.'' then st else if seg = ''..'' then tl st else seg # st)"

definition join_path :: "string list \<Rightarrow> string" where
  "join_path segs = concat (map (\<lambda>seg. CHR ''/'' # seg) segs)"

definition path_Clean :: "string \<Rightarrow> string" where
  "path_Clean p = (let segs = rev (fold clean_step (split_path p) []) in if segs = [] then ''/'' else join_path segs)"

definition cleanPath :: "string \<Rightarrow> string" where
  "cleanPath p =
    (if p = [] then ''/''
     else let p = (if hd p \<noteq> CHR ''/'' then CHR ''/'' # p else p); np = path_Clean p in
       if last p = CHR ''/'' \<and> np \<noteq> ''/'' then (if p = np @ ''/'' then p else np @ ''/'') else np)"

section \<open>Responses\<close>

definition newline :: string where
  "newline = [CHR 0x0A]"

definition html_escape :: "string \<Rightarrow> string" where
  "html_escape s = concat (map (\<lambda>c. if c = CHR ''&'' then ''&amp;'' else if c = CHR ''<'' then ''&lt;'' else if c = CHR ''>'' then ''&gt;''
     else if c = CHR 0x22 then ''&#34;'' else if c = CHR 0x27 then ''&#39;'' else [c]) s)"

definition http_NotFound :: "response_action list" where
  "http_NotFound = [SetHeader ''Content-Type'' ''text/plain; charset=utf-8'', SetHeader ''X-Content-Type-Options'' ''nosniff'',
     WriteHeader 404, WriteBody (''404 page not found'' @ newline)]"

definition http_Redirect :: "string \<Rightarrow> string \<Rightarrow> response_action list" where
  "http_Redirect httpMethod url =
    [SetHeader ''Location'' url] @
    (if httpMethod = ''GET'' \<or> httpMethod = ''HEAD'' then [SetHeader ''Content-Type'' ''text/html; charset=utf-8''] else []) @
    [WriteHeader 301] @
    (if httpMethod = ''GET'' then [WriteBody (''<a href='' @ [CHR 0x22] @ html_escape url @ [CHR 0x22] @
       ''>Moved Permanently</a>.'' @ newline @ newline)] else [])"

type_synonym 'm http_handler = "string \<Rightarrow> string \<Rightarrow> 'm \<Rightarrow> response_action list \<times> 'm"

definition ServeMux :: "(string \<times> 'm http_handler) list \<Rightarrow> 'm http_handler" where
  "ServeMux patterns httpMethod path m =
    (if httpMethod \<noteq> ''CONNECT'' \<and> cleanPath path \<noteq> path then (http_Redirect httpMethod (cleanPath path), m)
     else case map_of patterns path of None \<Rightarrow> (http_NotFound, m) | Some h \<Rightarrow> h httpMethod path m)"

section \<open>The operations server\<close>

definition health_response :: "response_action list" where
  "health_response = [SetHeader ''Content-Type'' ''application/json'', WriteHeader 200,
     WriteBody (''{'' @ [CHR 0x22] @ ''status'' @ [CHR 0x22] @ '':'' @ [CHR 0x22] @ ''ok'' @ [CHR 0x22] @ ''}'')]"

definition ops_Handler :: "'m http_handler \<Rightarrow> 'm http_handler" where
  "ops_Handler expose = ServeMux [(''/healthz'', \<lambda>_ _ m. (health_response, m)), (''/metrics'', expose)]"

definition ops_request :: "'m registry \<Rightarrow> 'm http_handler \<Rightarrow> int \<Rightarrow> 'm http_handler" where
  "ops_request R expose duration = Middleware R (ops_Handler expose) duration"

section \<open>Cleaning twice is cleaning once\<close>

lemma split_path_no_slash: "CHR ''/'' \<notin> set s \<Longrightarrow> split_path s = [s]"
  by (induction s) auto

lemma split_path_nonempty: "split_path s \<noteq> []"
  by (cases s) (auto split: list.split)

lemma split_path_append:
  "CHR ''/'' \<notin> set s \<Longrightarrow> split_path (s @ CHR ''/'' # t) = s # split_path t"
  by (induction s) auto

lemma split_path_segs: "seg \<in> set (split_path s) \<Longrightarrow> CHR ''/'' \<notin> set seg"
proof (induction s arbitrary: seg)
  case (Cons c s)
  then show ?case by (cases "split_path s") (auto split: if_splits)
qed simp

definition plain_seg :: "string \<Rightarrow> bool" where
  "plain_seg seg \<longleftrightarrow> seg \<noteq> [] \<and> seg \<noteq> ''.'' \<and> seg \<noteq> ''..'' \<and> CHR ''/'' \<notin> set seg"

lemma join_path_Cons: "join_path (seg # segs) = CHR ''/'' # seg @ join_path segs"
  by (simp add: join_path_def)

lemma split_join:
  assumes "list_all plain_seg segs" and "CHR ''/'' \<notin> set s"
  shows "split_path (s @ join_path segs) = s # segs" and "split_path (s @ join_path segs @ ''/'') = s # segs @ [[]]"
  using assms
proof (induction segs arbitrary: s)
  case Nil
  {
    case 1
    then show ?case by (simp add: join_path_def split_path_no_slash)
  next
    case 2
    then show ?case by (simp add: join_path_def split_path_append)
  }
next
  case (Cons seg segs)
  {
    case 1
    then show ?case using Cons.IH(1) [of seg] by (simp add: join_path_Cons split_path_append plain_seg_def)
  next
    case 2
    then show ?case using Cons.IH(2) [of seg] by (simp add: join_path_Cons split_path_append plain_seg_def)
  }
qed

lemma clean_plain: "list_all plain_seg segs \<Longrightarrow> fold clean_step segs st = rev segs @ st"
  by (induction segs arbitrary: st) (simp_all add: clean_step_def plain_seg_def)

lemma clean_step_plain:
  assumes "list_all plain_seg st" and "\<And>seg. seg \<in> set segs \<Longrightarrow> CHR ''/'' \<notin> set seg"
  shows "list_all plain_seg (fold clean_step segs st)"
  using assms
proof (induction segs arbitrary: st)
  case (Cons seg segs)
  have "list_all plain_seg (clean_step seg st)"
    using Cons.prems(1) Cons.prems(2) [of seg] by (cases st) (simp_all add: clean_step_def plain_seg_def [of seg])
  then show ?case using Cons by simp
qed simp

text \<open>A clean path is the root or plain elements, each after a slash, and perhaps one slash at the end.\<close>

definition canonical :: "string \<Rightarrow> bool" where
  "canonical p \<longleftrightarrow> p = ''/'' \<or> (\<exists>segs. segs \<noteq> [] \<and> list_all plain_seg segs \<and> (p = join_path segs \<or> p = join_path segs @ ''/''))"

lemma path_Clean_cases:
  obtains "path_Clean p = ''/''" | segs where "segs \<noteq> []" "list_all plain_seg segs" "path_Clean p = join_path segs"
proof -
  define segs where "segs = rev (fold clean_step (split_path p) [])"
  have "list_all plain_seg segs"
    using clean_step_plain [of "[]" "split_path p"] split_path_segs [of _ p] by (simp add: list_all_iff segs_def)
  moreover have "path_Clean p = (if segs = [] then ''/'' else join_path segs)" by (simp add: path_Clean_def segs_def Let_def)
  ultimately show thesis using that by (cases "segs = []") simp_all
qed

lemma cleanPath_eq:
  "cleanPath p = (if p = [] then ''/'' else let p = (if hd p \<noteq> CHR ''/'' then CHR ''/'' # p else p) in
     if last p = CHR ''/'' \<and> path_Clean p \<noteq> ''/'' then path_Clean p @ ''/'' else path_Clean p)"
  by (simp add: cleanPath_def Let_def)

lemma cleanPath_canonical: "canonical (cleanPath p)"
proof -
  have "canonical (path_Clean q)" "path_Clean q \<noteq> ''/'' \<Longrightarrow> canonical (path_Clean q @ ''/'')" for q
    by (cases q rule: path_Clean_cases; auto simp: canonical_def)+
  moreover have "canonical ''/''" by (simp add: canonical_def)
  ultimately show ?thesis by (simp add: cleanPath_eq Let_def)
qed

lemma cleanPath_root: "cleanPath ''/'' = ''/''"
  by code_simp

lemma cleanPath_fixed:
  assumes "canonical p"
  shows "cleanPath p = p"
proof (cases "p = ''/''")
  case False
  then obtain segs where s: "segs \<noteq> []" "list_all plain_seg segs" and p: "p = join_path segs \<or> p = join_path segs @ ''/''"
    using assms by (auto simp: canonical_def)
  have hd: "join_path segs \<noteq> []" "hd (join_path segs) = CHR ''/''" using s(1) by (cases segs; simp add: join_path_Cons)+
  obtain init seg where seg: "segs = init @ [seg]" using s(1) by (cases segs rule: rev_cases) simp_all
  have "seg \<noteq> []" "CHR ''/'' \<notin> set seg" using s(2) by (simp_all add: seg plain_seg_def)
  then have "last seg \<noteq> CHR ''/''" by (metis last_in_set)
  then have last: "last (join_path segs) \<noteq> CHR ''/''" using \<open>seg \<noteq> []\<close> by (simp add: seg join_path_def)
  then have "join_path segs \<noteq> ''/''" by auto
  have "path_Clean (join_path segs) = join_path segs" "path_Clean (join_path segs @ ''/'') = join_path segs"
    using split_join [OF s(2), of "[]"] clean_plain [OF s(2)] s(1) by (simp_all add: path_Clean_def clean_step_def)
  with \<open>join_path segs \<noteq> ''/''\<close> show ?thesis using p hd last by (elim disjE) (simp_all add: cleanPath_eq Let_def)
qed (simp add: cleanPath_root)

lemma cleanPath_idem: "cleanPath (cleanPath p) = cleanPath p"
  by (rule cleanPath_fixed [OF cleanPath_canonical])

section \<open>Requests\<close>

lemma http_status:
  "statusWriter http_NotFound = 404" "statusWriter (http_Redirect httpMethod url) = 301" "statusWriter health_response = 200"
  by (simp_all add: statusWriter_def http_NotFound_def http_Redirect_def health_response_def)

lemma ops_Handler_eq:
  "httpMethod \<noteq> ''CONNECT'' \<Longrightarrow> ops_Handler expose httpMethod path m =
    (if cleanPath path \<noteq> path then (http_Redirect httpMethod (cleanPath path), m) else if path = ''/healthz'' then (health_response, m)
     else if path = ''/metrics'' then expose httpMethod path m else (http_NotFound, m))"
  by (simp add: ops_Handler_def ServeMux_def)

lemma ops_Handler_keeps: "path \<noteq> ''/metrics'' \<Longrightarrow> httpMethod \<noteq> ''CONNECT'' \<Longrightarrow> \<exists>acts. ops_Handler expose httpMethod path m = (acts, m)"
  by (simp add: ops_Handler_eq)

lemma ops_request_value:
  assumes "registry_ok R"
  shows "rg_value R HttpRequests ls (snd (ops_request R expose d httpMethod path m)) =
    (case ops_Handler expose httpMethod path m of (acts, m1) \<Rightarrow>
      if ls = [httpMethod, path, FormatInt (statusWriter acts)] then Some (inc_sample (rg_value R HttpRequests ls m1))
      else rg_value R HttpRequests ls m1)"
  by (auto simp: ops_request_def Middleware_def registryD [OF assms] split: prod.split)


text \<open>
  C40: the number of series grows with the paths that clients ask for. The counter of requests is labelled
  with the path as it was sent, so after requests for any paths, known to the server or not,
  every one of them has a series of its own.
\<close>

theorem http_series_unbounded:
  assumes "registry_ok R" and "''/metrics'' \<notin> set paths"
  shows "set paths \<subseteq> {p. \<exists>st. rg_value R HttpRequests [''GET'', p, st] (fold (\<lambda>p m. snd (ops_request R expose d ''GET'' p m)) paths m) \<noteq> None}"
  using assms(2)
proof (induction paths rule: rev_induct)
  case (snoc p paths)
  define m1 where "m1 = fold (\<lambda>p m. snd (ops_request R expose d ''GET'' p m)) paths m"
  have IH: "set paths \<subseteq> {p. \<exists>st. rg_value R HttpRequests [''GET'', p, st] m1 \<noteq> None}"
    using snoc.IH snoc.prems unfolding m1_def by simp
  obtain acts where h: "ops_Handler expose ''GET'' p m1 = (acts, m1)"
    using ops_Handler_keeps [of p "''GET''" expose m1] snoc.prems by auto
  have v: "rg_value R HttpRequests ls (snd (ops_request R expose d ''GET'' p m1)) =
      (if ls = [''GET'', p, FormatInt (statusWriter acts)] then Some (inc_sample (rg_value R HttpRequests ls m1))
       else rg_value R HttpRequests ls m1)" for ls
    by (simp add: ops_request_value [OF assms(1)] h)
  have "\<exists>st. rg_value R HttpRequests [''GET'', q, st] (snd (ops_request R expose d ''GET'' p m1)) \<noteq> None" if q: "q \<in> set (paths @ [p])" for q
  proof (cases "q = p")
    case True
    then show ?thesis using v [of "[''GET'', p, FormatInt (statusWriter acts)]"] by auto
  next
    case False
    then have "q \<in> set paths" using q by simp
    then have "\<exists>st. rg_value R HttpRequests [''GET'', q, st] m1 \<noteq> None" using IH by blast
    then obtain st where "rg_value R HttpRequests [''GET'', q, st] m1 \<noteq> None" by blast
    then show ?thesis using v [of "[''GET'', q, st]"] by (auto split: if_splits)
  qed
  then show ?case by (auto simp: m1_def)
qed simp

definition demo_expose :: "(metric \<Rightarrow> string list \<Rightarrow> sample option) http_handler" where
  "demo_expose = (\<lambda>_ _ m. ([WriteHeader 200], m))"

lemma demo_value: "rg_value demo_registry m ls x = x m ls"
  by (simp add: demo_registry_def)


theorem http_series_unbounded_witness:
  "{''/a'', ''/b'', ''/c''} \<subseteq> {p. \<exists>st. fold (\<lambda>p m. snd (ops_request demo_registry demo_expose 0 ''GET'' p m)) [''/a'', ''/b'', ''/c''] (\<lambda>_ _. None)
     HttpRequests [''GET'', p, st] \<noteq> None}"
  using http_series_unbounded [OF demo_registry_ok, of "[''/a'', ''/b'', ''/c'']" demo_expose 0 "\<lambda>_ _. None"]
  unfolding demo_value by simp

end
