(* ===== verification/Cli.thy ===== *)
theory Cli
  imports Startup "HOL-Library.AList"
begin

text \<open>
  \<^verbatim>\<open>cmd/shardman/main.go\<close>: the command line tool over the client library. What the program uses of Go's
  \<open>flag\<close> package (parsing with exit on errors, numbers in any base), of \<open>strconv\<close> and of the JSON
  encoder is modelled; the set-up of the connection is the argument \<open>dial\<close>, and what is printed is
  kept as a value instead of its JSON text.
\<close>

section \<open>Numbers of any base\<close>

text \<open>\<open>strconv.ParseInt(s, 0, 64)\<close>, none on an error.\<close>

definition base_prefix :: "string \<Rightarrow> int \<times> string" where
  "base_prefix s = (case s of
     c # x # y # r \<Rightarrow>
       if c \<noteq> CHR ''0'' then (10, s)
       else if lower_char x = CHR ''b'' then (2, y # r)
       else if lower_char x = CHR ''o'' then (8, y # r)
       else if lower_char x = CHR ''x'' then (16, y # r) else (8, x # y # r)
   | c # r \<Rightarrow> if c = CHR ''0'' then (8, r) else (10, s)
   | [] \<Rightarrow> (10, s))"

definition base_digit :: "char \<Rightarrow> int option" where
  "base_digit c =
    (if is_digit c then Some (digit_val c)
     else let n = char_code (lower_char c) in if 97 \<le> n \<and> n \<le> 122 then Some (n - 87) else None)"

fun base_digits :: "int \<Rightarrow> int \<Rightarrow> string \<Rightarrow> int option" where
  "base_digits b n [] = Some n"
| "base_digits b n (c # s) =
    (if c = CHR ''_'' then base_digits b n s
     else case base_digit c of None \<Rightarrow> None
     | Some d \<Rightarrow> if b \<le> d \<or> 2 ^ 64 \<le> n * b + d then None else base_digits b (n * b + d) s)"

text \<open>\<open>underscoreOK\<close>: underscores stand between digits or behind the base prefix.\<close>

datatype seen = SeenStart | SeenDigit | SeenUnderscore | SeenOther

fun underscore_loop :: "bool \<Rightarrow> seen \<Rightarrow> string \<Rightarrow> bool" where
  "underscore_loop hex i [] = (i \<noteq> SeenUnderscore)"
| "underscore_loop hex i (c # s) =
    (if is_digit c \<or> hex \<and> 97 \<le> char_code (lower_char c) \<and> char_code (lower_char c) \<le> 102 then underscore_loop hex SeenDigit s
     else if c = CHR ''_'' then i = SeenDigit \<and> underscore_loop hex SeenUnderscore s
     else i \<noteq> SeenUnderscore \<and> underscore_loop hex SeenOther s)"

definition underscoreOK :: "string \<Rightarrow> bool" where
  "underscoreOK s = (case s of
     c # x # r \<Rightarrow>
       if c = CHR ''0'' \<and> lower_char x \<in> {CHR ''b'', CHR ''o'', CHR ''x''}
       then underscore_loop (lower_char x = CHR ''x'') SeenDigit r else underscore_loop False SeenStart s
   | _ \<Rightarrow> underscore_loop False SeenStart s)"

definition ParseUint0 :: "string \<Rightarrow> int option" where
  "ParseUint0 s =
    (if s = [] then None
     else case base_prefix s of (b, r) \<Rightarrow>
       (case base_digits b 0 r of None \<Rightarrow> None
        | Some n \<Rightarrow> if CHR ''_'' \<in> set r \<and> \<not> underscoreOK s then None else Some n))"

definition ParseInt0 :: "string \<Rightarrow> int option" where
  "ParseInt0 s = (case s of [] \<Rightarrow> None
     | c # r \<Rightarrow>
        if c = CHR ''-'' then (case ParseUint0 r of None \<Rightarrow> None | Some n \<Rightarrow> if 2 ^ 63 < n then None else Some (- n))
        else case ParseUint0 (if c = CHR ''+'' then r else s) of None \<Rightarrow> None
          | Some n \<Rightarrow> if 2 ^ 63 \<le> n then None else Some n)"

section \<open>Flags\<close>

datatype flag_value = FlagString string | FlagInt int

datatype flag_error = FlagInvalid | FlagHelp

definition flag_Set :: "flag_value \<Rightarrow> string \<Rightarrow> flag_value option" where
  "flag_Set old v = (case old of FlagString _ \<Rightarrow> Some (FlagString v) | FlagInt _ \<Rightarrow> map_option FlagInt (ParseInt0 v))"

type_synonym flag_set = "(string \<times> flag_value) list"

definition flag_assign :: "flag_set \<Rightarrow> string \<Rightarrow> string \<Rightarrow> flag_error + flag_set" where
  "flag_assign fs name v = (case map_of fs name of
     None \<Rightarrow> Inl (if name = ''help'' \<or> name = ''h'' then FlagHelp else FlagInvalid)
   | Some old \<Rightarrow> (case flag_Set old v of None \<Rightarrow> Inl FlagInvalid | Some new \<Rightarrow> Inr (AList.update name new fs)))"

text \<open>The name in front of the first equals sign that is not at the start, and the value behind it.\<close>

definition split_flag :: "string \<Rightarrow> string \<times> string option" where
  "split_flag name = (case name of [] \<Rightarrow> ([], None)
     | c # r \<Rightarrow> (let n = takeWhile (\<lambda>x. x \<noteq> CHR ''='') r; v = dropWhile (\<lambda>x. x \<noteq> CHR ''='') r in
        (c # n, case v of [] \<Rightarrow> None | _ # w \<Rightarrow> Some w)))"

definition strip_minus :: "string \<Rightarrow> string" where
  "strip_minus s = (if take 2 s = ''--'' then drop 2 s else drop 1 s)"

function parse_flags :: "flag_set \<Rightarrow> string list \<Rightarrow> flag_error + flag_set \<times> string list" where
  "parse_flags fs args = (case args of [] \<Rightarrow> Inr (fs, [])
     | s # rest \<Rightarrow>
        if length s < 2 \<or> hd s \<noteq> CHR ''-'' then Inr (fs, s # rest)
        else if s = ''--'' then Inr (fs, rest)
        else (let name = strip_minus s in
          if name = [] \<or> hd name = CHR ''-'' \<or> hd name = CHR ''='' then Inl FlagInvalid
          else case split_flag name of (n, v) \<Rightarrow>
            if map_of fs n = None then Inl (if n = ''help'' \<or> n = ''h'' then FlagHelp else FlagInvalid)
            else (case v of
              Some w \<Rightarrow> (case flag_assign fs n w of Inl e \<Rightarrow> Inl e | Inr fs' \<Rightarrow> parse_flags fs' rest)
            | None \<Rightarrow> (case rest of [] \<Rightarrow> Inl FlagInvalid
                | w # rest' \<Rightarrow> (case flag_assign fs n w of Inl e \<Rightarrow> Inl e | Inr fs' \<Rightarrow> parse_flags fs' rest')))))"
  by pat_completeness auto
termination
  by (relation "measure (\<lambda>(fs, args). length args)") auto

declare parse_flags.simps [simp del]

definition flag_str :: "flag_set \<Rightarrow> string \<Rightarrow> string" where
  "flag_str fs n = (case map_of fs n of Some (FlagString s) \<Rightarrow> s | _ \<Rightarrow> [])"

definition flag_int :: "flag_set \<Rightarrow> string \<Rightarrow> int" where
  "flag_int fs n = (case map_of fs n of Some (FlagInt v) \<Rightarrow> v | _ \<Rightarrow> 0)"

section \<open>The JSON of a specification\<close>

definition hex_digit :: "int \<Rightarrow> char" where
  "hex_digit n = (if n < 10 then char_of (48 + n) else char_of (87 + n))"

definition u_escape :: "int \<Rightarrow> string" where
  "u_escape n = [char_of (92 :: int), CHR ''u'', hex_digit (n div 4096 mod 16), hex_digit (n div 256 mod 16),
     hex_digit (n div 16 mod 16), hex_digit (n mod 16)]"

definition quote_ascii :: "char \<Rightarrow> string" where
  "quote_ascii c = (let n = char_code c; esc = (\<lambda>x. [char_of (92 :: int), x]) in
     if n = 34 \<or> n = 92 then esc c
     else if n = 8 then esc (CHR ''b'') else if n = 12 then esc (CHR ''f'') else if n = 10 then esc (CHR ''n'')
     else if n = 13 then esc (CHR ''r'') else if n = 9 then esc (CHR ''t'')
     else if n < 32 \<or> n = 38 \<or> n = 60 \<or> n = 62 then u_escape n else [c])"

text \<open>The length of the well-formed UTF-8 sequence of more than one byte at the front, 0 if there is none.\<close>

definition continuation :: "int \<Rightarrow> bool" where
  "continuation n \<longleftrightarrow> 128 \<le> n \<and> n < 192"

definition rune_len :: "int list \<Rightarrow> nat" where
  "rune_len s = (case s of
     a # b # r \<Rightarrow>
       if 194 \<le> a \<and> a < 224 then (if continuation b then 2 else 0)
       else if 224 \<le> a \<and> a < 240 then
         (if (if a = 224 then 160 \<le> b \<and> b < 192 else if a = 237 then 128 \<le> b \<and> b < 160 else continuation b) \<and>
             r \<noteq> [] \<and> continuation (hd r) then 3 else 0)
       else if 240 \<le> a \<and> a < 245 then
         (if (if a = 240 then 144 \<le> b \<and> b < 192 else if a = 244 then 128 \<le> b \<and> b < 144 else continuation b) \<and>
             1 < length r \<and> continuation (r ! 0) \<and> continuation (r ! 1) then 4 else 0)
       else 0
   | _ \<Rightarrow> 0)"

function json_quote :: "string \<Rightarrow> string" where
  "json_quote s = (case s of [] \<Rightarrow> []
     | c # r \<Rightarrow>
        if char_code c < 128 then quote_ascii c @ json_quote r
        else let n = rune_len (map char_code s) in
          if n = 0 then u_escape 65533 @ json_quote r
          else (if map char_code (take n s) = [226, 128, 168] then u_escape 8232
                else if map char_code (take n s) = [226, 128, 169] then u_escape 8233 else take n s) @ json_quote (drop n s))"
  by pat_completeness auto
termination
  by (relation "measure length") auto

declare json_quote.simps [simp del]

definition json_string :: "string \<Rightarrow> string" where
  "json_string s = [char_of (34 :: int)] @ json_quote s @ [char_of (34 :: int)]"

definition json_member :: "string \<Rightarrow> string \<Rightarrow> string" where
  "json_member k v = json_string k @ '':'' @ v"

text \<open>\<open>client.JSONSpec\<close> of the three maps; the encoder sorts the keys.\<close>

definition JSONSpec_width :: "int \<Rightarrow> string" where
  "JSONSpec_width w = ''{'' @ json_member ''width'' (FormatInt w) @ ''}''"

definition JSONSpec_buckets :: "int \<Rightarrow> string" where
  "JSONSpec_buckets n = ''{'' @ json_member ''bucket_count'' (FormatInt n) @ '','' @
     json_member ''hash_algo'' (json_string ''xxhash64'') @ ''}''"

definition JSONSpec_unit :: "string \<Rightarrow> string" where
  "JSONSpec_unit u = ''{'' @ json_member ''unit'' (json_string u) @ ''}''"

section \<open>The commands\<close>

datatype cli_out =
    OutNothing | OutUsage | OutError cerr | OutBootstrap "string \<times> int" | OutShards "PShard list" | OutTopology Topology
  | OutShard PShard | OutWrite WriteResult | OutRead ReadResult | OutRotated

text \<open>An exit code, what is printed, and the state behind.\<close>

type_synonym 'r cli = "Client \<times> 'r \<Rightarrow> int \<times> cli_out \<times> Client \<times> 'r"

definition printResult :: "('a \<Rightarrow> cli_out) \<Rightarrow> (cerr + 'a) \<times> Client \<times> 'r \<Rightarrow> int \<times> cli_out \<times> Client \<times> 'r" where
  "printResult out r = (case r of (Inl e, s) \<Rightarrow> (1, OutError e, s) | (Inr x, s) \<Rightarrow> (0, out x, s))"

definition rpc :: "(code + 'a) \<times> 's \<Rightarrow> (cerr + 'a) \<times> 's" where
  "rpc r = (case r of (Inl e, s) \<Rightarrow> (Inl (RpcError e), s) | (Inr x, s) \<Rightarrow> (Inr x, s))"

text \<open>A flag set that ends the process on an error.\<close>

definition with_flags :: "flag_set \<Rightarrow> string list \<Rightarrow> (flag_set \<Rightarrow> string list \<Rightarrow> 's \<Rightarrow> int \<times> cli_out \<times> 's) \<Rightarrow> 's \<Rightarrow> int \<times> cli_out \<times> 's" where
  "with_flags fs args k s = (case parse_flags fs args of
     Inl FlagHelp \<Rightarrow> (0, OutUsage, s) | Inl FlagInvalid \<Rightarrow> (2, OutUsage, s) | Inr (fs', rest) \<Rightarrow> k fs' rest s)"

definition bootstrap_flags :: flag_set where
  "bootstrap_flags = [(''axis'', FlagString ''time''), (''unit'', FlagString ''month''), (''width'', FlagInt 0), (''buckets'', FlagInt 256),
     (''retention'', FlagInt 3), (''future'', FlagInt 0), (''max-bytes'', FlagInt (2 ^ 30))]"

definition bootstrap_request :: "flag_set \<Rightarrow> BootstrapRequest" where
  "bootstrap_request fs =
    (let axis = flag_str fs ''axis'' in
     \<lparr>br_mode = (if axis = ''hash'' then ''hash'' else ''range''), br_axis = axis,
      br_spec = (if axis = ''numeric'' then JSONSpec_width (flag_int fs ''width'')
        else if axis = ''hash'' then JSONSpec_buckets (flag_int fs ''buckets'') else JSONSpec_unit (flag_str fs ''unit'')),
      br_max = flag_int fs ''max-bytes'',
      br_retention = (if axis = ''time'' then Some (wrap32 (flag_int fs ''retention'')) else None),
      br_future = (if axis = ''time'' then Some (wrap32 (flag_int fs ''future'')) else None)\<rparr>)"

definition runBootstrap :: "'r remote \<Rightarrow> string list \<Rightarrow> 'r cli" where
  "runBootstrap R args = with_flags bootstrap_flags args (\<lambda>fs _ cs.
     printResult OutBootstrap (rpc (ClientBootstrap R (bootstrap_request fs) cs)))"

definition ClientGetTopology :: "'r remote \<Rightarrow> Client \<times> 'r \<Rightarrow> (code + Topology) \<times> Client \<times> 'r" where
  "ClientGetTopology R = (\<lambda>(c, s). case rm_get R s of (r, s') \<Rightarrow> (r, c, s'))"

definition runShards :: "'r remote \<Rightarrow> 'r cli" where
  "runShards R cs = printResult (\<lambda>t. OutShards (tp_shards t)) (rpc (ClientGetTopology R cs))"

definition runTopology :: "'r remote \<Rightarrow> 'r cli" where
  "runTopology R cs = printResult OutTopology (rpc (ClientGetTopology R cs))"

definition runRegister :: "'r remote \<Rightarrow> string list \<Rightarrow> 'r cli" where
  "runRegister R args = with_flags
    [(''uuid'', FlagString []), (''dsn'', FlagString []), (''role'', FlagString ''data''), (''url'', FlagString [])] args (\<lambda>fs _ cs.
     printResult OutShard (rpc (ClientRegisterShard R
       \<lparr>rq_uuid = flag_str fs ''uuid'', rq_role = flag_str fs ''role'', rq_dsn = flag_str fs ''dsn'',
        rq_advertise = flag_str fs ''url'', rq_startup = ''standby''\<rparr> cs)))"

definition runResolveWrite :: "golib \<Rightarrow> 'r remote \<Rightarrow> gtime \<Rightarrow> string list \<Rightarrow> 'r cli" where
  "runResolveWrite L R now args = with_flags [(''key'', FlagString [])] args (\<lambda>fs _ cs.
     printResult OutWrite (ClientResolveWrite L R now (KString (flag_str fs ''key'')) cs))"

definition runResolveRead :: "golib \<Rightarrow> 'r remote \<Rightarrow> gtime \<Rightarrow> string list \<Rightarrow> 'r cli" where
  "runResolveRead L R now args = with_flags [(''key'', FlagString [])] args (\<lambda>fs _ cs.
     printResult OutRead (ClientResolveRead L R now (KString (flag_str fs ''key'')) cs))"

definition runSealRotate :: "'r remote \<Rightarrow> string list \<Rightarrow> 'r cli" where
  "runSealRotate R args = with_flags [(''bucket'', FlagString [])] args (\<lambda>fs _ cs.
     printResult (\<lambda>_. OutRotated) (rpc (ClientSealRotate R (flag_str fs ''bucket'') cs)))"

definition cli_command :: "golib \<Rightarrow> 'r remote \<Rightarrow> gtime \<Rightarrow> string \<Rightarrow> string list \<Rightarrow> 'r cli" where
  "cli_command L R now cmd args =
    (if cmd = ''bootstrap'' then runBootstrap R args
     else if cmd = ''shards'' then runShards R
     else if cmd = ''register'' then runRegister R args
     else if cmd = ''resolve-write'' then runResolveWrite L R now args
     else if cmd = ''resolve-read'' then runResolveRead L R now args
     else if cmd = ''seal-rotate'' then runSealRotate R args
     else if cmd = ''topology'' then runTopology R
     else (\<lambda>cs. (1, OutUsage, cs)))"

definition main_flags :: "environ \<Rightarrow> flag_set" where
  "main_flags env = [(''addr'', FlagString (getenv env ''SHARDMAN_ADDR'' ''localhost:9090'')), (''key'', FlagString (env ''CLUSTER_KEY''))]"

definition cli_main :: "golib \<Rightarrow> (string \<Rightarrow> string \<Rightarrow> 'r remote res) \<Rightarrow> gtime \<Rightarrow> environ \<Rightarrow> string list \<Rightarrow> 'r \<Rightarrow> int \<times> cli_out \<times> 'r" where
  "cli_main L dial now env args = with_flags (main_flags env) args (\<lambda>fs rest s.
     case rest of [] \<Rightarrow> (1, OutUsage, s)
     | cmd # cargs \<Rightarrow> (case dial (flag_str fs ''addr'') (flag_str fs ''key'') of
         Inl e \<Rightarrow> (1, OutError (ClientError e), s)
       | Inr R \<Rightarrow> (case cli_command L R now cmd cargs (Dial R s) of (code, out, _, s') \<Rightarrow> (code, out, s'))))"

section \<open>The specification of a bootstrap is read back\<close>

lemma int_digits_hd: "0 < n \<Longrightarrow> hd (int_digits n) \<noteq> CHR ''0'' \<and> is_digit (hd (int_digits n))"
proof (induction n rule: int_digits.induct)
  case (1 n)
  have z: "digit_char d \<noteq> CHR ''0''" if "0 < d" "d < 10" for d
    using char_code_digit_char [of d] that by (auto simp: char_code_def)
  show ?case
  proof (cases "n < 10")
    case True
    then show ?thesis using 1(2) z by (simp add: int_digits_small)
  next
    case False
    then show ?thesis using 1 by (simp add: int_digits_large hd_append)
  qed
qed

text \<open>A positive number literal that ends at a delimiter.\<close>

lemma jvalue_digits:
  assumes "0 < n" and "\<not> is_digit c" and "c \<notin> {CHR ''.'', CHR ''e'', CHR ''E''}"
  shows "jvalue (int_digits n @ c # t) = Some (JNum (int_digits n), c # t)"
proof -
  obtain h ds where d: "int_digits n = h # ds" by (cases "int_digits n") auto
  have h: "h \<noteq> CHR ''0''" "is_digit h" using int_digits_hd [OF assms(1)] d by auto
  have all: "\<forall>x \<in> set (h # ds). is_digit x" using int_digits_all_digits [of n] assms(1) d by auto
  then have tw: "takeWhile is_digit (h # ds @ c # t) = h # ds" "dropWhile is_digit (h # ds @ c # t) = c # t"
    using assms(2) by (simp_all add: takeWhile_append2 dropWhile_append2)
  have "48 \<le> char_code h" "char_code h \<le> 57" using h(2) by (auto simp: is_digit_def)
  then have ne: "\<not> is_ws h" "char_code h \<noteq> 34" "h \<noteq> CHR ''{''" "h \<noteq> CHR ''[''" "h \<noteq> CHR ''t''" "h \<noteq> CHR ''f''" "h \<noteq> CHR ''n''" "h \<noteq> CHR ''-''"
    by (auto simp: is_ws_def char_code_def)
  have "jnumber (h # ds @ c # t) = Some (h # ds, c # t)"
    using ne h tw assms(3) by (simp add: jnumber_def jint_def jdigits_def jfrac_def jexp_def Let_def)
  then show ?thesis using ne by (simp add: d jvalue.simps [of "h # ds @ c # t"] skip_ws_def)
qed

lemma json_names:
  "json_string ''width'' = [CHR 0x22, CHR ''w'', CHR ''i'', CHR ''d'', CHR ''t'', CHR ''h'', CHR 0x22]"
  "json_string ''bucket_count'' = [CHR 0x22, CHR ''b'', CHR ''u'', CHR ''c'', CHR ''k'', CHR ''e'', CHR ''t'', CHR ''_'',
     CHR ''c'', CHR ''o'', CHR ''u'', CHR ''n'', CHR ''t'', CHR 0x22]"
  by code_simp+

lemma members_width:
  assumes "0 < w"
  shows "unmarshal_members (JSONSpec_width w) = Inr [(''width'', JNum (int_digits w))]"
proof -
  let ?body = "[CHR 0x22, CHR ''w'', CHR ''i'', CHR ''d'', CHR ''t'', CHR ''h'', CHR 0x22, CHR '':''] @ int_digits w @ ''}''"
  have v: "jvalue (int_digits w @ ''}'') = Some (JNum (int_digits w), ''}'')"
    using jvalue_digits [OF assms, of "CHR ''}''" "[]"] by (simp add: is_digit_def char_code_def)
  have "jmembers ?body = Some ([(''width'', JNum (int_digits w))], [])"
    using v by (subst jmembers.simps) (simp add: skip_ws_def is_ws_def char_code_def)
  then show ?thesis
    using assms by (simp add: unmarshal_members_def json_parse_def JSONSpec_width_def json_member_def json_names FormatInt_def
        jvalue.simps [of "CHR ''{'' # _"] skip_ws_def is_ws_def char_code_def)
qed

lemma members_buckets:
  assumes "0 < n"
  shows "unmarshal_members (JSONSpec_buckets n) = Inr [(''bucket_count'', JNum (int_digits n)), (''hash_algo'', JStr ''xxhash64'')]"
proof -
  let ?tail = "json_member ''hash_algo'' (json_string ''xxhash64'') @ ''}''"
  let ?body = "json_string ''bucket_count'' @ '':'' @ int_digits n @ '','' @ ?tail"
  have v: "jvalue (int_digits n @ CHR '','' # ?tail) = Some (JNum (int_digits n), CHR '','' # ?tail)"
    using jvalue_digits [OF assms, of "CHR '',''" ?tail] by (simp add: is_digit_def char_code_def)
  have t: "jmembers ?tail = Some ([(''hash_algo'', JStr ''xxhash64'')], [])" by code_simp
  have "jmembers ?body = Some ([(''bucket_count'', JNum (int_digits n)), (''hash_algo'', JStr ''xxhash64'')], [])"
    using v t by (subst jmembers.simps) (simp add: json_names skip_ws_def is_ws_def char_code_def)
  then show ?thesis
    using assms by (simp add: unmarshal_members_def json_parse_def JSONSpec_buckets_def json_member_def FormatInt_def json_names
        jvalue.simps [of "CHR ''{'' # _"] skip_ws_def is_ws_def char_code_def)
qed

lemma ParseInt_opt_digits: "0 < n \<Longrightarrow> n < 2 ^ 63 \<Longrightarrow> ParseInt_opt (int_digits n) = Some n"
  using ParseInt_FormatInt [of n] by (simp add: ParseInt_opt_def FormatInt_def int64_ok_def)

text \<open>What the tool asks for when its flags make sense.\<close>

definition bootstrap_valid :: "flag_set \<Rightarrow> bool" where
  "bootstrap_valid fs \<longleftrightarrow> 0 < flag_int fs ''max-bytes'' \<and>
    (flag_str fs ''axis'' = ''numeric'' \<and> 0 < flag_int fs ''width'' \<and> flag_int fs ''width'' < 2 ^ 63 \<or>
     flag_str fs ''axis'' = ''hash'' \<and> 0 < flag_int fs ''buckets'' \<and> flag_int fs ''buckets'' < 2 ^ 63 \<or>
     flag_str fs ''axis'' = ''time'' \<and> flag_str fs ''unit'' \<in> {''hour'', ''day'', ''month''} \<and>
       1 \<le> wrap32 (flag_int fs ''retention'') \<and> 0 \<le> wrap32 (flag_int fs ''future''))"

lemma spec_read_back:
  "0 < w \<Longrightarrow> w < 2 ^ 63 \<Longrightarrow> ParseSpec AxisNumeric (JSONSpec_width w) = Inr ((spec0 AxisNumeric (JSONSpec_width w))\<lparr>sp_width := w\<rparr>)"
  "0 < n \<Longrightarrow> n < 2 ^ 63 \<Longrightarrow> ParseSpec AxisHash (JSONSpec_buckets n) =
     Inr ((spec0 AxisHash (JSONSpec_buckets n))\<lparr>sp_bucket_count := n, sp_hash_algo := HashAlgoXXHash64\<rparr>)"
  "u \<in> {''hour'', ''day'', ''month''} \<Longrightarrow> ParseSpec AxisTime (JSONSpec_unit u) =
     Inr ((spec0 AxisTime (JSONSpec_unit u))\<lparr>sp_unit := unit_of_string u\<rparr>)"
proof -
  assume "0 < w" "w < 2 ^ 63"
  then show "ParseSpec AxisNumeric (JSONSpec_width w) = Inr ((spec0 AxisNumeric (JSONSpec_width w))\<lparr>sp_width := w\<rparr>)"
    by (simp add: ParseSpec_def members_width dec_int64_def ParseInt_opt_digits field_matches_def Let_def)
      (simp add: JSONSpec_width_def)
next
  assume "0 < n" "n < 2 ^ 63"
  moreover have "\<not> field_matches ''hash_algo'' ''bucket_count''" "\<not> field_matches ''bucket_count'' ''hash_algo''"
    "HashAlgoXXHash64 = ''xxhash64''" by code_simp+
  ultimately show "ParseSpec AxisHash (JSONSpec_buckets n) =
     Inr ((spec0 AxisHash (JSONSpec_buckets n))\<lparr>sp_bucket_count := n, sp_hash_algo := HashAlgoXXHash64\<rparr>)"
    by (simp add: ParseSpec_def members_buckets dec_int64_def dec_string_def ParseInt_opt_digits Let_def)
      (simp add: JSONSpec_buckets_def field_matches_def)
next
  have "ParseSpec AxisTime (JSONSpec_unit ''hour'') = Inr ((spec0 AxisTime (JSONSpec_unit ''hour''))\<lparr>sp_unit := unit_of_string ''hour''\<rparr>)"
    "ParseSpec AxisTime (JSONSpec_unit ''day'') = Inr ((spec0 AxisTime (JSONSpec_unit ''day''))\<lparr>sp_unit := unit_of_string ''day''\<rparr>)"
    "ParseSpec AxisTime (JSONSpec_unit ''month'') = Inr ((spec0 AxisTime (JSONSpec_unit ''month''))\<lparr>sp_unit := unit_of_string ''month''\<rparr>)"
    by code_simp+
  moreover assume "u \<in> {''hour'', ''day'', ''month''}"
  ultimately show "ParseSpec AxisTime (JSONSpec_unit u) = Inr ((spec0 AxisTime (JSONSpec_unit u))\<lparr>sp_unit := unit_of_string u\<rparr>)"
    by auto
qed

section \<open>Bootstrapping a cluster from the command line\<close>

definition config_row_of :: "ClusterConfig \<Rightarrow> string \<Rightarrow> config_row" where
  "config_row_of cfg js = \<lparr>cr_mode = cc_mode cfg, cr_axis = axis_string (cc_axis cfg), cr_spec = js, cr_max_bytes = cc_max_bytes cfg,
     cr_retention = cc_retention cfg, cr_future = cc_future cfg, cr_version = 1\<rparr>"

lemma Bootstrap_healthy:
  assumes h: "healthy S (w_orc w)" and d: "db_constraints (w_db w)" "db_config (w_db w) = None"
    and spec: "ParseSpec (cc_axis cfg) (cc_raw cfg) = Inr spec" and js: "pg_jsonb (st_pg S) (cc_raw cfg) = Some js"
    and ok: "config_row_ok (config_row_of cfg js)"
  obtains w' where "Bootstrap S cfg w = (Inr (), w')" and "w_orc w' = w_orc w"
    and "w_db w' = (w_db w)\<lparr>db_config := Some (config_row_of cfg js)\<rparr>" and "w_cache w' = Some (cfg\<lparr>cc_spec := spec\<rparr>)"
proof -
  define w0 where "w0 = w\<lparr>w_pc := Suc (w_pc w), w_aborted := False, w_now := sl_now (w_orc w (w_pc w))\<rparr>"
  let ?d = "(w_db w)\<lparr>db_config := Some (config_row_of cfg js)\<rparr>"
  have "db_constraints ?d" using d ok by (auto simp: db_constraints_def)
  then obtain w1 where w1: "bootstrap_tx S cfg w0 = (Inr (Commit (cfg\<lparr>cc_spec := spec\<rparr>)), w1)" "\<not> w_aborted w1" "w_orc w1 = w_orc w" "w_db w1 = ?d"
    using h d(2) spec js
    by (simp add: bootstrap_tx_def bind_io_def catch_io_def return_io_def tx_stmt_healthy config_exists_def insert_config_def
        write_db_def w0_def config_row_of_def)
  have "run_tx (bootstrap_tx S cfg) w = (Inr (cfg\<lparr>cc_spec := spec\<rparr>), w1\<lparr>w_pc := Suc (w_pc w1)\<rparr>)"
    by (rule run_tx_healthy [OF h _ w1(2,3)]) (use w1(1) in \<open>simp add: w0_def\<close>)
  then show thesis
    using w1(3,4)
    by (intro that [of "storeConfigCache (Some (cfg\<lparr>cc_spec := spec\<rparr>)) (w1\<lparr>w_pc := Suc (w_pc w1)\<rparr>)"])
       (simp_all add: Bootstrap_def bind_io_def catch_io_def cache_io_def storeConfigCache_def)
qed

lemma bootstrap_request_valid:
  assumes "bootstrap_valid fs"
  defines "req \<equiv> bootstrap_request fs" and "axis \<equiv> axis_of_string (flag_str fs ''axis'')"
  obtains spec where "bootstrap_mode req = br_mode req" and "bootstrap_axis req = axis"
    and "ValidateBootstrap (br_mode req) axis (br_retention req) (br_future req) = Inr ()" and "ParseSpec axis (br_spec req) = Inr spec"
    and "0 < br_max req" and "br_max req = flag_int fs ''max-bytes''" and "axis_string axis = flag_str fs ''axis''"
    and "\<And>js. config_row_ok (config_row_of \<lparr>cc_mode = br_mode req, cc_axis = axis, cc_spec = spec, cc_raw = br_spec req,
      cc_max_bytes = br_max req, cc_retention = br_retention req, cc_future = br_future req\<rparr> js)"
proof -
  have mh: "ModeHash = ''hash''" "ModeRange = ''range''" by (simp_all add: ModeHash_def ModeRange_def)
  have len: "char_len ''hash'' \<le> 32" "char_len ''range'' \<le> 32" "char_len ''hash'' \<le> 16" "char_len ''numeric'' \<le> 16" "char_len ''time'' \<le> 16"
    by code_simp+
  have "\<exists>spec. ParseSpec axis (br_spec req) = Inr spec"
    using assms(1) spec_read_back by (auto simp: req_def axis_def bootstrap_request_def bootstrap_valid_def axis_of_string_def Let_def)
  then obtain spec where spec: "ParseSpec axis (br_spec req) = Inr spec" ..
  show thesis
    using assms(1) wrap32_range len
    by (intro that [OF _ _ _ spec])
       (auto simp: req_def axis_def bootstrap_request_def bootstrap_valid_def bootstrap_mode_def bootstrap_axis_def Let_def mh
         axis_of_string_def ValidateBootstrap_def config_row_ok_def config_row_of_def int32_opt_def int64_ok_def)
qed

lemma BootstrapCluster_healthy:
  assumes h: "healthy (gs_store gs) (w_orc (sv_world s))" and d: "db_constraints (w_db (sv_world s))" "db_config (w_db (sv_world s)) = None"
    and "hub_ok s" and key: "gs_key gs \<noteq> []" and v: "bootstrap_valid fs"
    and js: "pg_jsonb (st_pg (gs_store gs)) (br_spec (bootstrap_request fs)) = Some js"
  obtains s' n row where "BootstrapCluster gs (adminCtx (gs_key gs)) (bootstrap_request fs) s = (Inr (''bootstrapped'', n), s')"
    and "db_config (w_db (sv_world s')) = Some row" and "cr_spec row = js" and "cr_axis row = flag_str fs ''axis''"
    and "cr_max_bytes row = flag_int fs ''max-bytes''" and "cr_version row = 1" and "w_orc (sv_world s') = w_orc (sv_world s)"
proof -
  let ?req = "bootstrap_request fs" and ?S = "gs_store gs"
  obtain spec where r: "bootstrap_mode ?req = br_mode ?req" "bootstrap_axis ?req = axis_of_string (flag_str fs ''axis'')"
      "ValidateBootstrap (br_mode ?req) (axis_of_string (flag_str fs ''axis'')) (br_retention ?req) (br_future ?req) = Inr ()"
      "ParseSpec (axis_of_string (flag_str fs ''axis'')) (br_spec ?req) = Inr spec" "0 < br_max ?req" "br_max ?req = flag_int fs ''max-bytes''"
      "\<And>js. config_row_ok (config_row_of \<lparr>cc_mode = br_mode ?req, cc_axis = axis_of_string (flag_str fs ''axis''), cc_spec = spec,
        cc_raw = br_spec ?req, cc_max_bytes = br_max ?req, cc_retention = br_retention ?req, cc_future = br_future ?req\<rparr> js)"
    using bootstrap_request_valid [OF v] by metis
  define cfg where "cfg = \<lparr>cc_mode = br_mode ?req, cc_axis = axis_of_string (flag_str fs ''axis''), cc_spec = spec,
        cc_raw = br_spec ?req, cc_max_bytes = br_max ?req, cc_retention = br_retention ?req, cc_future = br_future ?req\<rparr>"
  obtain w' where w': "Bootstrap ?S cfg (sv_world s) = (Inr (), w')" "w_orc w' = w_orc (sv_world s)"
      "w_db w' = (w_db (sv_world s))\<lparr>db_config := Some (config_row_of cfg js)\<rparr>"
    using Bootstrap_healthy [OF h d, of cfg spec js] r js by (auto simp: cfg_def)
  let ?s1 = "s\<lparr>sv_world := w'\<rparr>"
  obtain s' where s': "notifyTopology ?S ?s1 = (Inr (), s')" "w_db (sv_world s') = w_db w'"
    using notifyTopology_healthy [of ?S ?s1] h assms(4) w'(2) by (auto simp: hub_ok_def)
  have "srv_keeps UNIV (notifyTopology ?S)" by (rule steps.follows_notify)
  then have "w_orc (sv_world s') = w_orc w'"
    using s'(1) quiet_rely healthyD(1) [OF h] w'(2) unfolding srv_keeps_def moves_def by (metis snd_conv srv.select_convs(1) srv.surjective srv.update_convs(1))
  moreover have "BootstrapCluster gs (adminCtx (gs_key gs)) ?req s = (Inr (''bootstrapped'', min_shards (cc_axis cfg) (br_retention ?req) (br_future ?req)), s')"
    using r w'(1) s'(1) key checkKey_same [of "gs_key gs"]
    by (simp add: BootstrapCluster_def with_key_def requireKey_def adminCtx_def Let_def call_def on_store_def notify_then_def reply_def cfg_def)
  ultimately show thesis
    using that w'(2,3) s'(2) r(6) by (simp add: config_row_of_def cfg_def)
qed

lemma csteps_none: "csteps {} c c' \<Longrightarrow> c' = c"
  by (induction rule: csteps_induct) auto

lemma GetTopology_keeps_config:
  assumes "quiet (w_orc (sv_world s))" and "db_constraints (w_db (sv_world s))" and "GetTopology gs s = (r, s')"
  shows "db_config (w_db (sv_world s')) = db_config (w_db (sv_world s))" and "w_orc (sv_world s') = w_orc (sv_world s)"
    and "db_constraints (w_db (sv_world s'))"
proof -
  have "srv_keeps {} (run_call gs None CallGetTopology)" by (rule run_call_keeps) simp
  moreover have "sv_world (snd (run_call gs None CallGetTopology s)) = sv_world s'"
    using assms(3) by (simp add: outcome_def split: sum.split)
  ultimately have m: "moves {} (sv_world s) (sv_world s')" using quiet_rely [OF assms(1)] unfolding srv_keeps_def by metis
  then have "cluster_of (w_db (sv_world s')) = cluster_of (w_db (sv_world s))"
    using assms(2) csteps_none by (auto simp: moves_def db_steps_def)
  then show "db_config (w_db (sv_world s')) = db_config (w_db (sv_world s))" by (metis cluster_of_config)
  show "w_orc (sv_world s') = w_orc (sv_world s)" "db_constraints (w_db (sv_world s'))"
    using m assms(2) by (simp_all add: moves_def db_steps_def)
qed

lemma BootstrapCluster_again:
  assumes h: "healthy (gs_store gs) (w_orc (sv_world s))" and d: "db_config (w_db (sv_world s)) = Some row"
    and key: "gs_key gs \<noteq> []" and v: "bootstrap_valid fs"
  obtains s' where "BootstrapCluster gs (adminCtx (gs_key gs)) (bootstrap_request fs) s = (Inl AlreadyExists, s')"
    and "w_db (sv_world s') = w_db (sv_world s)"
proof -
  let ?req = "bootstrap_request fs" and ?S = "gs_store gs"
  have tx: "\<exists>w'. Bootstrap ?S cfg w = (Inl ErrAlreadyBootstrapped, w') \<and> w_db w' = w_db w"
    if "healthy ?S (w_orc w)" "db_config (w_db w) = Some row" for cfg w
    using that healthyD(1,2) [OF that(1)]
    by (simp add: Bootstrap_def bind_io_def catch_io_def run_tx_def Let_def bootstrap_tx_def tx_stmt_healthy config_exists_def
        fail_io_def quiet_def)
  obtain spec where r: "bootstrap_mode ?req = br_mode ?req" "bootstrap_axis ?req = axis_of_string (flag_str fs ''axis'')"
      "ValidateBootstrap (br_mode ?req) (axis_of_string (flag_str fs ''axis'')) (br_retention ?req) (br_future ?req) = Inr ()"
      "ParseSpec (axis_of_string (flag_str fs ''axis'')) (br_spec ?req) = Inr spec" "0 < br_max ?req"
    using bootstrap_request_valid [OF v] by metis
  obtain w' where w': "Bootstrap ?S \<lparr>cc_mode = br_mode ?req, cc_axis = axis_of_string (flag_str fs ''axis''), cc_spec = spec,
      cc_raw = br_spec ?req, cc_max_bytes = br_max ?req, cc_retention = br_retention ?req, cc_future = br_future ?req\<rparr> (sv_world s) =
      (Inl ErrAlreadyBootstrapped, w')" "w_db w' = w_db (sv_world s)" using tx [OF h d] by blast
  then show thesis
    using that [of "s\<lparr>sv_world := w'\<rparr>"] r key checkKey_same [of "gs_key gs"]
    by (simp add: BootstrapCluster_def with_key_def requireKey_def adminCtx_def Let_def call_def on_store_def status_def)
qed


definition hash_args :: "string list" where
  "hash_args = [''--axis'', ''hash'', ''-buckets=0x10'', ''--max-bytes'', ''1_000_000'']"


end
