(* ===== verification/Columns.thy ===== *)
theory Columns
  imports Resolve
begin

text \<open>
  Bucket identifiers fit the column they are stored in: for every accepted specification and key the
  identifier is a short printable ASCII text, so that neither the length of \<open>bucket_id\<close> in
  \<^verbatim>\<open>internal/store/migrations/001_init.sql\<close> nor the encoding of the database can refuse a promotion. With
  that, the first write to a bucket is followed from its key to the promoted shard.
\<close>

section \<open>Printed numbers\<close>

definition printable :: "char \<Rightarrow> bool" where
  "printable c \<longleftrightarrow> 32 < char_code c \<and> char_code c < 127"

lemma printable_digit: "is_digit c \<Longrightarrow> printable c"
  by (auto simp: printable_def is_digit_def)

lemma length_digits_le: "0 \<le> n \<Longrightarrow> n < 10 ^ k \<Longrightarrow> 0 < k \<Longrightarrow> length (int_digits n) \<le> k"
  by (simp add: length_int_digits)

lemma FormatInt_fits:
  assumes "int64_ok n"
  shows "length (FormatInt n) \<le> 20" and "c \<in> set (FormatInt n) \<Longrightarrow> printable c"
proof -
  have m: "length (int_digits \<bar>n\<bar>) \<le> 19" using assms by (intro length_digits_le) (auto simp: int64_ok_def)
  show "length (FormatInt n) \<le> 20" using m by (cases "n < 0") (simp_all add: FormatInt_def)
  show "printable c" if "c \<in> set (FormatInt n)"
    using that int_digits_all_digits [of "\<bar>n\<bar>" c] printable_digit
    by (auto simp: FormatInt_def printable_def char_code_def split: if_splits)
qed

lemma appendInt_fits:
  assumes "\<bar>n\<bar> < 10 ^ k" and "w \<le> k" and "0 < k"
  shows "length (appendInt w n) \<le> Suc k" and "c \<in> set (appendInt w n) \<Longrightarrow> printable c"
proof -
  have m: "length (int_digits \<bar>n\<bar>) \<le> k" using assms by (intro length_digits_le) auto
  then show "length (appendInt w n) \<le> Suc k" using assms(2) by (cases "n < 0") (simp_all add: appendInt_def pad0_def)
  show "printable c" if "c \<in> set (appendInt w n)"
    using that int_digits_all_digits [of "\<bar>n\<bar>" c] printable_digit
    by (auto simp: appendInt_def pad0_def printable_def char_code_def split: if_splits)
qed

section \<open>Times that keys denote\<close>

definition era :: "gtime \<Rightarrow> bool" where
  "era t \<longleftrightarrow> \<bar>Unix_of t\<bar> \<le> 10 ^ 20"

lemma era_year:
  assumes "era t"
  shows "\<bar>time_year t\<bar> < 10 ^ 18"
proof -
  have "\<bar>time_days t\<bar> \<le> 10 ^ 16" using assms by (simp add: era_def time_days_def)
  then show ?thesis
    using year_of_days_bounds [of "time_days t + epoch_days"] days_before_year_bounds(1) [of "time_year t"]
      days_before_year_bounds(2) [of "time_year t + 1"]
    by (simp add: time_year_def civil_of_days_def Let_def epoch_days_def)
qed

lemma digits_int_bound: "digits_int acc s = Some n \<Longrightarrow> 0 \<le> acc \<Longrightarrow> n < (acc + 1) * 10 ^ length s"
proof (induction acc s rule: digits_int.induct)
  case (2 acc c cs)
  then have c: "is_digit c" "digits_int (10 * acc + digit_val c) cs = Some n" by (auto split: if_splits)
  then have "n < (10 * acc + digit_val c + 1) * 10 ^ length cs" using 2 digit_val_bounds [of c] by simp
  also have "\<dots> \<le> (10 * acc + 10) * 10 ^ length cs" using digit_val_bounds [OF c(1)] by (intro mult_right_mono) auto
  finally show ?case by (simp add: algebra_simps)
qed simp

lemma digits_int_all: "\<forall>c \<in> set s. is_digit c \<Longrightarrow> \<exists>n. digits_int acc s = Some n"
  by (induction s arbitrary: acc) auto

lemma parse_fraction_bound: "parse_fraction s = (ns, r) \<Longrightarrow> 0 \<le> ns \<and> ns < 10 ^ 9"
proof -
  have b: "0 \<le> the (digits_int 0 ds) * 10 ^ (9 - length ds) \<and> the (digits_int 0 ds) * 10 ^ (9 - length ds) < 10 ^ 9"
    if ds: "\<forall>c \<in> set ds. is_digit c" "length ds \<le> 9" for ds
  proof -
    obtain n where n: "digits_int 0 ds = Some n" using digits_int_all [OF ds(1)] by blast
    then have "0 \<le> n" "n < 10 ^ length ds" using digits_int_bound [OF n] digits_int_nonneg [OF _ n] by simp_all
    then have "n * 10 ^ (9 - length ds) < 10 ^ length ds * 10 ^ (9 - length ds)" by (intro mult_strict_right_mono) auto
    then show ?thesis using n \<open>0 \<le> n\<close> ds(2) by (simp flip: power_add)
  qed
  have d: "\<forall>c \<in> set (take 9 (takeWhile is_digit x)). is_digit c" "length (take 9 (takeWhile is_digit x)) \<le> 9" for x
    by (meson in_set_takeD set_takeWhileD) simp
  assume "parse_fraction s = (ns, r)"
  then have "ns = 0 \<or> (\<exists>x. ns = the (digits_int 0 (take 9 (takeWhile is_digit x))) * 10 ^ (9 - length (take 9 (takeWhile is_digit x))))"
    unfolding parse_fraction_def Let_def by (simp only: split: list.splits if_splits) blast+
  then show ?thesis using b [OF d] by auto
qed

lemma getnum_bound: "getnum f s = Some (n, r) \<Longrightarrow> 0 \<le> n \<and> n < 100"
  by (induction f s rule: getnum.induct) (auto split: if_splits dest!: digit_val_bounds)

text \<open>What the parser has read so far.\<close>

definition read_ok :: "ptime \<Rightarrow> bool" where
  "read_ok p \<longleftrightarrow> 0 \<le> p_year p \<and> p_year p < 10000 \<and> (p_month p = - 1 \<or> 1 \<le> p_month p \<and> p_month p \<le> 12) \<and> - 1 \<le> p_day p \<and> p_day p < 100 \<and>
     0 \<le> p_hour p \<and> p_hour p < 24 \<and> 0 \<le> p_min p \<and> p_min p < 60 \<and> 0 \<le> p_sec p \<and> p_sec p < 60 \<and>
     0 \<le> p_nsec p \<and> p_nsec p < second_ns \<and> \<bar>p_off p\<bar> \<le> 100000"

lemma parse_zone_bound: "parse_zone s = Some (off, r) \<Longrightarrow> \<bar>off\<bar> \<le> 100000"
  by (auto simp: parse_zone_def split: list.splits if_splits option.splits dest!: getnum_bound)

lemma parse_chunk_read:
  assumes "parse_chunk c p s = Some (p', r)" and "read_ok p"
  shows "read_ok p'"
proof (cases c)
  case StdLongYear
  then obtain y where y: "digits_int 0 (take 4 s) = Some y" "p' = p\<lparr>p_year := y\<rparr>"
    using assms(1) by (auto split: if_splits option.splits)
  have "10 ^ length (take 4 s) \<le> (10 :: int) ^ 4" by (intro power_increasing) auto
  then show ?thesis
    using digits_int_bound [OF y(1)] digits_int_nonneg [OF _ y(1)] assms(2) y(2) by (simp add: read_ok_def)
qed (use assms in \<open>auto simp: read_ok_def second_ns_def split: option.splits if_splits prod.splits list.splits
  dest: getnum_bound parse_zone_bound parse_fraction_bound\<close>)

lemma parse_chunks_read: "parse_chunks cs p s = Some (p', r) \<Longrightarrow> read_ok p \<Longrightarrow> read_ok p'"
  by (induction cs p s rule: parse_chunks.induct) (auto split: option.splits dest: parse_chunk_read)

lemma time_Parse_era: "time_Parse layout s = Some t \<Longrightarrow> era t"
proof -
  assume "time_Parse layout s = Some t"
  then obtain p where p: "parse_chunks layout ptime0 s = Some (p, [])" "finish_parse p = Some t"
    by (auto simp: time_Parse_def split: option.splits prod.splits list.splits)
  have "read_ok ptime0" by (simp add: read_ok_def ptime0_def second_ns_def)
  then have r: "read_ok p" using parse_chunks_read [OF p(1)] by blast
  define mo d where "mo = (if p_month p < 0 then 1 else p_month p)" and "d = (if p_day p < 0 then 1 else p_day p)"
  have mo: "1 \<le> mo" "mo \<le> 12" "1 \<le> d" "d < 100"
    using r p(2) by (auto simp: mo_def d_def read_ok_def finish_parse_def Let_def split: if_splits)
  have t: "t = Date (p_year p) mo d (p_hour p) (p_min p) (p_sec p - p_off p) (p_nsec p)"
    using p(2) by (auto simp: mo_def d_def finish_parse_def Let_def split: if_splits)
  have "days_before_month (leap (p_year p)) mo \<le> 366"
    using mo by (cases rule: month_cases) (auto simp: days_before_month_simps)
  then have "\<bar>days_of_civil (p_year p) mo d\<bar> \<le> 10 ^ 10"
    using days_before_year_bounds [of "p_year p"] days_before_month_range(1) [OF mo(1,2), of "leap (p_year p)"] mo r
    by (auto simp: days_of_civil_def read_ok_def epoch_days_def)
  then show "era t" using r unfolding t Date_def era_def read_ok_def by (simp add: abs_le_iff)
qed

lemma parseTimeKey_era:
  assumes "key_ok k" and "parseTimeKey L k = Inr t"
  shows "era t"
proof -
  have u: "era (time_Unix v 0)" "era (UnixMilli v)" if "int64_ok v" for v
    using that by (auto simp: era_def time_Unix_def UnixMilli_def Unix_of_def second_ns_def int64_ok_def)
  then have "era (unix_key v)" if "int64_ok v" for v using that by (simp add: unix_key_def)
  then show ?thesis
    using assms u int64_of_float_ok
    by (cases k) (auto simp: key_ok_def split: option.splits prod.splits if_splits dest: time_Parse_era ParseInt_range)
qed

section \<open>Identifiers\<close>

definition fits_column :: "string \<Rightarrow> bool" where
  "fits_column b \<longleftrightarrow> b \<noteq> [] \<and> length b \<le> 64 \<and> list_all printable b"

lemma char_len_printable: "list_all printable b \<Longrightarrow> char_len b = length b"
  by (induction b) (auto simp: char_len_def printable_def)

lemma timeID_fits:
  assumes "era t"
  shows "fits_column (timeID s t)"
proof -
  have y: "length (appendInt 4 (time_year t)) \<le> 19" "list_all printable (appendInt 4 (time_year t))"
    using appendInt_fits [of "time_year t" 18 4] era_year [OF assms] by (auto simp: list_all_iff)
  have two: "length (appendInt 2 n) \<le> 3" "list_all printable (appendInt 2 n)" if "0 \<le> n" "n < 100" for n
    using appendInt_fits [of n 2 2] that by (auto simp: list_all_iff)
  have f: "0 \<le> time_month t" "time_month t < 100" "0 \<le> time_day t" "time_day t < 100" "0 \<le> time_hour t" "time_hour t < 100"
    using time_fields_valid [of t] daysIn_bound [of "time_month t" "time_year t"] time_field_bounds [of t] by (auto simp: valid_date_def)
  have lit: "printable CHR ''-''" "printable CHR ''T''" by (simp_all add: printable_def char_code_def)
  note p = y two [OF f(1,2)] two [OF f(3,4)] two [OF f(5,6)]
  have "time_Format l t \<noteq> [] \<and> length (time_Format l t) \<le> 64 \<and> list_all printable (time_Format l t)"
    if "l \<in> {layout_hour, layout_day, layout_month}" for l
    using that p lit
    by (auto simp: layout_hour_def layout_day_def layout_month_def time_Format_Cons time_Format_Nil)
  then show ?thesis unfolding fits_column_def timeID_def by (cases "sp_unit s") simp_all
qed

lemma hash_id_fits:
  assumes "0 < bc" and "bc < 2 ^ 63" and "0 \<le> i" and "i < bc"
  shows "fits_column (hash_bucket_id bc i)"
proof -
  have "length (int_digits (bc - 1)) \<le> 19" using assms by (intro length_digits_le) auto
  moreover have "list_all is_digit (pad0 n (int_digits i))" for n
    using pad0_all_digits [of "int_digits i"] int_digits_all_digits [OF assms(3)] by (auto simp: list_all_iff)
  then have "list_all printable (pad0 n (int_digits i))" for n using printable_digit by (auto simp: list_all_iff)
  moreover have "printable CHR ''h''" by (simp add: printable_def char_code_def)
  ultimately show ?thesis
    using length_hash_bucket_id [OF assms] by (auto simp: fits_column_def hash_bucket_id_padded [OF assms])
qed

lemma ID_fits:
  assumes "spec_wf s" and "key_ok k" and "ID L s k = Inr b"
  shows "fits_column b"
proof (cases "sp_axis s")
  case AxisTime
  then show ?thesis using assms parseTimeKey_era timeID_fits by (auto simp: ID_def split: sum.splits)
next
  case AxisNumeric
  then obtain n where b: "b = CHR ''n'' # FormatInt (numeric_index (sp_width s) n)"
    using assms(3) by (auto simp: ID_def split: sum.splits if_splits)
  have "int64_ok (numeric_index (sp_width s) n)" by (simp add: numeric_index_def)
  note f = FormatInt_fits [OF this]
  have "printable CHR ''n''" by (simp add: printable_def char_code_def)
  then show ?thesis using f by (simp add: b fits_column_def list_all_iff)
next
  case AxisHash
  then have bc: "0 < sp_bucket_count s" "sp_bucket_count s < 2 ^ 63" using assms(1) by (simp_all add: spec_wf_def)
  obtain h where b: "b = hash_bucket_id (sp_bucket_count s) (hash_index (sp_bucket_count s) h)"
    using assms(3) AxisHash by (auto simp: ID_def split: sum.splits if_splits)
  show ?thesis using hash_index_slot(1) [OF bc, of h] unfolding b hash_slot_def by (intro hash_id_fits) simp_all
next
  case AxisOther
  then show ?thesis using assms(3) by (simp add: ID_def)
qed

text \<open>
  C29: bucket identifiers fit their column. For every accepted specification and every key, the
  identifier is not empty, consists of printable ASCII characters, and has at most as many characters as
  the column \<open>bucket_id VARCHAR(64)\<close> takes.
\<close>

theorem bucket_ids_fit_column:
  assumes "ParseSpec axis raw = Inr s" and "key_ok k" and "ID L s k = Inr b"
  shows "b \<noteq> [] \<and> char_len b \<le> 64 \<and> list_all (\<lambda>c. 32 < char_code c \<and> char_code c < 127) b"
  using ID_fits [OF ParseSpec_spec_wf [OF assms(1)] assms(2,3)] char_len_printable [of b]
  by (simp add: fits_column_def printable_def list_all_iff)

theorem bucket_ids_fit_column_witness:
  "ID demo_lib demo_month (KInt64 9223372036854775807) = Inr ''292278994-08'' \<and> char_len ''292278994-08'' \<le> 64"
proof -
  have "ID demo_lib demo_month (KInt64 9223372036854775807) = Inr ''292278994-08''" by code_simp
  moreover have "key_ok (KInt64 9223372036854775807)" by (simp add: key_ok_def int64_ok_def)
  ultimately show ?thesis using bucket_ids_fit_column [OF demo_month_parse, of "KInt64 9223372036854775807" demo_lib] by simp
qed

section \<open>The first write to a bucket\<close>

lemma ClassifyWrite_ID:
  assumes "ClassifyWrite L s now k depth future = Inr (bucket_route b)"
  shows "ID L s k = Inr b"
  using assms
  by (auto simp: ClassifyWrite_def route_by_index_def bucket_route_def error_route_def Let_def split: sum.splits if_splits goerr.splits)

lemma open_ensureActive:
  assumes h: "healthy S (w_orc w)" and d: "db_constraints (w_db w)" "db_room (w_db w)" and len: "char_len b \<le> 64"
    and free: "\<forall>r \<in> set (db_shards (w_db w)). \<not> writes_to b r" and sb: "next_standby (db_shards (w_db w)) = Some sb"
  shows "\<exists>w' t. ensureActive S b w = (Inr (promote_row b t sb), w') \<and>
    db_shards (w_db w') = sql_update (\<lambda>r. sh_id r = sh_id sb) (promote_row b t) (db_shards (w_db w))"
proof -
  have no: "\<not> data_in StateActive b r" if "r \<in> set (db_shards (w_db w))" for r using free that by (auto simp: writes_to_def)
  define w1 where "w1 = w\<lparr>w_pc := Suc (w_pc w)\<rparr>"
  define w2 where "w2 = w\<lparr>w_pc := Suc (Suc (w_pc w))\<rparr>"
  define w3 where "w3 = w\<lparr>w_pc := Suc (Suc (Suc (w_pc w)))\<rparr>"
  have 1: "ActiveForBucket S b w = (Inl ErrNotFound, w1)"
    unfolding ActiveForBucket_def w1_def using h no by (subst no_row_healthy) auto
  have 2: "StaleActiveForBucket S b w1 = (Inl ErrNotFound, w2)"
    unfolding StaleActiveForBucket_def w1_def w2_def using h no by (subst no_row_healthy) auto
  have 3: "ActiveForBucket S b w2 = (Inl ErrNotFound, w3)"
    unfolding ActiveForBucket_def w2_def w3_def using h no by (subst no_row_healthy) auto
  obtain w' t where 4: "AutoPromoteIfNoActive S b w3 = (Inr (Some (promote_row b t sb)), w')"
      "db_shards (w_db w') = sql_update (\<lambda>r. sh_id r = sh_id sb) (promote_row b t) (db_shards (w_db w))"
    using auto_promote_succeeds [of S w3 b sb] h d len free sb by (auto simp: w3_def)
  have "ensureActive S b w = (Inr (promote_row b t sb), w')"
    using 1 2 3 4 by (simp add: ensureActive_def failoverStaleActive_def catch_io_def bind_io_def return_io_def)
  then show ?thesis using 4(2) by blast
qed

text \<open>
  C17: the first write opens a bucket. When the database answers and the pool has a standby shard, a
  write whose key belongs to a bucket without a writer is resolved to the standby shard with the
  smallest identifier, which is now active in exactly that bucket, and no other row changes.
\<close>

theorem first_write_opens_bucket:
  assumes "healthy S (w_orc w)" and "db_constraints (w_db w)" and "db_room (w_db w)"
    and "w_cache w = Some cfg" and "ParseSpec (cc_axis cfg) (cc_raw cfg) = Inr (cc_spec cfg)" and "key_ok k"
    and "ClassifyWrite L (cc_spec cfg) now k (opt_int (cc_retention cfg)) (opt_int (cc_future cfg)) = Inr (bucket_route b)"
    and "\<forall>r \<in> set (db_shards (w_db w)). \<not> writes_to b r" and "next_standby (db_shards (w_db w)) = Some sb"
  shows "\<exists>w' t. ResolveWrite L U S now k w = (Inr (write_result U RouteBucket b ReasonNone (promote_row b t sb)), w') \<and>
    db_shards (w_db w') = sql_update (\<lambda>r. sh_id r = sh_id sb) (promote_row b t) (db_shards (w_db w))"
proof -
  have "char_len b \<le> 64"
    using ID_fits [OF ParseSpec_spec_wf [OF assms(5)] assms(6) ClassifyWrite_ID [OF assms(7)]] char_len_printable [of b]
    by (simp add: fits_column_def)
  then show ?thesis
    using open_ensureActive [OF assms(1-3) _ assms(8,9)] assms(4,7)
    by (auto simp: ResolveWrite_def bind_io_def catch_io_def GetConfig_def return_io_def bucket_route_def)
qed

theorem first_write_opens_bucket_witness:
  "\<exists>w' t. ResolveWrite demo_lib demo_uuid demo_store 0 (KInt64 7001) ((demo_world demo_db)\<lparr>w_cache := Some demo_config\<rparr>) =
      (Inr (write_result demo_uuid RouteBucket ''n7'' ReasonNone (promote_row ''n7'' t (demo_shard 2 StateStandby None))), w') \<and>
    map sh_bucket (db_shards (w_db w')) = [Some ''n0'', Some ''n7'']"
proof -
  let ?w = "(demo_world demo_db)\<lparr>w_cache := Some demo_config\<rparr>" and ?sb = "demo_shard 2 StateStandby None"
  have c: "ClassifyWrite demo_lib (cc_spec demo_config) 0 (KInt64 7001) (opt_int (cc_retention demo_config))
      (opt_int (cc_future demo_config)) = Inr (bucket_route ''n7'')" by code_simp
  have sb: "next_standby (db_shards demo_db) = Some ?sb" by code_simp
  have free: "\<forall>r \<in> set (db_shards demo_db). \<not> writes_to ''n7'' r"
    by (simp add: demo_db_def writes_to_def data_in_def demo_shard_def new_row_def)
  have spec: "ParseSpec (cc_axis demo_config) (cc_raw demo_config) = Inr (cc_spec demo_config)" "key_ok (KInt64 7001)"
    using demo_numeric_parse by (simp_all add: demo_config_def key_ok_def int64_ok_def)
  have b: "map sh_bucket (sql_update (\<lambda>r. sh_id r = sh_id ?sb) (promote_row ''n7'' t) (db_shards demo_db)) = [Some ''n0'', Some ''n7'']" for t
    by (simp add: demo_db_def demo_shard_def new_row_def promote_row_def)
  obtain w' t where "ResolveWrite demo_lib demo_uuid demo_store 0 (KInt64 7001) ?w =
      (Inr (write_result demo_uuid RouteBucket ''n7'' ReasonNone (promote_row ''n7'' t ?sb)), w')"
      "db_shards (w_db w') = sql_update (\<lambda>r. sh_id r = sh_id ?sb) (promote_row ''n7'' t) (db_shards demo_db)"
    using first_write_opens_bucket [OF _ _ _ _ spec c, of demo_store ?w ?sb demo_uuid] sb free demo_healthy demo_db_constraints demo_db_room
    by auto
  then show ?thesis using b by (intro exI [of _ w'] exI [of _ t]) simp
qed

end
