(* ===== verification/Fixture.thy ===== *)
theory Fixture
  imports Cli Columns
begin

text \<open>
  \<^verbatim>\<open>internal/integration/harness.go\<close>: the environment of the integration tests, a store on an empty schema with a fixed clock
  and the helpers that fill it. A failing helper panics. The identifiers that \<open>uuid.New\<close> draws are
  arguments, and so are the results of the third-party pool, as in the start of the server.
\<close>

section \<open>The environment\<close>

record Env =
  en_store :: Store
  en_now :: gtime

definition fixed_now :: gtime where
  "fixed_now = Date 2026 8 15 12 0 0 0"

text \<open>Without a configured database the test is skipped, here \<open>None\<close>; an error ends the test.\<close>

definition OpenEnv :: "pgx \<Rightarrow> pglib \<Rightarrow> environ \<Rightarrow> (boot, Env option) sio" where
  "OpenEnv px pg env =
    (let dsn = env ''METADATA_PG_DSN'' in
     if dsn = [] then return_io None
     else bind_io (store_New px pg dsn 0 0) (\<lambda>(st, _).
       catch_io ResetSchema (\<lambda>e b. (Inl e, b\<lparr>bt_open := False\<rparr>)) (\<lambda>_. return_io (Some \<lparr>en_store = st, en_now = fixed_now\<rparr>))))"

definition SetNow :: "gtime \<Rightarrow> Env \<Rightarrow> Env" where
  "SetNow t e = e\<lparr>en_now := t\<rparr>"

definition must :: "'a io \<Rightarrow> 'a io" where
  "must m = catch_io m (\<lambda>_. fail_io ErrPanic) return_io"

definition MustBootstrap :: "Env \<Rightarrow> ClusterConfig \<Rightarrow> unit io" where
  "MustBootstrap e cfg = must (Bootstrap (en_store e) cfg)"

definition fixture_config :: "string \<Rightarrow> Axis \<Rightarrow> string \<Rightarrow> int \<Rightarrow> ClusterConfig" where
  "fixture_config mode axis raw maxBytes =
    \<lparr>cc_mode = mode, cc_axis = axis, cc_spec = spec0 axis [], cc_raw = raw, cc_max_bytes = maxBytes, cc_retention = None, cc_future = None\<rparr>"

definition BootstrapTime :: "Env \<Rightarrow> int \<Rightarrow> int \<Rightarrow> int \<Rightarrow> unit io" where
  "BootstrapTime e retention maxFuture maxBytes =
    MustBootstrap e ((fixture_config ModeRange AxisTime (json_obj1 ''unit'' (json_str ''month'')) maxBytes)
      \<lparr>cc_retention := Some retention, cc_future := Some maxFuture\<rparr>)"

definition BootstrapNumeric :: "Env \<Rightarrow> int \<Rightarrow> int \<Rightarrow> unit io" where
  "BootstrapNumeric e width maxBytes =
    MustBootstrap e (fixture_config ModeRange AxisNumeric (json_obj1 ''width'' (FormatInt width)) maxBytes)"

text \<open>\<open>json.Marshal\<close> sorts the keys of a map.\<close>

definition BootstrapHash :: "Env \<Rightarrow> int \<Rightarrow> int \<Rightarrow> unit io" where
  "BootstrapHash e bucketCount maxBytes =
    MustBootstrap e (fixture_config ModeHash AxisHash (''{'' @ json_str ''bucket_count'' @ '':'' @ FormatInt bucketCount @ '','' @
      json_str ''hash_algo'' @ '':'' @ json_str ''xxhash64'' @ ''}'') maxBytes)"

definition RegisterError :: "Env \<Rightarrow> uuid \<Rightarrow> uuid io" where
  "RegisterError e u = bind_io (must (RegisterShard (en_store e) u RoleError ''postgres://error/db'' [] StateActive)) (\<lambda>_. return_io u)"

definition standby_dsn :: "nat \<Rightarrow> string" where
  "standby_dsn i = ''postgres://standby-'' @ FormatInt (int i) @ ''/db''"

definition register_standby :: "Env \<Rightarrow> nat \<times> uuid \<Rightarrow> unit io" where
  "register_standby e = (\<lambda>(i, u). bind_io (must (RegisterShard (en_store e) u RoleData (standby_dsn i) [] StateStandby)) (\<lambda>_. return_io ()))"

definition RegisterStandbys :: "Env \<Rightarrow> uuid list \<Rightarrow> (uuid list) io" where
  "RegisterStandbys e us = bind_io (for_io (register_standby e) (enumerate 0 us)) (\<lambda>_. return_io us)"

definition MustSealRotate :: "Env \<Rightarrow> string \<Rightarrow> unit io" where
  "MustSealRotate e b = must (SealRotate (en_store e) b)"

definition ActiveUUID :: "Env \<Rightarrow> string \<Rightarrow> uuid io" where
  "ActiveUUID e b = bind_io (must (ActiveForBucket (en_store e) b)) (\<lambda>sh. return_io (sh_uuid sh))"

definition ShardsInBucket :: "Env \<Rightarrow> string \<Rightarrow> (Shard list) io" where
  "ShardsInBucket e b = bind_io (must (ListShards (en_store e))) (\<lambda>all. return_io (filter (\<lambda>sh. sh_bucket sh = Some b) all))"

section \<open>Registration succeeds\<close>

text \<open>The values that a sequence of the database hands out grow.\<close>

definition sequence_ok :: "(nat \<Rightarrow> slot) \<Rightarrow> bool" where
  "sequence_ok orc \<longleftrightarrow> strict_mono (\<lambda>n. sl_nextval (orc n))"

lemma add_row_constraints:
  assumes "db_constraints d" and "shard_row_ok row" and "\<And>r. r \<in> set (db_shards d) \<Longrightarrow> sh_id r \<noteq> sh_id row \<and> sh_uuid r \<noteq> sh_uuid row"
    and "\<not> active_row row" and "sh_role row = RoleError \<Longrightarrow> filter (\<lambda>r. sh_role r = RoleError) (db_shards d) = []"
  shows "db_constraints (d\<lparr>db_shards := db_shards d @ [row]\<rparr>)"
proof -
  have "sh_id row \<notin> sh_id ` set (db_shards d)" "sh_uuid row \<notin> sh_uuid ` set (db_shards d)" using assms(3) by force+
  then show ?thesis
    using assms(1,2,4,5) by (auto simp: db_constraints_def key_unique_def at_most_one_def sql_count_def list_all_iff)
qed

text \<open>What registration needs and keeps: a growing sequence above the identifiers in use and a version that has room.\<close>

definition can_register :: "Store \<Rightarrow> nat \<Rightarrow> world \<Rightarrow> bool" where
  "can_register S n w \<longleftrightarrow> healthy S (w_orc w) \<and> sequence_ok (w_orc w) \<and> db_constraints (w_db w) \<and>
     (\<forall>r \<in> set (db_shards (w_db w)). sh_id r < sl_nextval (w_orc w (w_pc w)) \<and> sh_version r = 1) \<and>
     (case db_config (w_db w) of None \<Rightarrow> True | Some c \<Rightarrow> 1 \<le> cr_version c \<and> cr_version c + int n < 2 ^ 63)"

lemma can_register_room: "can_register S (Suc n) w \<Longrightarrow> db_room (w_db w)"
  by (auto simp: can_register_def db_room_def list_all_iff int64_ok_def split: option.splits)

lemma sequence_less: "sequence_ok orc \<Longrightarrow> m < n \<Longrightarrow> sl_nextval (orc m) < sl_nextval (orc n)"
  by (simp add: sequence_ok_def strict_mono_def)

lemma register_tx_healthy:
  assumes c: "can_register S (Suc n) w" and "\<not> w_aborted w"
    and u: "\<And>r. r \<in> set (db_shards (w_db w)) \<Longrightarrow> sh_uuid r \<noteq> u"
    and role: "role = RoleData \<and> st = StateStandby \<or> role = RoleError \<and> st = StateActive \<and> filter (\<lambda>r. sh_role r = RoleError) (db_shards (w_db w)) = []"
  shows "\<exists>k d. w_pc w \<le> k \<and> register_tx S u role dsn url st w =
      (Inr (Commit (sl_nextval (w_orc w k))), w\<lparr>w_pc := Suc (Suc k), w_db := d\<rparr>) \<and> db_constraints d \<and>
    d = (w_db w)\<lparr>db_shards := db_shards (w_db w) @ [new_row (sl_nextval (w_orc w k)) u role st dsn url (w_now w)],
      db_config := map_option bump_config (db_config (w_db w))\<rparr>"
proof -
  let ?k = "if role = RoleError then Suc (w_pc w) else w_pc w"
  let ?row = "new_row (sl_nextval (w_orc w ?k)) u role st dsn url (w_now w)"
  have h: "healthy S (w_orc w)" and d: "db_constraints (w_db w)" using c by (simp_all add: can_register_def)
  have "sl_nextval (w_orc w (w_pc w)) \<le> sl_nextval (w_orc w ?k)"
    using c sequence_less [of "w_orc w" "w_pc w" "Suc (w_pc w)"] by (auto simp: can_register_def)
  then have "sh_id r \<noteq> sh_id ?row" if "r \<in> set (db_shards (w_db w))" for r
    using c that by (fastforce simp: can_register_def new_row_def)
  moreover have ok: "shard_row_ok ?row" using role by (auto simp: shard_row_ok_def new_row_def int64_ok_def)
  ultimately have d1: "db_constraints ((w_db w)\<lparr>db_shards := db_shards (w_db w) @ [?row]\<rparr>)"
    using u role by (intro add_row_constraints [OF d ok]) (auto simp: new_row_def active_row_def)
  have d2: "db_constraints ((w_db w)\<lparr>db_shards := db_shards (w_db w) @ [?row], db_config := map_option bump_config (db_config (w_db w))\<rparr>)"
    using db_constraints_bump [OF d1] can_register_room [OF c] by (simp add: db_room_def)
  have none: "filter (\<lambda>sh. sh_uuid sh = u) (db_shards (w_db w)) = []" using u by (auto simp: filter_empty_conv)
  have "register_tx S u role dsn url st w = (Inr (Commit (sl_nextval (w_orc w ?k))), w\<lparr>w_pc := Suc (Suc ?k),
      w_db := (w_db w)\<lparr>db_shards := db_shards (w_db w) @ [?row], db_config := map_option bump_config (db_config (w_db w))\<rparr>\<rparr>)"
    using h assms(2) d1 d2 ok none role
    by (auto simp: register_tx_def Let_def bind_io_def catch_io_def return_io_def tx_stmt_healthy count_rows_def sql_count_def
        upsert_shard_def first_row_def write_db_def bumpTopologyVersionTx_def bump_stmt_def split: if_splits)
  moreover have "w_pc w \<le> ?k" by simp
  ultimately show ?thesis using d2 by blast
qed

text \<open>A registration appends one row with a new, larger identifier.\<close>

definition registered :: "uuid \<Rightarrow> Role \<Rightarrow> State \<Rightarrow> string \<Rightarrow> string \<Rightarrow> Shard \<Rightarrow> bool" where
  "registered u role st dsn url row \<longleftrightarrow> (\<exists>i now. row = new_row i u role st dsn url now)"

lemma RegisterShard_healthy:
  assumes c: "can_register S (Suc n) w"
    and u: "\<And>r. r \<in> set (db_shards (w_db w)) \<Longrightarrow> sh_uuid r \<noteq> u"
    and role: "role = RoleData \<and> st = StateStandby \<or> role = RoleError \<and> st = StateActive \<and> filter (\<lambda>r. sh_role r = RoleError) (db_shards (w_db w)) = []"
  shows "\<exists>w' row. RegisterShard S u role dsn url st w = (Inr row, w') \<and> registered u role st dsn url row \<and>
    db_shards (w_db w') = db_shards (w_db w) @ [row] \<and> (\<forall>r \<in> set (db_shards (w_db w)). sh_id r < sh_id row) \<and>
    w_cache w' = w_cache w \<and> can_register S n w'"
proof -
  define w0 where "w0 = w\<lparr>w_pc := Suc (w_pc w), w_aborted := False, w_now := sl_now (w_orc w (w_pc w))\<rparr>"
  have h: "healthy S (w_orc w)" and sq: "sequence_ok (w_orc w)" using c by (simp_all add: can_register_def)
  have below: "sh_id r < sl_nextval (w_orc w k)" if "r \<in> set (db_shards (w_db w))" "w_pc w \<le> k" for r k
    using c that sequence_less [OF sq, of "w_pc w" k] by (cases "w_pc w = k") (force simp: can_register_def)+
  have "can_register S (Suc n) w0"
    using c below [of _ "Suc (w_pc w)"] by (auto simp: can_register_def w0_def)
  then obtain k d where k: "Suc (w_pc w) \<le> k" "register_tx S u role dsn url st w0 = (Inr (Commit (sl_nextval (w_orc w k))), w0\<lparr>w_pc := Suc (Suc k), w_db := d\<rparr>)"
      and d: "db_constraints d" "d = (w_db w)\<lparr>db_shards := db_shards (w_db w) @ [new_row (sl_nextval (w_orc w k)) u role st dsn url (w_now w0)],
        db_config := map_option bump_config (db_config (w_db w))\<rparr>"
    using register_tx_healthy [of S n w0 u role st dsn url] u role by (auto simp: w0_def)
  define row where "row = new_row (sl_nextval (w_orc w k)) u role st dsn url (w_now w0)"
  define w2 where "w2 = w0\<lparr>w_pc := Suc (Suc (Suc k)), w_db := d\<rparr>"
  have row: "sh_id row = sl_nextval (w_orc w k)" "sh_version row = 1" "row \<in> set (db_shards d)"
    "db_shards d = db_shards (w_db w) @ [row]" by (simp_all add: row_def new_row_def d(2))
  have w2: "w_orc w2 = w_orc w" "w_db w2 = d" "w_pc w2 = Suc (Suc (Suc k))" "w_cache w2 = w_cache w" by (simp_all add: w2_def w0_def)
  have "run_tx (register_tx S u role dsn url st) w = (Inr (sh_id row), w2)"
    using run_tx_healthy [of S w "register_tx S u role dsn url st" "sh_id row" "w0\<lparr>w_pc := Suc (Suc k), w_db := d\<rparr>"] h k(2)
    by (simp add: w2_def row(1)) (simp add: w0_def)
  moreover have "GetShardByID S (sh_id row) w2 = (Inr row, w2\<lparr>w_pc := Suc (w_pc w2)\<rparr>)"
    using GetShardByID_healthy [of S w2 row] h d(1) row(3) by (simp add: w2)
  moreover have "startup_state role st = st" "StartupStateAllowed st \<or> role = RoleError"
    using role by (auto simp: startup_state_def StartupStateAllowed_def)
  ultimately have reg: "RegisterShard S u role dsn url st w = (Inr row, w2\<lparr>w_pc := Suc (w_pc w2)\<rparr>)"
    by (auto simp: RegisterShard_def Let_def bind_io_def catch_io_def)
  have old: "\<forall>r \<in> set (db_shards (w_db w)). sh_version r = 1"
    "case db_config (w_db w) of None \<Rightarrow> True | Some c \<Rightarrow> 1 \<le> cr_version c \<and> cr_version c + int (Suc n) < 2 ^ 63"
    using c by (simp_all add: can_register_def)
  have k4: "Suc (Suc (Suc (Suc k))) = k + 4" by simp
  have "sh_id r < sl_nextval (w_orc w (k + 4))" if "r \<in> set (db_shards d)" for r
  proof (cases "r = row")
    case True
    then show ?thesis using sequence_less [OF sq, of k "k + 4"] row(1) by simp
  next
    case False
    then show ?thesis using that below [of r "k + 4"] k(1) row(4) by simp
  qed
  moreover have "\<forall>r \<in> set (db_shards d). sh_version r = 1" using old(1) row(2,4) by simp
  moreover have "case db_config d of None \<Rightarrow> True | Some c \<Rightarrow> 1 \<le> cr_version c \<and> cr_version c + int n < 2 ^ 63"
    using old(2) by (simp add: d(2) bump_config_def split: option.splits)
  ultimately have "can_register S n (w2\<lparr>w_pc := Suc (w_pc w2)\<rparr>)"
    using h sq d(1) unfolding k4 [symmetric] by (simp add: can_register_def w2)
  moreover have "registered u role st dsn url row" by (auto simp: registered_def row_def)
  ultimately show ?thesis
    using reg below [of _ k] k(1) row(1,4) w2(2,4) by (intro exI [of _ "w2\<lparr>w_pc := Suc (w_pc w2)\<rparr>"] exI [of _ row]) simp
qed

lemma register_standby_healthy:
  assumes "can_register (en_store e) (Suc n) w" and "\<And>r. r \<in> set (db_shards (w_db w)) \<Longrightarrow> sh_uuid r \<noteq> u"
  shows "\<exists>w' row. register_standby e (i, u) w = (Inr (), w') \<and> registered u RoleData StateStandby (standby_dsn i) [] row \<and>
    db_shards (w_db w') = db_shards (w_db w) @ [row] \<and> (\<forall>r \<in> set (db_shards (w_db w)). sh_id r < sh_id row) \<and>
    w_cache w' = w_cache w \<and> can_register (en_store e) n w'"
  using RegisterShard_healthy [OF assms disjI1 [OF conjI [OF refl refl]], of "standby_dsn i" "[]"]
  by (auto simp: register_standby_def must_def bind_io_def catch_io_def return_io_def)

text \<open>The rows of a pool that was just filled.\<close>

definition pool_rows :: "nat \<Rightarrow> uuid list \<Rightarrow> Shard list \<Rightarrow> bool" where
  "pool_rows i us rows \<longleftrightarrow> list_all2 (\<lambda>(j, u) row. registered u RoleData StateStandby (standby_dsn j) [] row) (enumerate i us) rows \<and>
     sorted_wrt (<) (map sh_id rows)"

lemma standbys_healthy:
  assumes "can_register (en_store e) (length us + m) w" and "distinct us" and "\<And>r. r \<in> set (db_shards (w_db w)) \<Longrightarrow> sh_uuid r \<notin> set us"
  shows "\<exists>w' rows. for_io (register_standby e) (enumerate i us) w = (Inr (), w') \<and> db_shards (w_db w') = db_shards (w_db w) @ rows \<and>
    pool_rows i us rows \<and> (\<forall>r \<in> set (db_shards (w_db w)). \<forall>row \<in> set rows. sh_id r < sh_id row) \<and>
    w_cache w' = w_cache w \<and> can_register (en_store e) m w'"
  using assms
proof (induction us arbitrary: i w)
  case Nil
  then show ?case by (simp add: pool_rows_def return_io_def)
next
  case (Cons u us)
  have c: "can_register (en_store e) (Suc (length us + m)) w" using Cons.prems(1) by simp
  obtain w1 row where r: "register_standby e (i, u) w = (Inr (), w1)" "registered u RoleData StateStandby (standby_dsn i) [] row"
      "db_shards (w_db w1) = db_shards (w_db w) @ [row]" "\<forall>r \<in> set (db_shards (w_db w)). sh_id r < sh_id row"
      "w_cache w1 = w_cache w" "can_register (en_store e) (length us + m) w1"
    using register_standby_healthy [OF c, of u i] Cons.prems(3) by fastforce
  have "sh_uuid row = u" using r(2) by (auto simp: registered_def new_row_def)
  then have fresh: "sh_uuid q \<notin> set us" if "q \<in> set (db_shards (w_db w1))" for q using that Cons.prems(2) Cons.prems(3) [of q] r(3) by auto
  obtain w' rows where l: "for_io (register_standby e) (enumerate (Suc i) us) w1 = (Inr (), w')"
      "db_shards (w_db w') = db_shards (w_db w1) @ rows" "pool_rows (Suc i) us rows"
      "\<forall>r \<in> set (db_shards (w_db w1)). \<forall>row \<in> set rows. sh_id r < sh_id row" "w_cache w' = w_cache w1" "can_register (en_store e) m w'"
    using Cons.IH [OF r(6) _ fresh, of "Suc i"] Cons.prems(2) by auto
  have "pool_rows i (u # us) (row # rows)" using l(3,4) r(2,3) by (auto simp: pool_rows_def)
  moreover have "for_io (register_standby e) (enumerate i (u # us)) w = (Inr (), w')"
    using r(1) l(1) by (simp add: bind_io_def catch_io_def)
  ultimately show ?case using l r by (intro exI [of _ w'] exI [of _ "row # rows"]) auto
qed

lemma pool_rows_pool: "list_all2 (\<lambda>(j, u) row. registered u RoleData StateStandby (standby_dsn j) [] row) xs rows \<Longrightarrow> list_all pool_row rows"
  by (induction rule: list_all2_induct) (auto simp: registered_def pool_row_def new_row_def)

lemma next_standby_pool:
  assumes "pool_rows i us rows" and "filter pool_row old = []" and "us \<noteq> []"
  shows "\<exists>sb. next_standby (old @ rows) = Some sb \<and> sb \<in> set rows \<and> registered (hd us) RoleData StateStandby (standby_dsn i) [] sb"
proof -
  obtain u us' sb rows' where r: "us = u # us'" "rows = sb # rows'" "registered u RoleData StateStandby (standby_dsn i) [] sb"
    using assms(1,3) by (cases us; cases rows) (auto simp: pool_rows_def)
  have "list_all pool_row rows"
    using assms(1) unfolding pool_rows_def by (auto intro: pool_rows_pool)
  then have "filter pool_row (old @ rows) = rows" using assms(2) by (simp add: list_all_iff filter_id_conv)
  moreover have "sort_key sh_id rows = rows"
    using assms(1) by (intro sort_key_id_if_sorted) (simp add: pool_rows_def strict_sorted_iff)
  ultimately show ?thesis using r by (simp add: next_standby_def first_row_def)
qed

section \<open>A new cluster serves\<close>

definition fixture_cluster :: "Env \<Rightarrow> int \<Rightarrow> int \<Rightarrow> int \<Rightarrow> uuid \<Rightarrow> uuid list \<Rightarrow> (uuid list) io" where
  "fixture_cluster e retention maxFuture maxBytes ue us =
    bind_io (BootstrapTime e retention maxFuture maxBytes) (\<lambda>_. bind_io (RegisterError e ue) (\<lambda>_. RegisterStandbys e us))"

lemma fixture_bootstrap:
  assumes h: "healthy (en_store e) (w_orc w)" "sequence_ok (w_orc w)" and d: "w_db w = empty_db"
    and js: "pg_jsonb (st_pg (en_store e)) (json_obj1 ''unit'' (json_str ''month'')) = Some js"
    and r: "0 \<le> retention" "retention < 2 ^ 31" "0 \<le> maxFuture" "maxFuture < 2 ^ 31" and n: "int n + 1 < 2 ^ 63"
  shows "\<exists>w' cfg. BootstrapTime e retention maxFuture maxBytes w = (Inr (), w') \<and> can_register (en_store e) n w' \<and>
    db_shards (w_db w') = [] \<and> w_cache w' = Some cfg \<and> cc_axis cfg = AxisTime \<and> cc_raw cfg = json_obj1 ''unit'' (json_str ''month'') \<and>
    cc_spec cfg = demo_month \<and> cc_retention cfg = Some retention \<and> cc_future cfg = Some maxFuture"
proof -
  let ?cfg = "(fixture_config ModeRange AxisTime (json_obj1 ''unit'' (json_str ''month'')) maxBytes)
      \<lparr>cc_retention := Some retention, cc_future := Some maxFuture\<rparr>"
  have empty: "db_constraints (w_db w)" "db_config (w_db w) = None" by (simp_all add: d) (simp add: empty_db_def)
  have len: "char_len ModeRange \<le> 32" "char_len ''time'' \<le> 16" by code_simp+
  have ok: "config_row_ok (config_row_of ?cfg js)"
    using r len by (simp add: config_row_ok_def config_row_of_def fixture_config_def int32_opt_def int64_ok_def)
  obtain w' where w': "Bootstrap (en_store e) ?cfg w = (Inr (), w')" "w_orc w' = w_orc w"
      "w_db w' = (w_db w)\<lparr>db_config := Some (config_row_of ?cfg js)\<rparr>" "w_cache w' = Some (?cfg\<lparr>cc_spec := demo_month\<rparr>)"
    using Bootstrap_healthy [OF h(1) empty _ _ ok, of demo_month] js demo_month_parse by (auto simp: fixture_config_def)
  have "db_constraints (w_db w')" using ok by (simp add: w'(3) d db_constraints_def empty_db_def key_unique_def at_most_one_def sql_count_def)
  then have "can_register (en_store e) n w'"
    using h n by (simp add: can_register_def w'(2,3) d empty_db_def config_row_of_def)
  then show ?thesis
    using w' by (simp add: BootstrapTime_def MustBootstrap_def must_def catch_io_def return_io_def fixture_config_def d empty_db_def)
qed

text \<open>
  C12: a new cluster serves. On an empty database that answers, with a sequence that grows, the
  bootstrap of a monthly cluster, the registration of the error shard and of any positive number of
  standby shards succeed, and the first write whose key lies in the window is resolved to the standby
  shard that was registered first, now active in the bucket of the key.
\<close>

theorem fresh_cluster_serves:
  assumes "healthy (en_store e) (w_orc w)" and "sequence_ok (w_orc w)" and "w_db w = empty_db"
    and "pg_jsonb (st_pg (en_store e)) (json_obj1 ''unit'' (json_str ''month'')) = Some js"
    and "0 \<le> retention" and "retention < 2 ^ 31" and "0 \<le> maxFuture" and "maxFuture < 2 ^ 31"
    and "distinct (ue # us)" and "us \<noteq> []" and "int (length us) + 3 < 2 ^ 63"
    and "key_ok k" and "ClassifyWrite L demo_month (en_now e) k retention maxFuture = Inr (bucket_route b)"
  shows "\<exists>w1 w2 sh. fixture_cluster e retention maxFuture maxBytes ue us w = (Inr us, w1) \<and>
    ResolveWrite L U (en_store e) (en_now e) k w1 = (Inr (write_result U RouteBucket b ReasonNone sh), w2) \<and>
    sh \<in> set (db_shards (w_db w2)) \<and> data_in StateActive b sh \<and> sh_uuid sh = hd us \<and> Endpoint sh = standby_dsn 0"
proof -
  let ?S = "en_store e"
  obtain wb cfg where b: "BootstrapTime e retention maxFuture maxBytes w = (Inr (), wb)" "can_register ?S (Suc (Suc (length us))) wb"
      "db_shards (w_db wb) = []" "w_cache wb = Some cfg" "cc_axis cfg = AxisTime" "cc_raw cfg = json_obj1 ''unit'' (json_str ''month'')"
      "cc_spec cfg = demo_month" "cc_retention cfg = Some retention" "cc_future cfg = Some maxFuture"
    using fixture_bootstrap [OF assms(1-8), of "Suc (Suc (length us))"] assms(11) by fastforce
  obtain wr er where r: "RegisterShard ?S ue RoleError ''postgres://error/db'' [] StateActive wb = (Inr er, wr)"
      "registered ue RoleError StateActive ''postgres://error/db'' [] er" "db_shards (w_db wr) = [er]"
      "w_cache wr = Some cfg" "can_register ?S (Suc (length us)) wr"
    using RegisterShard_healthy [OF b(2), of ue RoleError StateActive "''postgres://error/db''" "[]"] b(3,4) by auto
  have er: "sh_uuid er = ue" "\<not> pool_row er" "sh_bucket er = None" using r(2) by (auto simp: registered_def new_row_def pool_row_def)
  obtain w1 rows where l: "for_io (register_standby e) (enumerate 0 us) wr = (Inr (), w1)" "db_shards (w_db w1) = er # rows"
      "pool_rows 0 us rows" "w_cache w1 = Some cfg" "can_register ?S (Suc 0) w1"
    using standbys_healthy [of e us "Suc 0" wr 0] assms(9) r(3-5) er(1) by auto
  have run: "fixture_cluster e retention maxFuture maxBytes ue us w = (Inr us, w1)"
    using b(1) r(1) l(1) by (simp add: fixture_cluster_def RegisterError_def RegisterStandbys_def must_def bind_io_def catch_io_def return_io_def)
  obtain sb where sb: "next_standby (db_shards (w_db w1)) = Some sb" "registered (hd us) RoleData StateStandby (standby_dsn 0) [] sb"
      "sb \<in> set (db_shards (w_db w1))"
    using next_standby_pool [OF l(3), of "[er]"] er(2) assms(10) l(2) by auto
  have "list_all pool_row rows" using l(3) unfolding pool_rows_def by (auto intro: pool_rows_pool)
  then have free: "\<forall>r \<in> set (db_shards (w_db w1)). \<not> writes_to b r"
    using er(3) by (auto simp: l(2) list_all_iff pool_row_def writes_to_def data_in_def)
  have fits: "char_len b \<le> 64"
    using ID_fits [OF ParseSpec_spec_wf [OF demo_month_parse] assms(12) ClassifyWrite_ID [OF assms(13)]] char_len_printable [of b]
    by (simp add: fits_column_def)
  obtain w2 t where 2: "ensureActive ?S b w1 = (Inr (promote_row b t sb), w2)"
      "db_shards (w_db w2) = sql_update (\<lambda>r. sh_id r = sh_id sb) (promote_row b t) (db_shards (w_db w1))"
    using open_ensureActive [of ?S w1 b sb] l(5) can_register_room [of ?S 0 w1] fits free sb(1) by (auto simp: can_register_def)
  have "ResolveWrite L U ?S (en_now e) k w1 = (Inr (write_result U RouteBucket b ReasonNone (promote_row b t sb)), w2)"
    using 2(1) l(4) b(7-9) assms(13) by (simp add: ResolveWrite_def bind_io_def catch_io_def GetConfig_def return_io_def bucket_route_def opt_int_def)
  moreover have "promote_row b t sb \<in> set (db_shards (w_db w2))"
    using sb(3) by (auto simp: 2(2) sql_update_def)
  moreover have "data_in StateActive b (promote_row b t sb)" "sh_uuid (promote_row b t sb) = hd us" "Endpoint (promote_row b t sb) = standby_dsn 0"
    using sb(2) by (auto simp: registered_def new_row_def promote_row_def data_in_def Endpoint_def nullStr_def)
  ultimately show ?thesis using run by blast
qed

theorem fresh_cluster_serves_witness:
  "\<exists>w1 w2 sh. fixture_cluster \<lparr>en_store = demo_store, en_now = fixed_now\<rparr> 3 1 1024 ''e'' [''a'', ''b''] (demo_world empty_db) = (Inr [''a'', ''b''], w1) \<and>
    ResolveWrite demo_lib demo_uuid demo_store fixed_now (KString ''2026-08-20T00:00:00Z'') w1 =
      (Inr (write_result demo_uuid RouteBucket ''2026-08'' ReasonNone sh), w2) \<and>
    sh \<in> set (db_shards (w_db w2)) \<and> data_in StateActive ''2026-08'' sh \<and> sh_uuid sh = ''a'' \<and> Endpoint sh = ''postgres://standby-0/db''"
proof -
  let ?e = "\<lparr>en_store = demo_store, en_now = fixed_now\<rparr>"
  have c: "ClassifyWrite demo_lib demo_month fixed_now (KString ''2026-08-20T00:00:00Z'') 3 1 = Inr (bucket_route ''2026-08'')" by code_simp
  have k: "key_ok (KString ''2026-08-20T00:00:00Z'')" by code_simp
  have js: "pg_jsonb (st_pg demo_store) (json_obj1 ''unit'' (json_str ''month'')) = Some (json_obj1 ''unit'' (json_str ''month''))"
    by code_simp
  have dsn: "standby_dsn 0 = ''postgres://standby-0/db''" by code_simp
  have w: "healthy demo_store (w_orc (demo_world empty_db))" "sequence_ok (w_orc (demo_world empty_db))" "w_db (demo_world empty_db) = empty_db"
    using demo_healthy by (simp_all add: sequence_ok_def demo_world_def demo_slot_def strict_mono_def)
  show ?thesis using fresh_cluster_serves [of ?e "demo_world empty_db" _ 3 1 "''e''" "[''a'', ''b'']" "KString ''2026-08-20T00:00:00Z''" demo_lib "''2026-08''" 1024 demo_uuid] c k js dsn w by auto
qed

end
