(* ===== verification/Spec2Isabelle.thy ===== *)
theory Spec2Isabelle
  imports Telemetry Process OpsHttp Fixture
begin

text \<open>
  Verification of shardman, a coordinator that tells the clients of a sharded PostgreSQL database which
  shard holds a key.

  \<^bold>\<open>The program.\<close> A key is mapped to a bucket (a period of time, a numeric range or a hash slot). The
  coordinator keeps in its metadata tables the configuration of the cluster and one row per shard with
  its role, state and bucket. A write goes to the one active shard of its bucket; a bucket without one
  gets a shard from the pool of standby shards; a full or silent shard is sealed and replaced; a bucket
  that leaves the retention window is cleaned and its shards return to the pool. Keys outside the window
  go to the error shard. The server offers this over gRPC, three workers run beside it, watchers are told
  of every change of the topology, a client library resolves from a cached topology, an agent beside
  each shard reports sizes and cleans, and a command line tool administers the cluster.

  \<^bold>\<open>Foundations.\<close> \<^verbatim>\<open>Prelude\<close> has results and errors, the state and error monad of all effectful code,
  64-bit arithmetic and the relational operations on rows. \<^verbatim>\<open>GoStrings\<close>, \<^verbatim>\<open>GoTime\<close> and \<^verbatim>\<open>Json\<close> model what
  the code uses of Go's standard library: decimal conversion, time on the proleptic calendar, layouts, the
  JSON reader and writer. The locale \<open>codec\<close> in \<^verbatim>\<open>GoStrings\<close> is the interface of printing and parsing;
  it is interpreted on decimal numbers, padded numbers, hash identifiers, states and roles.

  \<^bold>\<open>Pure parts.\<close>
  \<^item> \<^verbatim>\<open>Bucket\<close> models \<^verbatim>\<open>internal/bucket/bucket.go\<close>: specifications, keys, identifiers. Its lemmas show that
    an identifier is the floor, the period or the slot of the key, that numbering and naming of periods are
    inverse (locale \<open>time_buckets\<close>), and where a numeric key wraps around.
  \<^item> \<^verbatim>\<open>Routing\<close> models \<^verbatim>\<open>internal/bucket/routing.go\<close>: the window of live buckets, against an arithmetic
    description, in agreement with the retention worker and with the minimal number of shards.
  \<^item> \<^verbatim>\<open>Fsm\<close> models \<^verbatim>\<open>internal/fsm/fsm.go\<close>: states, roles and the transition table.

  \<^bold>\<open>The metadata store.\<close> \<^verbatim>\<open>Store\<close> models the tables with the constraints of
  \<^verbatim>\<open>internal/store/migrations\<close> and the operations of \<^verbatim>\<open>internal/store/store.go\<close>, statement by statement. A
  \<open>world\<close> has the tables, the configuration cache of the process and an oracle with one slot for each
  database call: what other sessions committed before it, whether it fails and whether a failed commit took
  effect, the clock, the locked rows and the sequence. A transaction takes effect at its commit; a
  failed statement aborts it.
  \<^item> \<^verbatim>\<open>Cluster\<close> is the contract: a cluster without rows' order, faults and transactions, and an inductive
    step relation with a label per kind of change; its invariants are proved by rule induction.
  \<^item> \<^verbatim>\<open>Refine\<close> and \<^verbatim>\<open>StoreOps\<close> show that every operation, interleaved with other sessions and with any
    faults, is a sequence of steps of the contract. The locale \<open>guarantee\<close> has the composition rules for
    any preorder on the tables and is interpreted on the runs of the contract.
  \<^item> \<^verbatim>\<open>StoreProps\<close> collects the consequences: transitions, topology version, columns of the life cycle,
    rollback. \<^verbatim>\<open>StoreLive\<close> shows progress: on a database that answers, operations succeed with the effect
    their callers count on; the locale \<open>sealing\<close> is the common part of the two ways to seal.
    \<^verbatim>\<open>StoreConfig\<close> treats the cached configuration and the registration of the error shard.
  \<^item> \<^verbatim>\<open>Startup\<close> models opening the store and its migrations on a schema.

  \<^bold>\<open>The server.\<close>
  \<^item> \<^verbatim>\<open>Resolve\<close> models \<^verbatim>\<open>internal/resolve/resolve.go\<close>: soundness of a resolution, failover of a stale shard.
    \<^verbatim>\<open>Columns\<close> shows that identifiers fit their column and follows the first write to a bucket.
  \<^item> \<^verbatim>\<open>Broadcast\<close> models \<^verbatim>\<open>internal/topology/broadcast.go\<close> with its channels on a heap, and \<^verbatim>\<open>Watch\<close> a watch
    stream as an inductive step relation in which all threads interleave.
  \<^item> \<^verbatim>\<open>Supervisors\<close> models \<^verbatim>\<open>internal/seal\<close>, \<^verbatim>\<open>internal/retention\<close> and \<^verbatim>\<open>internal/health\<close>.
  \<^item> \<^verbatim>\<open>GrpcApi\<close> models all handlers of \<^verbatim>\<open>internal/grpcapi/server.go\<close> with the messages of
    \<^verbatim>\<open>api/proto/shardman/v1/shardman.proto\<close>; the server as a whole, calls and worker ticks in any order,
    refines the contract. The locales \<open>code_rules\<close> and \<open>server_rules\<close> have the composition rules of server
    code for a preorder on its state; they are interpreted on the steps of the contract here and on the
    subscribers of the hub in \<^verbatim>\<open>Process\<close>.
  \<^item> \<^verbatim>\<open>Metrics\<close>, \<^verbatim>\<open>Tracing\<close> and \<^verbatim>\<open>OpsHttp\<close> model \<^verbatim>\<open>internal/metrics\<close>, \<^verbatim>\<open>internal/oteltrace\<close> and
    \<^verbatim>\<open>internal/opshttp\<close>. \<^verbatim>\<open>Telemetry\<close> has the resolver, the workers and the handlers once more with every
    count, measurement and span attribute in its place, and shows that erasing the telemetry gives the plain
    code, so that all other theorems are about the instrumented server too.
  \<^item> \<^verbatim>\<open>Config\<close> models \<^verbatim>\<open>internal/config/config.go\<close> with Go's duration parser, \<^verbatim>\<open>Startup\<close> the start of
    \<^verbatim>\<open>cmd/server/main.go\<close> with every way it can exit, and \<^verbatim>\<open>Process\<close> its life after the start: a run over
    events such as accepted calls, ticks, streams, failures and the signal with the stages of the shutdown.

  \<^bold>\<open>Around the server.\<close> \<^verbatim>\<open>Client\<close> models \<^verbatim>\<open>pkg/client\<close>: local resolution in agreement with the server on a
  current topology, and its fallback. \<^verbatim>\<open>Agent\<close> models \<^verbatim>\<open>internal/agent\<close> and \<^verbatim>\<open>cmd/agent\<close> and follows a
  cleaned shard back to the pool. \<^verbatim>\<open>Cli\<close> models \<^verbatim>\<open>cmd/shardman\<close> and composes tool, client and server.
  \<^verbatim>\<open>Fixture\<close> models the fixtures of the integration tests, \<^verbatim>\<open>internal/integration/harness.go\<close>, and follows a
  cluster from an empty database to its first write.

  \<^bold>\<open>Parameters.\<close> Third-party code appears as arguments: \<open>golib\<close> (xxhash, Unicode lower case, printing of
  floats), \<open>uuidlib\<close>, \<open>pglib\<close> (what PostgreSQL does to intervals, JSON, text and time stamps), the
  connection pool, the metrics registry with the laws \<open>registry_ok\<close>, the tracer, and the connections of
  client and agent. Hypotheses on them are named: \<open>rely\<close> (other sessions follow the contract), \<open>quiet\<close> (there are
  none), \<open>healthy\<close> (calls do not fail and nobody interferes), \<open>sequence_ok\<close> (a sequence grows).

  \<^bold>\<open>Bounds and fuel.\<close> The only fuel is in the duration parser: each part consumes at least its unit, so the
  length of the text is enough, which \<open>duration_loop_fuel\<close> proves. Loops over rows and lists are structural.
  Progress needs room in the version columns (\<open>db_room\<close>, \<open>can_register\<close>): versions are 64-bit
  integers and an increment beyond them is refused by the database, as in the model.

  \<^bold>\<open>Limits of the model.\<close> Other sessions act between the statements of a session, not inside one. In
  \<^verbatim>\<open>Process\<close> a unary call is one step; its statements interleave with the others through the oracle. One
  server at a time migrates. Instants before the year -292277022399 and ill-formed UTF-8 in JSON texts,
  which Go replaces, are outside. The multiplexer of the HTTP server is modelled for paths that need no
  escaping. The texts of log lines and of gRPC status messages are left out.

  \<^bold>\<open>Not modelled.\<close> The generated code of \<^verbatim>\<open>api/gen\<close>; the in-memory connections of
  \<^verbatim>\<open>internal/integration/grpc_test_helpers.go\<close>, which only call the gRPC library; closing pools and
  connections, registering the services with the gRPC library and the page that prints the metrics, which
  are calls of third-party code without a result that the program uses; the deployment files.
\<close>

end
